(* ===== verification/Prelude.thy ===== *)
theory Prelude
  imports Complex_Main "HOL-Library.Signed_Division" "HOL-Library.Word"
begin

text \<open>
  Shared vocabulary of the development: the Python exceptions the script can raise, the
  result type of fallible operations and its bind, the type of Python floats (a rational
  number, rounded by a rounding function after every operation), the C integer widths that
  CPython and glibc check, and generic lemmas on numerals, floors and C division that the
  component theories use for evaluation and proof.
\<close>

section \<open>Collections\<close>

named_theorems model_defs "definitions unfolded to evaluate the model on concrete inputs"

section \<open>Python exceptions and results\<close>

text \<open>
  The exceptions the script can end with. The string carries the message CPython
  attaches where it is a fixed text; numbers inside CPython's messages are left out.
\<close>

datatype py_error =
  ZeroDivisionError
| ValueError string
| OverflowError string
| OSError string

type_synonym 'a pyresult = "py_error + 'a"

text \<open>Sequencing of fallible steps: the first exception ends the computation.\<close>

fun rbind :: "'a pyresult \<Rightarrow> ('a \<Rightarrow> 'b pyresult) \<Rightarrow> 'b pyresult" where
  "rbind (Inl e) f = Inl e"
| "rbind (Inr a) f = f a"

lemma rbind_eq_Inr_iff [simp]:
  "rbind m f = Inr b \<longleftrightarrow> (\<exists>a. m = Inr a \<and> f a = Inr b)"
  by (cases m) auto

lemma rbind_eq_Inl_iff:
  "rbind m f = Inl e \<longleftrightarrow> m = Inl e \<or> (\<exists>a. m = Inr a \<and> f a = Inl e)"
  by (cases m) auto

lemma rbind_Inr_right [simp]: "rbind m Inr = m"
  by (cases m) auto

section \<open>Python floats\<close>

text \<open>
  A Python float is modelled by the rational number it denotes. Every float operation of
  the script computes the exact result and then applies a rounding function of type
  \<open>rounding\<close>: \<open>exact\<close> (no rounding) gives the real-number reading of the script that
  the specification states; a binary64 rounding gives IEEE double arithmetic. Theorems
  that hold for every rounding function are stated over a variable \<open>rnd\<close>.
\<close>

type_synonym pyfloat = rat
type_synonym rounding = "rat \<Rightarrow> rat"

abbreviation exact :: rounding where
  "exact \<equiv> id"

section \<open>C integer widths\<close>

text \<open>
  A mathematical integer fits a C \<open>int\<close> (32 bits) or \<open>time_t\<close> (64 bits on the
  platforms CPython targets) when the signed word of that width reads it back unchanged.
\<close>

definition fits_int32 :: "int \<Rightarrow> bool" where
  "fits_int32 x \<longleftrightarrow> sint (word_of_int x :: 32 word) = x"

definition fits_int64 :: "int \<Rightarrow> bool" where
  "fits_int64 x \<longleftrightarrow> sint (word_of_int x :: 64 word) = x"

lemma sint_word_of_int_eq_iff:
  "sint (word_of_int x :: 'a::len word) = x \<longleftrightarrow>
     - (2 ^ (LENGTH('a) - 1)) \<le> x \<and> x < 2 ^ (LENGTH('a) - 1)"
  by (simp add: sint_sbintrunc' signed_take_bit_int_eq_self_iff)

lemma fits_int32_iff: "fits_int32 x \<longleftrightarrow> - (2 ^ 31) \<le> x \<and> x < 2 ^ 31"
  unfolding fits_int32_def sint_word_of_int_eq_iff by simp

lemma fits_int64_iff: "fits_int64 x \<longleftrightarrow> - (2 ^ 63) \<le> x \<and> x < 2 ^ 63"
  unfolding fits_int64_def sint_word_of_int_eq_iff by simp

section \<open>C division\<close>

text \<open>
  C's \<open>/\<close> and \<open>%\<close> on signed integers truncate toward zero: \<open>sdiv\<close> and \<open>smod\<close>
  of HOL-Library.Signed\_Division. On non-negative operands they agree with the
  flooring \<open>div\<close> and \<open>mod\<close>.
\<close>

lemma sdiv_nonneg_eq_div [simp]:
  "0 \<le> a \<Longrightarrow> 0 < b \<Longrightarrow> (a::int) sdiv b = a div b"
  by (simp add: signed_divide_int_eq_divide_int sgn_if)

lemma smod_nonneg_eq_mod [simp]:
  "0 \<le> a \<Longrightarrow> 0 < b \<Longrightarrow> (a::int) smod b = a mod b"
  by (simp add: signed_modulo_int_eq_modulo_int sgn_if)

lemma sdiv_smod_floor:
  assumes "0 < (b::int)"
  shows "a sdiv b - (if a smod b < 0 then 1 else 0) = a div b"
proof -
  have m: "0 \<le> a mod b" "a mod b < b"
    using assms by simp_all
  have "a smod b < 0 \<longleftrightarrow> (a < 0 \<and> \<not> b dvd a)"
    using assms m by (auto simp: signed_modulo_int_eq_modulo_int sgn_if dvd_eq_mod_eq_0)
  then show ?thesis
    using assms by (auto simp: signed_divide_int_eq_divide_int sgn_if)
qed

lemma smod_eq_0_iff: "(a::int) smod b = 0 \<longleftrightarrow> b dvd a"
proof -
  have s: "a smod b = sgn a * (\<bar>a\<bar> mod \<bar>b\<bar>)" by (simp add: signed_modulo_int_def)
  have m: "\<bar>a\<bar> mod \<bar>b\<bar> = 0 \<longleftrightarrow> b dvd a"
    by (simp add: dvd_eq_mod_eq_0 [symmetric])
  show ?thesis
    by (cases "a = 0") (simp_all add: s m sgn_if)
qed

lemma div_succ_eq:
  assumes b: "0 < (b::int)"
  shows "(a + 1) div b = a div b + (if b dvd (a + 1) then 1 else 0)"
proof (cases "b = 1")
  case True
  then show ?thesis by simp
next
  case False
  with b have b1: "1 < b" by simp
  have r: "0 \<le> a mod b" "a mod b < b" using b by simp_all
  have "(a + 1) div b = a div b + 1 div b + (a mod b + 1 mod b) div b"
    by (rule div_add1_eq)
  also have "\<dots> = a div b + (a mod b + 1) div b"
    using b1 by simp
  also have "(a mod b + 1) div b = (if a mod b + 1 = b then 1 else 0)"
    using r by (auto simp: div_pos_pos_trivial)
  also have "(a mod b + 1 = b) \<longleftrightarrow> b dvd (a + 1)"
  proof
    have m: "(a + 1) mod b = (a mod b + 1) mod b" by (simp add: mod_add_left_eq)
    {
      assume "a mod b + 1 = b"
      then show "b dvd (a + 1)" using m by (simp add: dvd_eq_mod_eq_0)
    next
      assume "b dvd (a + 1)"
      then have z: "(a mod b + 1) mod b = 0" using m by (simp add: dvd_eq_mod_eq_0)
      have lt: "0 < a mod b + 1" "a mod b + 1 \<le> b" using r by linarith+
      show "a mod b + 1 = b"
      proof (rule ccontr)
        assume "a mod b + 1 \<noteq> b"
        with lt have "(a mod b + 1) mod b = a mod b + 1" by (simp add: mod_pos_pos_trivial)
        with z lt show False by simp
      qed
    }
  qed
  finally show ?thesis .
qed

lemma smod_floor:
  assumes "0 < (b::int)"
  shows "a smod b + (if a smod b < 0 then b else 0) = a mod b"
proof (cases "a smod b < 0")
  case True
  then have "a sdiv b = a div b + 1" using sdiv_smod_floor [OF assms, of a] by simp
  then have "b * (a div b) + b + a smod b = a" using mult_sdiv_smod_eq [of b a]
    by (simp add: distrib_left)
  then have "a smod b + b = a mod b" using mult_div_mod_eq [of b a] by linarith
  then show ?thesis using True by simp
next
  case False
  then have "a sdiv b = a div b" using sdiv_smod_floor [OF assms, of a] by simp
  then have "b * (a div b) + a smod b = a" using mult_sdiv_smod_eq [of b a] by simp
  then have "a smod b = a mod b" using mult_div_mod_eq [of b a] by linarith
  then show ?thesis using False by simp
qed

lemma smod_bounds:
  assumes "0 < (b::int)"
  shows "- b < a smod b \<and> a smod b < b"
proof -
  define m where "m = \<bar>a\<bar> mod b"
  have s: "a smod b = sgn a * m" using assms by (simp add: signed_modulo_int_def m_def)
  have "0 \<le> m" "m < b" using assms by (simp_all add: m_def)
  then show ?thesis unfolding s by (auto simp: sgn_if)
qed

lemma div_mod_split:
  assumes "0 \<le> r" "r < (b::int)"
  shows "(q * b + r) div b = q \<and> (q * b + r) mod b = r"
proof -
  have "(r + q * b) div b = q + r div b" "(r + q * b) mod b = r mod b"
    using assms by simp_all
  then show ?thesis using assms by (simp add: add.commute)
qed

section \<open>Floors\<close>

lemma floor_less_plus_one: "x < of_int \<lfloor>x\<rfloor> + (1::'a::floor_ceiling)"
  using floor_correct [of x] by simp

lemma floor_numeral_divide [simp]:
  "\<lfloor>(numeral a / numeral b :: rat)\<rfloor> = numeral a div numeral b"
  using floor_divide_of_int_eq [of "numeral a" "numeral b", where 'a = rat] by simp

lemma floor_one_divide_numeral [simp]:
  "\<lfloor>(1 / numeral b :: rat)\<rfloor> = 1 div numeral b"
  using floor_divide_of_int_eq [of 1 "numeral b", where 'a = rat] by simp

lemma floor_neg_one_divide_numeral [simp]:
  "\<lfloor>- (1 / numeral b :: rat)\<rfloor> = - 1 div numeral b"
  using floor_divide_of_int_eq [of "- 1" "numeral b", where 'a = rat] by simp

lemma floor_neg_numeral_divide [simp]:
  "\<lfloor>- (numeral a / numeral b :: rat)\<rfloor> = - numeral a div numeral b"
  using floor_divide_of_int_eq [of "- numeral a" "numeral b", where 'a = rat] by simp

end
