(* ===== verification/PyFloat.thy ===== *)
theory PyFloat
  imports Prelude
begin

text \<open>
  The float operations the script performs, each computing the exact result and rounding
  it with a rounding function \<open>rnd\<close>: literals, conversion of Python ints, \<open>+\<close>,
  \<open>-\<close>, \<open>*\<close>, \<open>/\<close> (which raises \<open>ZeroDivisionError\<close> on a zero divisor), true
  division of two ints, C's \<open>modf\<close> and \<open>round\<close>, and the two integer roundings the
  script reaches: the round-half-to-even of Python's float formatting and CPython's
  \<open>pytime_round_half_even\<close> (Python/pytime.c), which \<open>datetime.fromtimestamp\<close> uses
  for the microseconds. The main results: the formatting rounding is within one half of
  its argument and picks the even neighbour on a tie, and CPython's two-step C routine
  computes the same integer.
\<close>

section \<open>Arithmetic\<close>

definition float_lit :: "rounding \<Rightarrow> rat \<Rightarrow> pyfloat" where
  "float_lit rnd q = rnd q"

definition int_to_float :: "rounding \<Rightarrow> int \<Rightarrow> pyfloat" where
  "int_to_float rnd i = rnd (of_int i)"

definition fadd :: "rounding \<Rightarrow> pyfloat \<Rightarrow> pyfloat \<Rightarrow> pyfloat" where
  "fadd rnd a b = rnd (a + b)"

definition fsub :: "rounding \<Rightarrow> pyfloat \<Rightarrow> pyfloat \<Rightarrow> pyfloat" where
  "fsub rnd a b = rnd (a - b)"

definition fmul :: "rounding \<Rightarrow> pyfloat \<Rightarrow> pyfloat \<Rightarrow> pyfloat" where
  "fmul rnd a b = rnd (a * b)"

text \<open>\<open>float.__truediv__\<close>: a zero divisor raises instead of producing an infinity.\<close>

definition fdiv :: "rounding \<Rightarrow> pyfloat \<Rightarrow> pyfloat \<Rightarrow> pyfloat pyresult" where
  "fdiv rnd a b = (if b = 0 then Inl ZeroDivisionError else Inr (rnd (a / b)))"

text \<open>\<open>int.__truediv__\<close>: the correctly rounded quotient of two Python ints.\<close>

definition int_truediv :: "rounding \<Rightarrow> int \<Rightarrow> int \<Rightarrow> pyfloat pyresult" where
  "int_truediv rnd a b =
     (if b = 0 then Inl ZeroDivisionError else Inr (rnd (of_int a / of_int b)))"

section \<open>C rounding primitives\<close>

text \<open>C's \<open>trunc\<close> (toward zero) and \<open>round\<close> (half away from zero).\<close>

definition c_trunc :: "rat \<Rightarrow> int" where
  "c_trunc x = (if 0 \<le> x then \<lfloor>x\<rfloor> else - \<lfloor>- x\<rfloor>)"

definition c_round :: "rat \<Rightarrow> int" where
  "c_round x = (if 0 \<le> x then \<lfloor>x + 1/2\<rfloor> else - \<lfloor>- x + 1/2\<rfloor>)"

text \<open>
  C's \<open>modf\<close>: the fractional part, with the sign of the argument, and the integral
  part. Both are exact in binary floating point, so no rounding is applied.
\<close>

definition c_modf :: "pyfloat \<Rightarrow> pyfloat \<times> pyfloat" where
  "c_modf x = (x - of_int (c_trunc x), of_int (c_trunc x))"

text \<open>
  Round half to even, the rounding of Python's \<open>format(x, '.Nf')\<close> applied to the
  exact value of the float scaled by \<open>10^N\<close>.
\<close>

definition round_half_even :: "rat \<Rightarrow> int" where
  "round_half_even x =
     (let f = \<lfloor>x\<rfloor>; r = x - of_int f in
      if r < 1/2 then f else if 1/2 < r then f + 1 else if even f then f else f + 1)"

text \<open>
  CPython's \<open>pytime_round_half_even\<close>: round half away from zero, and on a tie round
  half of the argument and double it. The subtraction \<open>x - rounded\<close> and the halving are
  exact in binary floating point for the magnitudes involved.
\<close>

definition pytime_round_half_even :: "rat \<Rightarrow> rat" where
  "pytime_round_half_even x =
     (let rounded = of_int (c_round x) in
      if \<bar>x - rounded\<bar> = 1/2 then 2 * of_int (c_round (x / 2)) else rounded)"

lemmas float_ops_defs [model_defs] =
  float_lit_def int_to_float_def fadd_def fsub_def fmul_def fdiv_def int_truediv_def

lemmas rounding_defs [model_defs] =
  c_trunc_def c_round_def c_modf_def round_half_even_def pytime_round_half_even_def

section \<open>Properties of the roundings\<close>

lemma c_modf_sum: "fst (c_modf x) + snd (c_modf x) = x"
  by (simp add: c_modf_def)

lemma c_modf_frac_bound: "\<bar>fst (c_modf x)\<bar> < 1"
proof (cases "0 \<le> x")
  case True
  then show ?thesis
    by (simp add: c_modf_def c_trunc_def abs_less_iff) linarith
next
  case False
  then show ?thesis
    by (simp add: c_modf_def c_trunc_def abs_less_iff) linarith
qed

lemma c_modf_frac_sign:
  "(0 \<le> x \<longrightarrow> 0 \<le> fst (c_modf x)) \<and> (x \<le> 0 \<longrightarrow> fst (c_modf x) \<le> 0)"
proof -
  have "of_int \<lfloor>x\<rfloor> \<le> x" "of_int \<lfloor>- x\<rfloor> \<le> - x"
    by simp_all
  then show ?thesis
    unfolding c_modf_def c_trunc_def by (cases "0 \<le> x") (simp_all, linarith)
qed

text \<open>The formatting rounding picks one of the two integers around its argument.\<close>

lemma round_half_even_cases:
  "round_half_even x = \<lfloor>x\<rfloor> \<or> round_half_even x = \<lfloor>x\<rfloor> + 1"
  by (auto simp: round_half_even_def Let_def)

text \<open>C10: The round-half-to-even of float formatting lands within one half of its argument.\<close>

theorem round_half_even_dist: "\<bar>x - of_int (round_half_even x)\<bar> \<le> 1/2"
proof -
  have "of_int \<lfloor>x\<rfloor> \<le> x" "x < of_int \<lfloor>x\<rfloor> + 1"
    by (simp_all add: floor_less_plus_one)
  then show ?thesis
    by (auto simp: round_half_even_def Let_def abs_le_iff)
qed

text \<open>C11: On a tie (the argument exactly half-way between two integers) the rounding picks
  the even integer.\<close>

theorem round_half_even_tie:
  "\<bar>x - of_int (round_half_even x)\<bar> = 1/2 \<Longrightarrow> even (round_half_even x)"
proof -
  assume tie: "\<bar>x - of_int (round_half_even x)\<bar> = 1/2"
  have lo: "of_int \<lfloor>x\<rfloor> \<le> x" and hi: "x < of_int \<lfloor>x\<rfloor> + 1"
    by (simp_all add: floor_less_plus_one)
  have "x - of_int \<lfloor>x\<rfloor> = 1/2"
  proof (rule ccontr)
    assume ne: "x - of_int \<lfloor>x\<rfloor> \<noteq> 1/2"
    show False
    proof (cases "x - of_int \<lfloor>x\<rfloor> < 1/2")
      case True
      then show False using tie lo by (simp add: round_half_even_def Let_def)
    next
      case False
      with ne have "1/2 < x - of_int \<lfloor>x\<rfloor>" by simp
      then show False using tie hi by (simp add: round_half_even_def Let_def)
    qed
  qed
  then show ?thesis
    by (simp add: round_half_even_def Let_def)
qed

theorem round_half_even_tie_witness:
  "\<bar>(5/2::rat) - of_int (round_half_even (5/2))\<bar> = 1/2 \<and> even (round_half_even (5/2))"
proof -
  have h: "\<bar>(5/2::rat) - of_int (round_half_even (5/2))\<bar> = 1/2"
    by (simp add: round_half_even_def)
  show ?thesis using h round_half_even_tie [OF h] by simp
qed

text \<open>Both roundings commute with negation; on non-negative arguments CPython's two-step
  routine is checked case by case against the fractional part.\<close>

lemma c_trunc_of_int: "c_trunc (of_int n) = n"
  by (simp add: c_trunc_def)

lemma c_trunc_int_div:
  assumes "0 < b"
  shows "c_trunc (of_int a / of_int b) = a sdiv b"
proof (cases "0 \<le> a")
  case True
  then show ?thesis using assms
    by (simp add: c_trunc_def floor_divide_of_int_eq)
next
  case False
  have "- (of_int a / of_int b) = (of_int (- a) / of_int b :: rat)" by simp
  then have "\<lfloor>- (of_int a / of_int b :: rat)\<rfloor> = (- a) div b"
    by (simp only: floor_divide_of_int_eq)
  moreover have "\<not> 0 \<le> (of_int a / of_int b :: rat)"
    using False assms by (simp add: not_le divide_neg_pos)
  ultimately show ?thesis using False assms
    by (simp add: c_trunc_def signed_divide_int_def sgn_if)
qed

lemma pytime_round_half_even_of_int: "pytime_round_half_even (of_int n) = of_int n"
proof -
  have "c_round (of_int n) = n"
    by (simp add: c_round_def)
  then show ?thesis by (simp add: pytime_round_half_even_def)
qed

lemma floor_quarter: "y = of_int k + 1/4 \<Longrightarrow> \<lfloor>y + 1/2 :: rat\<rfloor> = k"
  by (simp add: floor_eq_iff)

lemma floor_three_quarters: "y = of_int k + 3/4 \<Longrightarrow> \<lfloor>y + 1/2 :: rat\<rfloor> = k + 1"
  by (simp add: floor_eq_iff)

lemma c_round_uminus: "c_round (- x) = - c_round x"
  by (cases "x = 0") (auto simp: c_round_def)

lemma floor_split:
  fixes x :: rat
  defines "f \<equiv> \<lfloor>x\<rfloor>"
  shows "of_int f \<le> x \<and> x < of_int f + 1"
  by (simp add: f_def floor_less_plus_one)

lemma round_half_even_uminus: "round_half_even (- x) = - round_half_even x"
proof (cases "x = of_int \<lfloor>x\<rfloor>")
  case True
  then obtain n where "x = of_int n" by blast
  then show ?thesis by (simp add: round_half_even_def)
next
  case False
  define f where "f = \<lfloor>x\<rfloor>"
  have b: "of_int f \<le> x" "x < of_int f + 1" "x \<noteq> of_int f"
    using floor_split [of x] False by (simp_all add: f_def)
  have fm: "\<lfloor>- x\<rfloor> = - f - 1" using b by (simp add: floor_eq_iff)
  show ?thesis using b fm by (auto simp: round_half_even_def Let_def f_def [symmetric])
qed

lemma pytime_round_half_even_uminus:
  "pytime_round_half_even (- x) = - pytime_round_half_even x"
proof -
  have a: "\<bar>- x - of_int (- c_round x)\<bar> = \<bar>x - of_int (c_round x)\<bar>" by simp
  have h: "c_round (- x / 2) = - c_round (x / 2)" using c_round_uminus [of "x / 2"] by simp
  show ?thesis
    unfolding pytime_round_half_even_def Let_def c_round_uminus [of x] a h by simp
qed

lemma pytime_round_half_even_nonneg:
  assumes x: "0 \<le> x"
  shows "pytime_round_half_even x = of_int (round_half_even x)"
proof -
  define f where "f = \<lfloor>x\<rfloor>"
  define r where "r = x - of_int f"
  have b: "0 \<le> r" "r < 1" using floor_split [of x] by (simp_all add: r_def f_def)
  have xf: "x = of_int f + r" by (simp add: r_def)
  have f0: "0 \<le> f" using x by (simp add: f_def)
  have fl: "\<lfloor>x\<rfloor> = f" by (simp add: f_def)
  have xr: "x - of_int f = r" by (simp add: r_def)
  have rhe: "round_half_even x = (if r < 1/2 then f else if 1/2 < r then f + 1 else if even f then f else f + 1)"
    unfolding round_half_even_def Let_def fl xr ..
  consider "r < 1/2" | "1/2 < r" | "r = 1/2" by linarith
  then show ?thesis
  proof cases
    case 1
    have "c_round x = f" using x b 1 by (simp add: c_round_def xf floor_eq_iff)
    moreover have "\<bar>x - of_int f\<bar> \<noteq> 1/2" using 1 b xr by simp
    ultimately show ?thesis using 1 by (simp add: pytime_round_half_even_def rhe)
  next
    case 2
    have "c_round x = f + 1" using x b 2 by (simp add: c_round_def xf floor_eq_iff)
    moreover have "\<bar>x - of_int (f + 1)\<bar> \<noteq> 1/2" using 2 b by (simp add: xf)
    ultimately show ?thesis using 2 by (simp add: pytime_round_half_even_def rhe)
  next
    case 3
    have cr: "c_round x = f + 1" using x b 3 by (simp add: c_round_def xf floor_eq_iff)
    have half: "2 * c_round (x / 2) = (if even f then f else f + 1)"
    proof (cases "even f")
      case True
      then obtain k where k: "f = 2 * k" by blast
      have e: "x / 2 = of_int k + 1/4" using 3 by (simp add: xf k field_simps)
      have "c_round (x / 2) = \<lfloor>x / 2 + 1/2\<rfloor>" using x by (simp add: c_round_def)
      also have "\<dots> = k" using e by (rule floor_quarter)
      finally have "c_round (x / 2) = k" .
      then show ?thesis using k by simp
    next
      case False
      then obtain k where k: "f = 2 * k + 1" using oddE by blast
      have e: "x / 2 = of_int k + 3/4" using 3 by (simp add: xf k field_simps)
      have "c_round (x / 2) = \<lfloor>x / 2 + 1/2\<rfloor>" using x by (simp add: c_round_def)
      also have "\<dots> = k + 1" using e by (rule floor_three_quarters)
      finally have "c_round (x / 2) = k + 1" .
      then show ?thesis using k by simp
    qed
    have "\<bar>x - of_int (f + 1)\<bar> = 1/2" using 3 by (simp add: xf)
    then have "pytime_round_half_even x = 2 * of_int (c_round (x / 2))"
      by (simp add: pytime_round_half_even_def cr)
    also have "\<dots> = of_int (if even f then f else f + 1)"
      using arg_cong [OF half, of "of_int :: int \<Rightarrow> rat"] by simp
    finally show ?thesis using 3 by (simp add: rhe)
  qed
qed

text \<open>C15: CPython's \<open>pytime_round_half_even\<close> (round half away from zero, and on a tie
  twice the rounding of half the argument) computes exactly the round-half-to-even integer,
  for every argument.\<close>

theorem pytime_round_half_even_eq: "pytime_round_half_even x = of_int (round_half_even x)"
proof (cases "0 \<le> x")
  case True
  then show ?thesis by (rule pytime_round_half_even_nonneg)
next
  case False
  then have "pytime_round_half_even (- x) = of_int (round_half_even (- x))"
    by (intro pytime_round_half_even_nonneg) simp
  then show ?thesis
    using pytime_round_half_even_uminus [of x] round_half_even_uminus [of x] by simp
qed
end
