(* ===== verification/Calendar.thy ===== *)
theory Calendar
  imports PyFloat
begin

text \<open>
  The part of CPython's \<open>datetime\<close> module (the C module Modules/\_datetimemodule.c) that
  the script runs: the construction of \<open>REFERENCE_DATE\<close> with its argument checks, the
  difference of two aware datetimes (\<open>CURRENT_TIME - REFERENCE_DATE\<close>, a normalised
  \<open>timedelta\<close>), \<open>timedelta.total_seconds\<close>, and \<open>datetime.timestamp\<close>. Every
  datetime of the script carries \<open>timezone.utc\<close>; the time zone field is therefore left
  out of the record and differences are taken without UTC offsets, as CPython does for two
  operands with the same \<open>tzinfo\<close> object.
\<close>

section \<open>Calendar arithmetic\<close>

definition MINYEAR :: int where "MINYEAR = 1"
definition MAXYEAR :: int where "MAXYEAR = 9999"
definition MAX_DELTA_DAYS :: int where "MAX_DELTA_DAYS = 999999999"

text \<open>The C tables, with the unused slot 0 of their 1-based indexing.\<close>

definition days_in_month_tbl :: "int list" where
  "days_in_month_tbl = [0, 31, 28, 31, 30, 31, 30, 31, 31, 30, 31, 30, 31]"

definition days_before_month_tbl :: "int list" where
  "days_before_month_tbl = [0, 0, 31, 59, 90, 120, 151, 181, 212, 243, 273, 304, 334]"

text \<open>\<open>is_leap\<close> casts the year to \<open>unsigned int\<close> before taking remainders.\<close>

definition is_leap :: "int \<Rightarrow> bool" where
  "is_leap year =
     (let ayear = (word_of_int year :: 32 word)
      in ayear mod 4 = 0 \<and> (ayear mod 100 \<noteq> 0 \<or> ayear mod 400 = 0))"

text \<open>The month functions assert \<open>1 \<le> month \<le> 12\<close>; they are called only so.\<close>

definition days_in_month :: "int \<Rightarrow> int \<Rightarrow> int" where
  "days_in_month year month =
     (if month = 2 \<and> is_leap year then 29 else days_in_month_tbl ! nat month)"

definition days_before_month :: "int \<Rightarrow> int \<Rightarrow> int" where
  "days_before_month year month =
     days_before_month_tbl ! nat month + (if month > 2 \<and> is_leap year then 1 else 0)"

text \<open>\<open>days_before_year\<close> uses C's truncating division (it asserts \<open>year \<ge> 1\<close>).\<close>

definition days_before_year :: "int \<Rightarrow> int" where
  "days_before_year year =
     (let y = year - 1 in y * 365 + y sdiv 4 - y sdiv 100 + y sdiv 400)"

definition ymd_to_ord :: "int \<Rightarrow> int \<Rightarrow> int \<Rightarrow> int" where
  "ymd_to_ord year month day =
     days_before_year year + days_before_month year month + day"

section \<open>Datetimes and their construction\<close>

record datetime =
  dt_year :: int
  dt_month :: int
  dt_day :: int
  dt_hour :: int
  dt_minute :: int
  dt_second :: int
  dt_microsecond :: int

text \<open>
  The constructor parses each argument as a C \<open>int\<close> (format code \<open>i\<close>), then runs
  \<open>check_date_args\<close> and \<open>check_time_args\<close>.
\<close>

definition c_int_arg :: "int \<Rightarrow> int pyresult" where
  "c_int_arg x =
     (if x > 2 ^ 31 - 1 then Inl (OverflowError ''signed integer is greater than maximum'')
      else if x < - (2 ^ 31) then Inl (OverflowError ''signed integer is less than minimum'')
      else Inr x)"

definition check_date_args :: "int \<Rightarrow> int \<Rightarrow> int \<Rightarrow> unit pyresult" where
  "check_date_args year month day =
     (if year < MINYEAR \<or> year > MAXYEAR then Inl (ValueError ''year is out of range'')
      else if month < 1 \<or> month > 12 then Inl (ValueError ''month must be in 1..12'')
      else if day < 1 \<or> day > days_in_month year month
        then Inl (ValueError ''day is out of range for month'')
      else Inr ())"

definition check_time_args :: "int \<Rightarrow> int \<Rightarrow> int \<Rightarrow> int \<Rightarrow> unit pyresult" where
  "check_time_args h m s us =
     (if h < 0 \<or> h > 23 then Inl (ValueError ''hour must be in 0..23'')
      else if m < 0 \<or> m > 59 then Inl (ValueError ''minute must be in 0..59'')
      else if s < 0 \<or> s > 59 then Inl (ValueError ''second must be in 0..59'')
      else if us < 0 \<or> us > 999999 then Inl (ValueError ''microsecond must be in 0..999999'')
      else Inr ())"

definition datetime_new ::
  "int \<Rightarrow> int \<Rightarrow> int \<Rightarrow> int \<Rightarrow> int \<Rightarrow> int \<Rightarrow> int \<Rightarrow> datetime pyresult" where
  "datetime_new y mo d h mi s us =
     rbind (c_int_arg y) (\<lambda>y. rbind (c_int_arg mo) (\<lambda>mo. rbind (c_int_arg d) (\<lambda>d.
     rbind (c_int_arg h) (\<lambda>h. rbind (c_int_arg mi) (\<lambda>mi. rbind (c_int_arg s) (\<lambda>s.
     rbind (c_int_arg us) (\<lambda>us.
     rbind (check_date_args y mo d) (\<lambda>_. rbind (check_time_args h mi s us) (\<lambda>_.
     Inr \<lparr>dt_year = y, dt_month = mo, dt_day = d, dt_hour = h, dt_minute = mi,
          dt_second = s, dt_microsecond = us\<rparr>)))))))))"

text \<open>The invariant of every datetime object: the fields the checks admit.\<close>

definition valid_datetime :: "datetime \<Rightarrow> bool" where
  "valid_datetime dt \<longleftrightarrow>
     MINYEAR \<le> dt_year dt \<and> dt_year dt \<le> MAXYEAR \<and>
     1 \<le> dt_month dt \<and> dt_month dt \<le> 12 \<and>
     1 \<le> dt_day dt \<and> dt_day dt \<le> days_in_month (dt_year dt) (dt_month dt) \<and>
     0 \<le> dt_hour dt \<and> dt_hour dt \<le> 23 \<and> 0 \<le> dt_minute dt \<and> dt_minute dt \<le> 59 \<and>
     0 \<le> dt_second dt \<and> dt_second dt \<le> 59 \<and>
     0 \<le> dt_microsecond dt \<and> dt_microsecond dt \<le> 999999"

section \<open>Timedeltas\<close>

record timedelta =
  td_days :: int
  td_seconds :: int
  td_microseconds :: int

text \<open>C's \<open>divmod\<close> helper: truncating division, corrected to floor division.\<close>

definition c_divmod :: "int \<Rightarrow> int \<Rightarrow> int \<times> int" where
  "c_divmod x y =
     (let quo = x sdiv y; r = x - quo * y in if r < 0 then (quo - 1, r + y) else (quo, r))"

definition normalize_pair :: "int \<Rightarrow> int \<Rightarrow> int \<Rightarrow> int \<times> int" where
  "normalize_pair hi lo factor =
     (if lo < 0 \<or> lo \<ge> factor
      then (let (num_hi, lo') = c_divmod lo factor in (hi + num_hi, lo'))
      else (hi, lo))"

definition normalize_d_s_us :: "int \<Rightarrow> int \<Rightarrow> int \<Rightarrow> int \<times> int \<times> int" where
  "normalize_d_s_us d s us =
     (let (s, us) = (if us < 0 \<or> us \<ge> 1000000 then normalize_pair s us 1000000 else (s, us));
          (d, s) = (if s < 0 \<or> s \<ge> 24 * 3600 then normalize_pair d s (24 * 3600) else (d, s))
      in (d, s, us))"

definition check_delta_day_range :: "int \<Rightarrow> unit pyresult" where
  "check_delta_day_range days =
     (if - MAX_DELTA_DAYS \<le> days \<and> days \<le> MAX_DELTA_DAYS then Inr ()
      else Inl (OverflowError ''days must have magnitude <= 999999999''))"

text \<open>\<open>new_delta(d, s, us, normalize=1)\<close>.\<close>

definition new_delta :: "int \<Rightarrow> int \<Rightarrow> int \<Rightarrow> timedelta pyresult" where
  "new_delta d s us =
     (let (d, s, us) = normalize_d_s_us d s us
      in rbind (check_delta_day_range d)
           (\<lambda>_. Inr \<lparr>td_days = d, td_seconds = s, td_microseconds = us\<rparr>))"

text \<open>\<open>datetime_subtract\<close> for two datetimes with the same \<open>tzinfo\<close>.\<close>

definition datetime_sub :: "datetime \<Rightarrow> datetime \<Rightarrow> timedelta pyresult" where
  "datetime_sub left right =
     (let delta_d = ymd_to_ord (dt_year left) (dt_month left) (dt_day left) -
                    ymd_to_ord (dt_year right) (dt_month right) (dt_day right);
          delta_s = (dt_hour left - dt_hour right) * 3600 +
                    (dt_minute left - dt_minute right) * 60 +
                    (dt_second left - dt_second right);
          delta_us = dt_microsecond left - dt_microsecond right
      in new_delta delta_d delta_s delta_us)"

definition delta_to_microseconds :: "timedelta \<Rightarrow> int" where
  "delta_to_microseconds td =
     (td_days td * 86400 + td_seconds td) * 1000000 + td_microseconds td"

text \<open>\<open>timedelta.total_seconds\<close>: the int of microseconds, true-divided by \<open>10^6\<close>.\<close>

definition total_seconds :: "rounding \<Rightarrow> timedelta \<Rightarrow> pyfloat pyresult" where
  "total_seconds rnd td = int_truediv rnd (delta_to_microseconds td) 1000000"

text \<open>\<open>datetime.timestamp\<close> of an aware datetime: \<open>(self - EPOCH).total_seconds()\<close>.\<close>

definition EPOCH :: datetime where
  "EPOCH = \<lparr>dt_year = 1970, dt_month = 1, dt_day = 1, dt_hour = 0, dt_minute = 0,
            dt_second = 0, dt_microsecond = 0\<rparr>"

definition timestamp :: "rounding \<Rightarrow> datetime \<Rightarrow> pyfloat pyresult" where
  "timestamp rnd dt = rbind (datetime_sub dt EPOCH) (total_seconds rnd)"


section \<open>The Gregorian calendar and absolute time\<close>

text \<open>
  The abstract reading of the C functions above: the Gregorian leap rule stated with
  divisibility, the length of a year, the dates a datetime can hold, the day after a date,
  and the instant a datetime denotes, counted in microseconds from 0001-01-01 00:00.
\<close>

definition greg_leap :: "int \<Rightarrow> bool" where
  "greg_leap y \<longleftrightarrow> 4 dvd y \<and> (\<not> 100 dvd y \<or> 400 dvd y)"

definition year_days :: "int \<Rightarrow> int" where
  "year_days y = (if greg_leap y then 366 else 365)"

definition valid_date :: "int \<Rightarrow> int \<Rightarrow> int \<Rightarrow> bool" where
  "valid_date y m d \<longleftrightarrow>
     MINYEAR \<le> y \<and> y \<le> MAXYEAR \<and> 1 \<le> m \<and> m \<le> 12 \<and> 1 \<le> d \<and> d \<le> days_in_month y m"

definition next_date :: "int \<times> int \<times> int \<Rightarrow> int \<times> int \<times> int" where
  "next_date ymd = (case ymd of (y, m, d) \<Rightarrow>
     if d < days_in_month y m then (y, m, d + 1)
     else if m < 12 then (y, m + 1, 1) else (y + 1, 1, 1))"

definition dt_microseconds :: "datetime \<Rightarrow> int" where
  "dt_microseconds dt =
     ((ymd_to_ord (dt_year dt) (dt_month dt) (dt_day dt) * 86400 +
       dt_hour dt * 3600 + dt_minute dt * 60 + dt_second dt) * 1000000 + dt_microsecond dt)"

definition timedelta_inv :: "timedelta \<Rightarrow> bool" where
  "timedelta_inv td \<longleftrightarrow>
     \<bar>td_days td\<bar> \<le> MAX_DELTA_DAYS \<and> 0 \<le> td_seconds td \<and> td_seconds td < 86400 \<and>
     0 \<le> td_microseconds td \<and> td_microseconds td < 1000000"

section \<open>Lemma bundles\<close>

lemmas calendar_defs [model_defs] =
  MINYEAR_def MAXYEAR_def MAX_DELTA_DAYS_def days_in_month_tbl_def days_before_month_tbl_def
  is_leap_def days_in_month_def days_before_month_def days_before_year_def ymd_to_ord_def

lemmas datetime_defs [model_defs] =
  c_int_arg_def check_date_args_def check_time_args_def datetime_new_def valid_datetime_def

lemmas delta_defs [model_defs] =
  c_divmod_def normalize_pair_def normalize_d_s_us_def check_delta_day_range_def
  new_delta_def datetime_sub_def delta_to_microseconds_def total_seconds_def EPOCH_def
  timestamp_def

lemmas spec_defs [model_defs] =
  greg_leap_def year_days_def valid_date_def next_date_def dt_microseconds_def timedelta_inv_def

section \<open>Calendar lemmas\<close>

lemma word32_mod_eq_0_iff:
  assumes "0 \<le> y" "y < 2 ^ 32" "0 < n" "n < 2 ^ 32"
  shows "((word_of_int y :: 32 word) mod word_of_int n = 0) \<longleftrightarrow> n dvd y"
proof -
  have "uint ((word_of_int y :: 32 word) mod word_of_int n) = y mod n"
    using assms by (simp add: uint_mod uint_word_of_int_eq take_bit_int_eq_self)
  then show ?thesis
    by (metis dvd_eq_mod_eq_0 uint_0_iff)
qed

lemma is_leap_iff_greg_leap: "0 \<le> y \<Longrightarrow> y < 2 ^ 32 \<Longrightarrow> is_leap y \<longleftrightarrow> greg_leap y"
  using word32_mod_eq_0_iff [of y 4] word32_mod_eq_0_iff [of y 100]
    word32_mod_eq_0_iff [of y 400]
  by (simp add: is_leap_def greg_leap_def Let_def)

lemma dvd_400_100: "400 dvd (y::int) \<Longrightarrow> 100 dvd y"
  by (erule dvd_trans [rotated]) simp

lemma dvd_100_4: "100 dvd (y::int) \<Longrightarrow> 4 dvd y"
  by (erule dvd_trans [rotated]) simp

text \<open>The leap days counted up to the end of year \<open>y\<close> exceed those up to the end of
  year \<open>y - 1\<close> by one exactly when \<open>y\<close> is a leap year, for every integer \<open>y\<close>.\<close>

lemma leap_count_one:
  "(y::int) div 4 - y div 100 + y div 400 - ((y - 1) div 4 - (y - 1) div 100 + (y - 1) div 400)
     = (if greg_leap y then 1 else 0)"
proof -
  have s: "y div b = (y - 1) div b + (if b dvd y then 1 else 0)" if "0 < (b::int)" for b
    using div_succ_eq [OF that, of "y - 1"] by simp
  note h = s [of 4] s [of 100] s [of 400]
  show ?thesis
    unfolding greg_leap_def using dvd_400_100 [of y] dvd_100_4 [of y]
    apply (simp only: h zero_less_numeral simp_thms)
    apply (cases "4 dvd y"; cases "100 dvd y"; cases "400 dvd y")
     apply (simp_all only: if_True if_False simp_thms)
     apply simp_all
    done
qed

text \<open>Bounds on the number of leap days in \<open>k \<ge> 0\<close> consecutive years, for any
  starting year: at least none, and at most one per four years plus one.\<close>

lemma div_count_mono:
  assumes b: "0 < (b::int)" and c: "0 < c" and bc: "b dvd c"
  shows "(a + int k) div c - a div c \<le> (a + int k) div b - a div b"
proof (induction k)
  case 0
  then show ?case by simp
next
  case (Suc k)
  have e: "a + int (Suc k) = (a + int k) + 1" by simp
  have sb: "(a + int (Suc k)) div b = (a + int k) div b + (if b dvd (a + int k + 1) then 1 else 0)"
    unfolding e by (rule div_succ_eq [OF b])
  have sc: "(a + int (Suc k)) div c = (a + int k) div c + (if c dvd (a + int k + 1) then 1 else 0)"
    unfolding e by (rule div_succ_eq [OF c])
  have "c dvd (a + int k + 1) \<Longrightarrow> b dvd (a + int k + 1)"
    using bc by (rule dvd_trans)
  then show ?case
    unfolding sb sc using Suc.IH by (auto split: if_split)
qed

lemma div4_count_bound: "(a + k) div 4 - a div 4 \<le> (k::int) div 4 + 1"
proof -
  have "(a + k) div 4 = a div 4 + k div 4 + (a mod 4 + k mod 4) div 4"
    by (rule div_add1_eq)
  moreover have "(a mod 4 + k mod 4) div 4 \<le> 7 div 4"
    by (rule zdiv_mono1) simp_all
  ultimately show ?thesis by simp
qed

lemma leap_count_bounds:
  assumes "0 \<le> (k::int)"
  shows "0 \<le> ((a + k) div 4 - (a + k) div 100 + (a + k) div 400) - (a div 4 - a div 100 + a div 400) \<and>
         ((a + k) div 4 - (a + k) div 100 + (a + k) div 400) - (a div 4 - a div 100 + a div 400)
           \<le> k div 4 + 1"
proof -
  define n where "n = nat k"
  have k: "k = int n" using assms by (simp add: n_def)
  have h1: "(a + k) div 100 - a div 100 \<le> (a + k) div 4 - a div 4"
    using div_count_mono [of 4 100 a n] unfolding k by simp
  have h2: "(a + k) div 400 - a div 400 \<le> (a + k) div 100 - a div 100"
    using div_count_mono [of 100 400 a n] unfolding k by simp
  have h3: "a div 400 \<le> (a + k) div 400"
    using assms by (simp add: zdiv_mono1)
  have h4: "(a + k) div 4 - a div 4 \<le> k div 4 + 1"
    by (rule div4_count_bound)
  define x4 x100 x400 where "x4 = (a + k) div 4" and "x100 = (a + k) div 100"
    and "x400 = (a + k) div 400"
  define y4 y100 y400 where "y4 = a div 4" and "y100 = a div 100" and "y400 = a div 400"
  define k4 where "k4 = k div 4"
  show ?thesis
    using h1 h2 h3 h4 unfolding x4_def [symmetric] x100_def [symmetric] x400_def [symmetric]
      y4_def [symmetric] y100_def [symmetric] y400_def [symmetric] k4_def [symmetric]
    by linarith
qed

lemma days_before_year_succ:
  assumes "1 \<le> y"
  shows "days_before_year (y + 1) = days_before_year y + year_days y"
proof -
  have e: "days_before_year (y + 1) = y * 365 + y div 4 - y div 100 + y div 400"
    using assms by (simp add: days_before_year_def)
  have f: "days_before_year y =
      (y - 1) * 365 + (y - 1) div 4 - (y - 1) div 100 + (y - 1) div 400"
    using assms by (simp add: days_before_year_def Let_def)
  show ?thesis
    using leap_count_one [of y] unfolding e f year_days_def by (simp split: if_splits)
qed

lemma days_before_year_mono:
  assumes "1 \<le> y" "y \<le> y'"
  shows "days_before_year y \<le> days_before_year y'"
  using assms(2)
proof (induction y' rule: int_ge_induct)
  case base
  then show ?case by simp
next
  case (step i)
  have "days_before_year (i + 1) = days_before_year i + year_days i"
    using assms step.hyps by (intro days_before_year_succ) simp
  moreover have "0 \<le> year_days i" by (simp add: year_days_def)
  ultimately show ?case using step.IH by linarith
qed

lemma month_cases:
  "1 \<le> (m::int) \<Longrightarrow> m \<le> 12 \<Longrightarrow>
   m = 1 \<or> m = 2 \<or> m = 3 \<or> m = 4 \<or> m = 5 \<or> m = 6 \<or> m = 7 \<or> m = 8 \<or> m = 9 \<or>
   m = 10 \<or> m = 11 \<or> m = 12"
  by arith

lemma days_before_month_step:
  assumes "1 \<le> m" "m \<le> 12"
  shows "days_before_month y m + days_in_month y m =
    (if m = 12 then 365 + (if is_leap y then 1 else 0) else days_before_month y (m + 1))"
  using month_cases [OF assms] by (elim disjE) (simp_all add: days_before_month_def
      days_in_month_def days_before_month_tbl_def days_in_month_tbl_def)

lemma days_month_bounds:
  assumes "1 \<le> m" "m \<le> 12"
  shows "0 \<le> days_before_month y m \<and> 28 \<le> days_in_month y m \<and> days_in_month y m \<le> 31"
  using month_cases [OF assms] by (elim disjE) (simp_all add: days_before_month_def
      days_in_month_def days_before_month_tbl_def days_in_month_tbl_def)

lemma days_before_month_mono:
  assumes "1 \<le> m" "m < m'" "m' \<le> 12"
  shows "days_before_month y m + days_in_month y m \<le> days_before_month y m'"
proof -
  have "days_before_month y m + days_in_month y m \<le> days_before_month y (m + 1 + int k)"
    if "m + 1 + int k \<le> 12" for k
    using that
  proof (induction k)
    case 0
    then show ?case using days_before_month_step [of m y] assms by simp
  next
    case (Suc k)
    then have "days_before_month y m + days_in_month y m \<le> days_before_month y (m + 1 + int k)"
      by simp
    moreover have "days_before_month y (m + 1 + int k) + days_in_month y (m + 1 + int k)
        = days_before_month y (m + 1 + int (Suc k))"
      using days_before_month_step [of "m + 1 + int k" y] Suc.prems assms by simp
    moreover have "0 \<le> days_in_month y (m + 1 + int k)"
      using days_month_bounds [of "m + 1 + int k" y] Suc.prems assms by simp
    ultimately show ?case by linarith
  qed
  from this [of "nat (m' - m - 1)"] show ?thesis using assms by simp
qed

lemma days_before_month_end:
  assumes "1 \<le> m" "m \<le> 12" "0 \<le> y" "y < 2 ^ 32"
  shows "days_before_month y m + days_in_month y m \<le> year_days y"
proof -
  have "days_before_month y m + days_in_month y m \<le> days_before_month y 12 + days_in_month y 12"
    using assms days_before_month_mono [of m 12 y] days_month_bounds [of 12 y] by (cases "m = 12") simp_all
  also have "\<dots> = year_days y"
    using days_before_month_step [of 12 y] assms by (simp add: is_leap_iff_greg_leap year_days_def)
  finally show ?thesis .
qed

lemma ymd_to_ord_bounds:
  assumes "valid_date y m d"
  shows "days_before_year y < ymd_to_ord y m d \<and> ymd_to_ord y m d \<le> days_before_year (y + 1)"
proof -
  have v: "1 \<le> y" "y < 2 ^ 32" "1 \<le> m" "m \<le> 12" "1 \<le> d" "d \<le> days_in_month y m"
    using assms by (auto simp: valid_date_def MINYEAR_def MAXYEAR_def)
  then show ?thesis
    using days_before_month_end [of m y] days_month_bounds [of m y] days_before_year_succ [of y]
    by (simp add: ymd_to_ord_def)
qed

lemma ymd_to_ord_less:
  assumes v: "valid_date y m d" "valid_date y' m' d'"
    and lt: "y < y' \<or> (y = y' \<and> m < m') \<or> (y = y' \<and> m = m' \<and> d < d')"
  shows "ymd_to_ord y m d < ymd_to_ord y' m' d'"
  using lt
proof (elim disjE conjE)
  assume "y < y'"
  then have "days_before_year (y + 1) \<le> days_before_year y'"
    using v by (intro days_before_year_mono) (simp_all add: valid_date_def MINYEAR_def)
  then show ?thesis using ymd_to_ord_bounds [OF v(1)] ymd_to_ord_bounds [OF v(2)] by simp
next
  assume "y = y'" "m < m'"
  then show ?thesis
    using v days_before_month_mono [of m m' y]
    by (simp add: valid_date_def ymd_to_ord_def)
next
  assume "y = y'" "m = m'" "d < d'"
  then show ?thesis by (simp add: ymd_to_ord_def)
qed

text \<open>C9: \<open>ymd_to_ord\<close> is injective on the dates a datetime can hold.\<close>

theorem ymd_to_ord_inj:
  assumes "valid_date y m d" "valid_date y' m' d'"
    and "ymd_to_ord y m d = ymd_to_ord y' m' d'"
  shows "y = y' \<and> m = m' \<and> d = d'"
  using ymd_to_ord_less [OF assms(1,2)] ymd_to_ord_less [OF assms(2,1)] assms(3)
  by (metis less_irrefl linorder_neqE)

lemma c_divmod_eq: "0 < y \<Longrightarrow> c_divmod x y = (x div y, x mod y)"
proof -
  assume y: "0 < y"
  have r: "x - x sdiv y * y = x smod y" by (rule minus_sdiv_mult_eq_smod)
  have q: "x sdiv y - (if x smod y < 0 then 1 else 0) = x div y" by (rule sdiv_smod_floor [OF y])
  have e: "x div y * y + x mod y = x" by (rule div_mult_mod_eq)
  show ?thesis
  proof (cases "x smod y < 0")
    case True
    then have d: "x div y = x sdiv y - 1" using q by simp
    have "x sdiv y * y - y + x mod y = x" using e unfolding d by (simp add: left_diff_distrib)
    then have "x mod y = x smod y + y" using r by linarith
    moreover have "x < x sdiv y * y" using True r by linarith
    ultimately show ?thesis using True d by (simp add: c_divmod_def Let_def r)
  next
    case False
    then have d: "x div y = x sdiv y" using q by simp
    then have "x mod y = x smod y" using e r unfolding d by linarith
    moreover have "\<not> x < x sdiv y * y" using False r by linarith
    ultimately show ?thesis using False d by (simp add: c_divmod_def Let_def r)
  qed
qed

section \<open>Datetime arithmetic\<close>

lemma normalize_pair_eq:
  "0 < f \<Longrightarrow> normalize_pair hi lo f = (hi + lo div f, lo mod f)"
  by (auto simp: normalize_pair_def c_divmod_eq div_pos_pos_trivial mod_pos_pos_trivial)

lemma normalize_guarded_eq:
  "0 < f \<Longrightarrow>
   (if lo < 0 \<or> lo \<ge> f then normalize_pair hi lo f else (hi, lo)) = (hi + lo div f, lo mod f)"
  by (auto simp: normalize_pair_eq div_pos_pos_trivial mod_pos_pos_trivial)

lemma normalize_d_s_us_eq:
  "normalize_d_s_us d s us =
     (d + (s + us div 1000000) div 86400, (s + us div 1000000) mod 86400, us mod 1000000)"
  using normalize_guarded_eq [of 1000000 us s] normalize_guarded_eq [of "24 * 3600" _ d]
  by (simp add: normalize_d_s_us_def)

lemma new_delta_eq:
  "new_delta d s us =
     (let d' = d + (s + us div 1000000) div 86400 in
      if \<bar>d'\<bar> \<le> MAX_DELTA_DAYS
      then Inr \<lparr>td_days = d', td_seconds = (s + us div 1000000) mod 86400,
                td_microseconds = us mod 1000000\<rparr>
      else Inl (OverflowError ''days must have magnitude <= 999999999''))"
  by (simp add: new_delta_def normalize_d_s_us_eq check_delta_day_range_def Let_def abs_le_iff)

theorem new_delta_normalizes:
  assumes "new_delta d s us = Inr td"
  shows "timedelta_inv td \<and> delta_to_microseconds td = (d * 86400 + s) * 1000000 + us"
proof -
  define s' where "s' = s + us div 1000000"
  have td: "td = \<lparr>td_days = d + s' div 86400, td_seconds = s' mod 86400,
                  td_microseconds = us mod 1000000\<rparr>"
    and rng: "\<bar>d + s' div 86400\<bar> \<le> MAX_DELTA_DAYS"
    using assms by (simp_all add: new_delta_eq s'_def Let_def split: if_splits)
  have "((d + s' div 86400) * 86400 + s' mod 86400) * 1000000 + us mod 1000000
      = (d * 86400 + s') * 1000000 + us mod 1000000"
    by (simp add: algebra_simps)
  also have "\<dots> = (d * 86400 + s) * 1000000 + us"
    by (simp add: s'_def algebra_simps)
  finally show ?thesis
    using rng by (simp add: td timedelta_inv_def delta_to_microseconds_def)
qed

lemma valid_datetime_date:
  "valid_datetime dt \<Longrightarrow> valid_date (dt_year dt) (dt_month dt) (dt_day dt)"
  by (simp add: valid_datetime_def valid_date_def)

lemma ymd_to_ord_range:
  assumes "valid_date y m d"
  shows "1 \<le> ymd_to_ord y m d \<and> ymd_to_ord y m d \<le> 3652059"
proof -
  have y: "1 \<le> y" "y + 1 \<le> 10000" using assms by (simp_all add: valid_date_def MINYEAR_def MAXYEAR_def)
  have "days_before_year 1 \<le> days_before_year y"
    using y by (intro days_before_year_mono) simp_all
  moreover have "days_before_year (y + 1) \<le> days_before_year 10000"
    using y by (intro days_before_year_mono) simp_all
  moreover have "days_before_year 1 = 0" "days_before_year 10000 = 3652059"
    by (simp_all add: days_before_year_def)
  ultimately show ?thesis using ymd_to_ord_bounds [OF assms] by simp
qed

lemma div_86400_bounds:
  "- 86400 \<le> (x::int) \<Longrightarrow> x < 86400 \<Longrightarrow> - 1 \<le> x div 86400 \<and> x div 86400 \<le> 0"
  using zdiv_mono1 [of "- 86400" x 86400] zdiv_mono1 [of x 86399 86400] by simp

theorem datetime_sub_correct:
  assumes va: "valid_datetime a" and vb: "valid_datetime b"
  shows "\<exists>td. datetime_sub a b = Inr td \<and> timedelta_inv td \<and>
           delta_to_microseconds td = dt_microseconds a - dt_microseconds b"
proof -
  define dd where "dd = ymd_to_ord (dt_year a) (dt_month a) (dt_day a) -
                        ymd_to_ord (dt_year b) (dt_month b) (dt_day b)"
  define ds where "ds = (dt_hour a - dt_hour b) * 3600 + (dt_minute a - dt_minute b) * 60 +
                        (dt_second a - dt_second b)"
  define dus where "dus = dt_microsecond a - dt_microsecond b"
  have sub: "datetime_sub a b = new_delta dd ds dus"
    by (simp add: datetime_sub_def dd_def ds_def dus_def)
  have "\<bar>dd\<bar> \<le> 3652058"
    using ymd_to_ord_range [OF valid_datetime_date [OF va]]
      ymd_to_ord_range [OF valid_datetime_date [OF vb]] unfolding dd_def abs_le_iff by linarith
  moreover have "- 86399 \<le> ds \<and> ds \<le> 86399" "- 999999 \<le> dus \<and> dus \<le> 999999"
    using va vb by (simp_all add: ds_def dus_def valid_datetime_def)
  moreover have "- 1 \<le> dus div 1000000 \<and> dus div 1000000 \<le> 0"
    using calculation(3) zdiv_mono1 [of "- 1000000" dus 1000000] zdiv_mono1 [of dus 999999 1000000]
    by simp
  ultimately have "- 1 \<le> (ds + dus div 1000000) div 86400 \<and> (ds + dus div 1000000) div 86400 \<le> 0"
    by (intro div_86400_bounds) simp_all
  with \<open>\<bar>dd\<bar> \<le> 3652058\<close> have ok: "\<bar>dd + (ds + dus div 1000000) div 86400\<bar> \<le> MAX_DELTA_DAYS"
    unfolding MAX_DELTA_DAYS_def abs_le_iff by linarith
  then obtain td where td: "new_delta dd ds dus = Inr td"
    by (simp add: new_delta_eq Let_def)
  have "delta_to_microseconds td = (dd * 86400 + ds) * 1000000 + dus"
    "timedelta_inv td"
    using new_delta_normalizes [OF td] by simp_all
  moreover have "(dd * 86400 + ds) * 1000000 + dus = dt_microseconds a - dt_microseconds b"
    by (simp add: dd_def ds_def dus_def dt_microseconds_def algebra_simps)
  ultimately show ?thesis using sub td by simp
qed

lemma valid_EPOCH: "valid_datetime EPOCH"
  by (simp add: valid_datetime_def EPOCH_def MINYEAR_def MAXYEAR_def days_in_month_def
      days_in_month_tbl_def)

theorem timestamp_exact:
  assumes "valid_datetime dt"
  shows "timestamp exact dt = Inr (of_int (dt_microseconds dt - dt_microseconds EPOCH) / 1000000)"
proof -
  obtain td where "datetime_sub dt EPOCH = Inr td"
    and "delta_to_microseconds td = dt_microseconds dt - dt_microseconds EPOCH"
    using datetime_sub_correct [OF assms valid_EPOCH] by blast
  then show ?thesis
    by (simp add: timestamp_def total_seconds_def int_truediv_def)
qed

lemma check_date_args_iff: "check_date_args y m d = Inr () \<longleftrightarrow> valid_date y m d"
  by (auto simp: check_date_args_def valid_date_def)

lemma check_time_args_iff:
  "check_time_args h mi s us = Inr () \<longleftrightarrow>
     0 \<le> h \<and> h \<le> 23 \<and> 0 \<le> mi \<and> mi \<le> 59 \<and> 0 \<le> s \<and> s \<le> 59 \<and> 0 \<le> us \<and> us \<le> 999999"
  by (auto simp: check_time_args_def)

lemma c_int_arg_Inr: "c_int_arg x = Inr y \<longleftrightarrow> fits_int32 x \<and> y = x"
  by (auto simp: c_int_arg_def fits_int32_iff)

lemma valid_datetime_fits_int32:
  assumes "valid_datetime dt"
  shows "fits_int32 (dt_year dt) \<and> fits_int32 (dt_month dt) \<and> fits_int32 (dt_day dt) \<and>
    fits_int32 (dt_hour dt) \<and> fits_int32 (dt_minute dt) \<and> fits_int32 (dt_second dt) \<and>
    fits_int32 (dt_microsecond dt)"
  using assms days_month_bounds [of "dt_month dt" "dt_year dt"]
  by (simp add: valid_datetime_def fits_int32_iff MINYEAR_def MAXYEAR_def)

text \<open>C7: The datetime constructor returns a datetime exactly when its seven arguments satisfy the
  datetime invariant (year 1..9999, month 1..12, day within the month, hour, minute, second and
  microsecond in range), and that datetime holds the arguments; otherwise it raises.\<close>

theorem datetime_new_iff:
  "datetime_new y mo d h mi s us = Inr dt \<longleftrightarrow>
     dt = \<lparr>dt_year = y, dt_month = mo, dt_day = d, dt_hour = h, dt_minute = mi,
           dt_second = s, dt_microsecond = us\<rparr> \<and> valid_datetime dt"
proof
  assume "datetime_new y mo d h mi s us = Inr dt"
  then show "dt = \<lparr>dt_year = y, dt_month = mo, dt_day = d, dt_hour = h, dt_minute = mi,
           dt_second = s, dt_microsecond = us\<rparr> \<and> valid_datetime dt"
    by (auto simp: datetime_new_def c_int_arg_Inr check_date_args_iff check_time_args_iff
        valid_datetime_def valid_date_def)
next
  assume a: "dt = \<lparr>dt_year = y, dt_month = mo, dt_day = d, dt_hour = h, dt_minute = mi,
           dt_second = s, dt_microsecond = us\<rparr> \<and> valid_datetime dt"
  then have v: "valid_datetime dt" and e: "dt = \<lparr>dt_year = y, dt_month = mo, dt_day = d,
      dt_hour = h, dt_minute = mi, dt_second = s, dt_microsecond = us\<rparr>"
    by blast+
  have "fits_int32 y" "fits_int32 mo" "fits_int32 d" "fits_int32 h" "fits_int32 mi"
      "fits_int32 s" "fits_int32 us"
    using valid_datetime_fits_int32 [OF v] by (simp_all add: e)
  moreover have "valid_date y mo d" "check_time_args h mi s us = Inr ()"
    using v by (simp_all add: e valid_datetime_def valid_date_def check_time_args_iff)
  ultimately show "datetime_new y mo d h mi s us = Inr dt"
    by (simp add: e datetime_new_def c_int_arg_def fits_int32_iff check_date_args_iff [symmetric]
        del: check_time_args_iff)
qed

text \<open>C8: \<open>ymd_to_ord\<close> counts days: the date after a valid date has the next ordinal, and it
  is again a valid date unless it falls after year 9999.\<close>

theorem ymd_to_ord_next_date:
  assumes v: "valid_date y m d" and n: "next_date (y, m, d) = (y', m', d')"
  shows "ymd_to_ord y' m' d' = ymd_to_ord y m d + 1 \<and> (y' \<le> MAXYEAR \<longrightarrow> valid_date y' m' d')"
proof -
  have r: "1 \<le> y" "y \<le> 9999" "1 \<le> m" "m \<le> 12" "1 \<le> d" "d \<le> days_in_month y m"
    using v by (simp_all add: valid_date_def MINYEAR_def MAXYEAR_def)
  consider (day) "d < days_in_month y m" | (month) "d = days_in_month y m" "m < 12"
    | (year) "d = days_in_month y m" "m = 12"
    using r by linarith
  then show ?thesis
  proof cases
    case day
    then show ?thesis using n v by (auto simp: next_date_def ymd_to_ord_def valid_date_def)
  next
    case month
    then have "(y', m', d') = (y, m + 1, 1)" using n by (simp add: next_date_def)
    moreover have "days_before_month y (m + 1) = days_before_month y m + days_in_month y m"
      using days_before_month_step [of m y] r month by simp
    moreover have "28 \<le> days_in_month y (m + 1)"
      using days_month_bounds [of "m + 1" y] r month by simp
    ultimately show ?thesis using month r by (auto simp: ymd_to_ord_def valid_date_def MINYEAR_def)
  next
    case year
    then have "(y', m', d') = (y + 1, 1, 1)" using n by (simp add: next_date_def)
    moreover have "days_before_month y 12 + days_in_month y 12 = year_days y"
      using days_before_month_step [of 12 y] r by (simp add: is_leap_iff_greg_leap year_days_def)
    moreover have "days_before_year (y + 1) = days_before_year y + year_days y"
      using r by (simp add: days_before_year_succ)
    ultimately show ?thesis using year r
      by (auto simp: ymd_to_ord_def valid_date_def MINYEAR_def days_before_month_def
          days_before_month_tbl_def days_in_month_def days_in_month_tbl_def)
  qed
qed

theorem ymd_to_ord_next_date_witness:
  "valid_date 2024 12 31 \<and> next_date (2024, 12, 31) = (2025, 1, 1) \<and>
   ymd_to_ord 2025 1 1 = ymd_to_ord 2024 12 31 + 1 \<and> valid_date 2025 1 1"
proof -
  have v: "valid_date 2024 12 31" and n: "next_date (2024, 12, 31) = (2025, 1, 1)"
    by (simp_all add: model_defs)
  show ?thesis using v n ymd_to_ord_next_date [OF v n] by (simp add: MAXYEAR_def)
qed

theorem ymd_to_ord_inj_witness:
  "valid_date 2024 2 29 \<and> ymd_to_ord 2024 2 29 = ymd_to_ord 2024 2 29 \<and>
   (2024::int) = 2024 \<and> (2::int) = 2 \<and> (29::int) = 29"
proof -
  have h: "valid_date 2024 2 29" by (simp add: model_defs)
  show ?thesis using h ymd_to_ord_inj [OF h h refl] by simp
qed

end
