(* ===== verification/Budget.thy ===== *)
theory Budget
  imports Calendar
begin

text \<open>
  The budget depletion estimator, src/live-counter/live-counter.py lines 4--43: the input
  constants and the straight-line calculation of the elapsed time, the depletion rate, the
  remaining budget, the time remaining and the deadline timestamp. The five inputs are the
  fields of a \<open>config\<close> record (the script hardcodes them; \<open>script_config\<close> is that
  instance), and \<open>calculate\<close> performs the calculation with every float operation
  rounded by \<open>rnd\<close>. \<open>budget_spec\<close> is the specification's formula (section 4.1 of
  the spec) over exact rationals; the calculation with exact rounding refines it.
\<close>

section \<open>Inputs\<close>

text \<open>
  A float literal written in the source as a decimal: \<open>(m, e)\<close> stands for
  \<open>m / 10^e\<close> (\<open>42.2\<close> is \<open>(422, 1)\<close>).
\<close>

type_synonym decimal_lit = "int \<times> nat"

definition decimal_value :: "decimal_lit \<Rightarrow> rat" where
  "decimal_value lit = (case lit of (m, e) \<Rightarrow> of_int m / 10 ^ e)"

definition REMAINING_BUDGET_GIGA_TONNES :: int where
  "REMAINING_BUDGET_GIGA_TONNES = 130"

definition ANNUAL_EMISSION_RATE_GIGA_TONNES :: decimal_lit where
  "ANNUAL_EMISSION_RATE_GIGA_TONNES = (422, 1)"

definition REFERENCE_DATE :: "datetime pyresult" where
  "REFERENCE_DATE = datetime_new 2025 1 1 0 0 0 0"

definition TONNES_PER_GIGA_TONNE :: int where
  "TONNES_PER_GIGA_TONNE = 1000000000"

record config =
  remaining_budget_gt :: int
  annual_rate_gt :: decimal_lit
  reference_date :: datetime
  current_time :: datetime

text \<open>The script's inputs: its constants and the clock reading \<open>now\<close>.\<close>

definition script_config :: "datetime \<Rightarrow> config pyresult" where
  "script_config now =
     rbind REFERENCE_DATE (\<lambda>ref.
       Inr \<lparr>remaining_budget_gt = REMAINING_BUDGET_GIGA_TONNES,
            annual_rate_gt = ANNUAL_EMISSION_RATE_GIGA_TONNES,
            reference_date = ref, current_time = now\<rparr>)"

section \<open>The calculation\<close>

record estimate =
  time_elapsed_seconds :: pyfloat
  seconds_per_year :: pyfloat
  rate_tonnes_per_sec :: pyfloat
  budget_depleted_since_ref :: pyfloat
  current_budget_tonnes :: pyfloat
  time_remaining_seconds :: pyfloat
  deadline_timestamp :: pyfloat

text \<open>\<open>365.25 * 24 * 60 * 60\<close>, evaluated left to right, each step a float product.\<close>

definition seconds_per_year_of :: "rounding \<Rightarrow> pyfloat" where
  "seconds_per_year_of rnd =
     fmul rnd (fmul rnd (fmul rnd (float_lit rnd (1461 / 4)) (int_to_float rnd 24))
       (int_to_float rnd 60)) (int_to_float rnd 60)"

text \<open>Lines 25--43, in the order the script runs them.\<close>

definition calculate :: "rounding \<Rightarrow> config \<Rightarrow> estimate pyresult" where
  "calculate rnd cfg =
     rbind (datetime_sub (current_time cfg) (reference_date cfg)) (\<lambda>time_elapsed.
     rbind (total_seconds rnd time_elapsed) (\<lambda>elapsed.
     (let annual = float_lit rnd (decimal_value (annual_rate_gt cfg));
          spy = seconds_per_year_of rnd
      in rbind (fdiv rnd (fmul rnd annual (int_to_float rnd TONNES_PER_GIGA_TONNE)) spy) (\<lambda>rate.
         (let depleted = fmul rnd rate elapsed;
              current = fsub rnd
                (int_to_float rnd (remaining_budget_gt cfg * TONNES_PER_GIGA_TONNE)) depleted
          in rbind (fdiv rnd current rate) (\<lambda>remaining.
             rbind (timestamp rnd (current_time cfg)) (\<lambda>now_ts.
             Inr \<lparr>time_elapsed_seconds = elapsed, seconds_per_year = spy,
                  rate_tonnes_per_sec = rate, budget_depleted_since_ref = depleted,
                  current_budget_tonnes = current, time_remaining_seconds = remaining,
                  deadline_timestamp = fadd rnd now_ts remaining\<rparr>)))))))"

section \<open>The specification's formula\<close>

text \<open>
  Section 4.1 of the specification over exact rationals: elapsed seconds between the two
  instants, the rate \<open>annual * 10^9 / (365.25 * 86400)\<close>, the depleted and current
  budget, \<open>time remaining = budget / rate\<close>, and the deadline as a Unix timestamp.
\<close>

definition budget_spec :: "config \<Rightarrow> estimate" where
  "budget_spec cfg =
     (let elapsed = of_int (dt_microseconds (current_time cfg) -
                            dt_microseconds (reference_date cfg)) / 1000000;
          rate = decimal_value (annual_rate_gt cfg) * 1000000000 / (1461 / 4 * 86400);
          depleted = rate * elapsed;
          current = of_int (remaining_budget_gt cfg) * 1000000000 - depleted;
          remaining = current / rate;
          now_ts = of_int (dt_microseconds (current_time cfg) - dt_microseconds EPOCH) / 1000000
      in \<lparr>time_elapsed_seconds = elapsed, seconds_per_year = 31557600,
          rate_tonnes_per_sec = rate, budget_depleted_since_ref = depleted,
          current_budget_tonnes = current, time_remaining_seconds = remaining,
          deadline_timestamp = now_ts + remaining\<rparr>)"

definition config_ok :: "config \<Rightarrow> bool" where
  "config_ok cfg \<longleftrightarrow> valid_datetime (reference_date cfg) \<and> valid_datetime (current_time cfg)"

lemmas budget_defs [model_defs] =
  decimal_value_def REMAINING_BUDGET_GIGA_TONNES_def ANNUAL_EMISSION_RATE_GIGA_TONNES_def
  REFERENCE_DATE_def TONNES_PER_GIGA_TONNE_def script_config_def seconds_per_year_of_def
  calculate_def budget_spec_def config_ok_def

section \<open>Properties of the calculation\<close>

lemma datetime_sub_self:
  assumes "valid_datetime d"
  shows "\<exists>td. datetime_sub d d = Inr td \<and> delta_to_microseconds td = 0"
  using datetime_sub_correct [OF assms assms] by auto

lemma seconds_per_year_exact: "seconds_per_year_of exact = 31557600"
  by (simp add: seconds_per_year_of_def float_ops_defs)

lemma calculate_exact_eq:
  assumes "config_ok cfg"
  shows "calculate exact cfg =
    (if decimal_value (annual_rate_gt cfg) = 0 then Inl ZeroDivisionError else Inr (budget_spec cfg))"
proof -
  have v: "valid_datetime (current_time cfg)" "valid_datetime (reference_date cfg)"
    using assms by (simp_all add: config_ok_def)
  obtain td where td: "datetime_sub (current_time cfg) (reference_date cfg) = Inr td"
    and tdv: "delta_to_microseconds td =
              dt_microseconds (current_time cfg) - dt_microseconds (reference_date cfg)"
    using datetime_sub_correct [OF v] by blast
  have ts: "timestamp exact (current_time cfg) =
      Inr (of_int (dt_microseconds (current_time cfg) - dt_microseconds EPOCH) / 1000000)"
    using timestamp_exact [OF v(1)] .
  show ?thesis
    using td tdv ts
    by (simp add: calculate_def budget_spec_def seconds_per_year_exact total_seconds_def
        float_ops_defs TONNES_PER_GIGA_TONNE_def Let_def)
qed

lemma calculate_exact_result:
  "config_ok cfg \<Longrightarrow> calculate exact cfg = Inr e \<Longrightarrow> e = budget_spec cfg"
  by (simp add: calculate_exact_eq split: if_splits)

text \<open>C2: A zero annual emission rate makes the script raise ZeroDivisionError (line 42), for any rounding
  that maps 0 to 0: the error path the specification prescribes, not an infinity.\<close>

theorem calculate_zero_rate:
  assumes ok: "config_ok cfg" and zero: "decimal_value (annual_rate_gt cfg) = 0"
    and r0: "rnd 0 = 0"
  shows "calculate rnd cfg = Inl ZeroDivisionError"
proof -
  have v: "valid_datetime (current_time cfg)" "valid_datetime (reference_date cfg)"
    using ok by (simp_all add: config_ok_def)
  obtain td where td: "datetime_sub (current_time cfg) (reference_date cfg) = Inr td"
    using datetime_sub_correct [OF v] by blast
  show ?thesis
    using td zero r0
    by (simp add: calculate_def total_seconds_def float_ops_defs Let_def)
qed

text \<open>C3: The deadline timestamp minus the current timestamp is exactly the time remaining (line 43).\<close>

theorem deadline_minus_now:
  assumes "config_ok cfg" "calculate exact cfg = Inr e"
    and "timestamp exact (current_time cfg) = Inr t"
  shows "deadline_timestamp e - t = time_remaining_seconds e"
  using assms timestamp_exact [of "current_time cfg"] calculate_exact_result [OF assms(1,2)]
  by (simp add: budget_spec_def config_ok_def Let_def)

lemma budget_spec_rate:
  "rate_tonnes_per_sec (budget_spec cfg) =
     decimal_value (annual_rate_gt cfg) * 1000000000 / 31557600"
  unfolding budget_spec_def Let_def by simp

lemma budget_spec_current:
  "current_budget_tonnes (budget_spec cfg) =
     of_int (remaining_budget_gt cfg) * 1000000000 -
     rate_tonnes_per_sec (budget_spec cfg) *
     (of_int (dt_microseconds (current_time cfg) - dt_microseconds (reference_date cfg)) / 1000000)"
  unfolding budget_spec_def Let_def by simp

text \<open>C4: Moving the clock reading changes neither the rate nor anything but the current budget, which
  falls by exactly the rate times the seconds that passed.\<close>

theorem current_budget_linear:
  assumes ok1: "config_ok cfg" and ok2: "valid_datetime now2"
    and e1: "calculate exact cfg = Inr e1"
    and e2: "calculate exact (cfg\<lparr>current_time := now2\<rparr>) = Inr e2"
    and t1: "timestamp exact (current_time cfg) = Inr t1"
    and t2: "timestamp exact now2 = Inr t2"
  shows "rate_tonnes_per_sec e2 = rate_tonnes_per_sec e1 \<and>
         current_budget_tonnes e2 = current_budget_tonnes e1 - rate_tonnes_per_sec e1 * (t2 - t1)"
proof -
  have ok2': "config_ok (cfg\<lparr>current_time := now2\<rparr>)"
    using ok1 ok2 by (simp add: config_ok_def)
  have v1: "valid_datetime (current_time cfg)" using ok1 by (simp add: config_ok_def)
  have s1: "e1 = budget_spec cfg" and s2: "e2 = budget_spec (cfg\<lparr>current_time := now2\<rparr>)"
    using calculate_exact_result [OF ok1 e1] calculate_exact_result [OF ok2' e2] by simp_all
  define r where "r = rate_tonnes_per_sec e1"
  define A where "A = dt_microseconds (current_time cfg)"
  define R where "R = dt_microseconds (reference_date cfg)"
  define N where "N = dt_microseconds now2"
  have r2: "rate_tonnes_per_sec e2 = r"
    by (simp add: s1 s2 r_def budget_spec_rate)
  define X where "X = (of_int (A - R) / 1000000 :: rat)"
  define T where "T = (of_int (N - A) / 1000000 :: rat)"
  have c1: "current_budget_tonnes e1 = of_int (remaining_budget_gt cfg) * 1000000000 - r * X"
    by (simp add: s1 r_def A_def R_def X_def budget_spec_current)
  have dec: "of_int (N - R) / 1000000 = X + T"
    by (simp add: X_def T_def diff_divide_distrib)
  have c2: "current_budget_tonnes e2 = of_int (remaining_budget_gt cfg) * 1000000000 - r * (X + T)"
    using budget_spec_current [of "cfg\<lparr>current_time := now2\<rparr>"] r2 dec
    by (simp add: s2 N_def R_def)
  have tt: "t2 - t1 = T"
    using t1 t2 timestamp_exact [OF v1] timestamp_exact [OF ok2]
    by (simp add: A_def N_def T_def diff_divide_distrib)
  show ?thesis
    using r2 c1 c2 tt by (simp add: r_def algebra_simps)
qed

text \<open>C5: When the clock reads the reference date, the current budget is the reference budget converted
  to tonnes, rounded once: exactly \<open>remaining * 10^9\<close> for any rounding that fixes 0 and is idempotent.\<close>

theorem current_budget_at_reference:
  assumes ok: "config_ok cfg" and same: "current_time cfg = reference_date cfg"
    and r0: "rnd 0 = 0" and idem: "\<And>x. rnd (rnd x) = rnd x"
    and e: "calculate rnd cfg = Inr e"
  shows "current_budget_tonnes e = rnd (of_int (remaining_budget_gt cfg * 1000000000))"
proof -
  have v: "valid_datetime (current_time cfg)" using ok by (simp add: config_ok_def)
  obtain td where td: "datetime_sub (current_time cfg) (current_time cfg) = Inr td"
    and z: "delta_to_microseconds td = 0"
    using datetime_sub_self [OF v] by blast
  show ?thesis
    using e td z r0 idem same
    by (auto simp: calculate_def total_seconds_def float_ops_defs TONNES_PER_GIGA_TONNE_def
        Let_def split: if_splits)
qed

text \<open>C1: With exact arithmetic and valid datetimes, the calculation of lines 25--43 succeeds whenever the
  annual rate is non-zero and yields exactly the specification formula of section 4.1 (refinement).\<close>

theorem calculate_refines_spec:
  assumes "config_ok cfg" "decimal_value (annual_rate_gt cfg) \<noteq> 0"
  shows "calculate exact cfg = Inr (budget_spec cfg)"
  using calculate_exact_eq [OF assms(1)] assms(2) by simp

theorem calculate_refines_spec_witness:
  "config_ok \<lparr>remaining_budget_gt = 130, annual_rate_gt = (422, 1),
     reference_date = \<lparr>dt_year = 2025, dt_month = 1, dt_day = 1, dt_hour = 0, dt_minute = 0, dt_second = 0,
       dt_microsecond = 0\<rparr>, current_time = \<lparr>dt_year = 2025, dt_month = 1, dt_day = 1, dt_hour = 0, dt_minute = 0, dt_second = 0,
       dt_microsecond = 0\<rparr>\<rparr> \<and> decimal_value (annual_rate_gt \<lparr>remaining_budget_gt = 130, annual_rate_gt = (422, 1),
     reference_date = \<lparr>dt_year = 2025, dt_month = 1, dt_day = 1, dt_hour = 0, dt_minute = 0, dt_second = 0,
       dt_microsecond = 0\<rparr>, current_time = \<lparr>dt_year = 2025, dt_month = 1, dt_day = 1, dt_hour = 0, dt_minute = 0, dt_second = 0,
       dt_microsecond = 0\<rparr>\<rparr>) \<noteq> 0 \<and>
   calculate exact \<lparr>remaining_budget_gt = 130, annual_rate_gt = (422, 1),
     reference_date = \<lparr>dt_year = 2025, dt_month = 1, dt_day = 1, dt_hour = 0, dt_minute = 0, dt_second = 0,
       dt_microsecond = 0\<rparr>, current_time = \<lparr>dt_year = 2025, dt_month = 1, dt_day = 1, dt_hour = 0, dt_minute = 0, dt_second = 0,
       dt_microsecond = 0\<rparr>\<rparr> = Inr (budget_spec \<lparr>remaining_budget_gt = 130, annual_rate_gt = (422, 1),
     reference_date = \<lparr>dt_year = 2025, dt_month = 1, dt_day = 1, dt_hour = 0, dt_minute = 0, dt_second = 0,
       dt_microsecond = 0\<rparr>, current_time = \<lparr>dt_year = 2025, dt_month = 1, dt_day = 1, dt_hour = 0, dt_minute = 0, dt_second = 0,
       dt_microsecond = 0\<rparr>\<rparr>)"
proof -
  have h: "config_ok \<lparr>remaining_budget_gt = 130, annual_rate_gt = (422, 1),
     reference_date = \<lparr>dt_year = 2025, dt_month = 1, dt_day = 1, dt_hour = 0, dt_minute = 0, dt_second = 0,
       dt_microsecond = 0\<rparr>, current_time = \<lparr>dt_year = 2025, dt_month = 1, dt_day = 1, dt_hour = 0, dt_minute = 0, dt_second = 0,
       dt_microsecond = 0\<rparr>\<rparr>" "decimal_value (annual_rate_gt \<lparr>remaining_budget_gt = 130, annual_rate_gt = (422, 1),
     reference_date = \<lparr>dt_year = 2025, dt_month = 1, dt_day = 1, dt_hour = 0, dt_minute = 0, dt_second = 0,
       dt_microsecond = 0\<rparr>, current_time = \<lparr>dt_year = 2025, dt_month = 1, dt_day = 1, dt_hour = 0, dt_minute = 0, dt_second = 0,
       dt_microsecond = 0\<rparr>\<rparr>) \<noteq> 0"
    by (simp_all add: model_defs)
  show ?thesis using h calculate_refines_spec [OF h] by simp
qed

theorem calculate_zero_rate_witness:
  "config_ok \<lparr>remaining_budget_gt = 130, annual_rate_gt = (0, 0),
     reference_date = \<lparr>dt_year = 2025, dt_month = 1, dt_day = 1, dt_hour = 0, dt_minute = 0, dt_second = 0,
       dt_microsecond = 0\<rparr>, current_time = \<lparr>dt_year = 2025, dt_month = 1, dt_day = 1, dt_hour = 0, dt_minute = 0, dt_second = 0,
       dt_microsecond = 0\<rparr>\<rparr> \<and> decimal_value (annual_rate_gt \<lparr>remaining_budget_gt = 130, annual_rate_gt = (0, 0),
     reference_date = \<lparr>dt_year = 2025, dt_month = 1, dt_day = 1, dt_hour = 0, dt_minute = 0, dt_second = 0,
       dt_microsecond = 0\<rparr>, current_time = \<lparr>dt_year = 2025, dt_month = 1, dt_day = 1, dt_hour = 0, dt_minute = 0, dt_second = 0,
       dt_microsecond = 0\<rparr>\<rparr>) = 0 \<and> exact 0 = 0 \<and>
   calculate exact \<lparr>remaining_budget_gt = 130, annual_rate_gt = (0, 0),
     reference_date = \<lparr>dt_year = 2025, dt_month = 1, dt_day = 1, dt_hour = 0, dt_minute = 0, dt_second = 0,
       dt_microsecond = 0\<rparr>, current_time = \<lparr>dt_year = 2025, dt_month = 1, dt_day = 1, dt_hour = 0, dt_minute = 0, dt_second = 0,
       dt_microsecond = 0\<rparr>\<rparr> = Inl ZeroDivisionError"
proof -
  have h: "config_ok \<lparr>remaining_budget_gt = 130, annual_rate_gt = (0, 0),
     reference_date = \<lparr>dt_year = 2025, dt_month = 1, dt_day = 1, dt_hour = 0, dt_minute = 0, dt_second = 0,
       dt_microsecond = 0\<rparr>, current_time = \<lparr>dt_year = 2025, dt_month = 1, dt_day = 1, dt_hour = 0, dt_minute = 0, dt_second = 0,
       dt_microsecond = 0\<rparr>\<rparr>" "decimal_value (annual_rate_gt \<lparr>remaining_budget_gt = 130, annual_rate_gt = (0, 0),
     reference_date = \<lparr>dt_year = 2025, dt_month = 1, dt_day = 1, dt_hour = 0, dt_minute = 0, dt_second = 0,
       dt_microsecond = 0\<rparr>, current_time = \<lparr>dt_year = 2025, dt_month = 1, dt_day = 1, dt_hour = 0, dt_minute = 0, dt_second = 0,
       dt_microsecond = 0\<rparr>\<rparr>) = 0" "exact 0 = 0"
    by (simp_all add: model_defs)
  show ?thesis using h calculate_zero_rate [where rnd = exact, OF h] by simp
qed

theorem deadline_minus_now_witness:
  "config_ok \<lparr>remaining_budget_gt = 130, annual_rate_gt = (422, 1),
     reference_date = \<lparr>dt_year = 2025, dt_month = 1, dt_day = 1, dt_hour = 0, dt_minute = 0, dt_second = 0,
       dt_microsecond = 0\<rparr>, current_time = \<lparr>dt_year = 2025, dt_month = 1, dt_day = 1, dt_hour = 0, dt_minute = 0, dt_second = 0,
       dt_microsecond = 0\<rparr>\<rparr> \<and> calculate exact \<lparr>remaining_budget_gt = 130, annual_rate_gt = (422, 1),
     reference_date = \<lparr>dt_year = 2025, dt_month = 1, dt_day = 1, dt_hour = 0, dt_minute = 0, dt_second = 0,
       dt_microsecond = 0\<rparr>, current_time = \<lparr>dt_year = 2025, dt_month = 1, dt_day = 1, dt_hour = 0, dt_minute = 0, dt_second = 0,
       dt_microsecond = 0\<rparr>\<rparr> = Inr (budget_spec \<lparr>remaining_budget_gt = 130, annual_rate_gt = (422, 1),
     reference_date = \<lparr>dt_year = 2025, dt_month = 1, dt_day = 1, dt_hour = 0, dt_minute = 0, dt_second = 0,
       dt_microsecond = 0\<rparr>, current_time = \<lparr>dt_year = 2025, dt_month = 1, dt_day = 1, dt_hour = 0, dt_minute = 0, dt_second = 0,
       dt_microsecond = 0\<rparr>\<rparr>) \<and>
   timestamp exact (current_time \<lparr>remaining_budget_gt = 130, annual_rate_gt = (422, 1),
     reference_date = \<lparr>dt_year = 2025, dt_month = 1, dt_day = 1, dt_hour = 0, dt_minute = 0, dt_second = 0,
       dt_microsecond = 0\<rparr>, current_time = \<lparr>dt_year = 2025, dt_month = 1, dt_day = 1, dt_hour = 0, dt_minute = 0, dt_second = 0,
       dt_microsecond = 0\<rparr>\<rparr>) = Inr 1735689600 \<and>
   deadline_timestamp (budget_spec \<lparr>remaining_budget_gt = 130, annual_rate_gt = (422, 1),
     reference_date = \<lparr>dt_year = 2025, dt_month = 1, dt_day = 1, dt_hour = 0, dt_minute = 0, dt_second = 0,
       dt_microsecond = 0\<rparr>, current_time = \<lparr>dt_year = 2025, dt_month = 1, dt_day = 1, dt_hour = 0, dt_minute = 0, dt_second = 0,
       dt_microsecond = 0\<rparr>\<rparr>) - 1735689600 = time_remaining_seconds (budget_spec \<lparr>remaining_budget_gt = 130, annual_rate_gt = (422, 1),
     reference_date = \<lparr>dt_year = 2025, dt_month = 1, dt_day = 1, dt_hour = 0, dt_minute = 0, dt_second = 0,
       dt_microsecond = 0\<rparr>, current_time = \<lparr>dt_year = 2025, dt_month = 1, dt_day = 1, dt_hour = 0, dt_minute = 0, dt_second = 0,
       dt_microsecond = 0\<rparr>\<rparr>)"
proof -
  have h: "config_ok \<lparr>remaining_budget_gt = 130, annual_rate_gt = (422, 1),
     reference_date = \<lparr>dt_year = 2025, dt_month = 1, dt_day = 1, dt_hour = 0, dt_minute = 0, dt_second = 0,
       dt_microsecond = 0\<rparr>, current_time = \<lparr>dt_year = 2025, dt_month = 1, dt_day = 1, dt_hour = 0, dt_minute = 0, dt_second = 0,
       dt_microsecond = 0\<rparr>\<rparr>" "calculate exact \<lparr>remaining_budget_gt = 130, annual_rate_gt = (422, 1),
     reference_date = \<lparr>dt_year = 2025, dt_month = 1, dt_day = 1, dt_hour = 0, dt_minute = 0, dt_second = 0,
       dt_microsecond = 0\<rparr>, current_time = \<lparr>dt_year = 2025, dt_month = 1, dt_day = 1, dt_hour = 0, dt_minute = 0, dt_second = 0,
       dt_microsecond = 0\<rparr>\<rparr> = Inr (budget_spec \<lparr>remaining_budget_gt = 130, annual_rate_gt = (422, 1),
     reference_date = \<lparr>dt_year = 2025, dt_month = 1, dt_day = 1, dt_hour = 0, dt_minute = 0, dt_second = 0,
       dt_microsecond = 0\<rparr>, current_time = \<lparr>dt_year = 2025, dt_month = 1, dt_day = 1, dt_hour = 0, dt_minute = 0, dt_second = 0,
       dt_microsecond = 0\<rparr>\<rparr>)"
    "timestamp exact (current_time \<lparr>remaining_budget_gt = 130, annual_rate_gt = (422, 1),
     reference_date = \<lparr>dt_year = 2025, dt_month = 1, dt_day = 1, dt_hour = 0, dt_minute = 0, dt_second = 0,
       dt_microsecond = 0\<rparr>, current_time = \<lparr>dt_year = 2025, dt_month = 1, dt_day = 1, dt_hour = 0, dt_minute = 0, dt_second = 0,
       dt_microsecond = 0\<rparr>\<rparr>) = Inr 1735689600"
    by (simp_all add: model_defs)
  show ?thesis using h deadline_minus_now [OF h] by simp
qed

theorem current_budget_linear_witness:
  "config_ok \<lparr>remaining_budget_gt = 130, annual_rate_gt = (422, 1),
     reference_date = \<lparr>dt_year = 2025, dt_month = 1, dt_day = 1, dt_hour = 0, dt_minute = 0, dt_second = 0,
       dt_microsecond = 0\<rparr>, current_time = \<lparr>dt_year = 2025, dt_month = 1, dt_day = 1, dt_hour = 0, dt_minute = 0, dt_second = 0,
       dt_microsecond = 0\<rparr>\<rparr> \<and> valid_datetime \<lparr>dt_year = 2025, dt_month = 7, dt_day = 1, dt_hour = 12, dt_minute = 30, dt_second = 0,
       dt_microsecond = 0\<rparr> \<and>
   calculate exact \<lparr>remaining_budget_gt = 130, annual_rate_gt = (422, 1),
     reference_date = \<lparr>dt_year = 2025, dt_month = 1, dt_day = 1, dt_hour = 0, dt_minute = 0, dt_second = 0,
       dt_microsecond = 0\<rparr>, current_time = \<lparr>dt_year = 2025, dt_month = 1, dt_day = 1, dt_hour = 0, dt_minute = 0, dt_second = 0,
       dt_microsecond = 0\<rparr>\<rparr> = Inr (budget_spec \<lparr>remaining_budget_gt = 130, annual_rate_gt = (422, 1),
     reference_date = \<lparr>dt_year = 2025, dt_month = 1, dt_day = 1, dt_hour = 0, dt_minute = 0, dt_second = 0,
       dt_microsecond = 0\<rparr>, current_time = \<lparr>dt_year = 2025, dt_month = 1, dt_day = 1, dt_hour = 0, dt_minute = 0, dt_second = 0,
       dt_microsecond = 0\<rparr>\<rparr>) \<and>
   calculate exact (\<lparr>remaining_budget_gt = 130, annual_rate_gt = (422, 1),
     reference_date = \<lparr>dt_year = 2025, dt_month = 1, dt_day = 1, dt_hour = 0, dt_minute = 0, dt_second = 0,
       dt_microsecond = 0\<rparr>, current_time = \<lparr>dt_year = 2025, dt_month = 1, dt_day = 1, dt_hour = 0, dt_minute = 0, dt_second = 0,
       dt_microsecond = 0\<rparr>\<rparr>\<lparr>current_time := \<lparr>dt_year = 2025, dt_month = 7, dt_day = 1, dt_hour = 12, dt_minute = 30, dt_second = 0,
       dt_microsecond = 0\<rparr>\<rparr>) = Inr (budget_spec (\<lparr>remaining_budget_gt = 130, annual_rate_gt = (422, 1),
     reference_date = \<lparr>dt_year = 2025, dt_month = 1, dt_day = 1, dt_hour = 0, dt_minute = 0, dt_second = 0,
       dt_microsecond = 0\<rparr>, current_time = \<lparr>dt_year = 2025, dt_month = 1, dt_day = 1, dt_hour = 0, dt_minute = 0, dt_second = 0,
       dt_microsecond = 0\<rparr>\<rparr>\<lparr>current_time := \<lparr>dt_year = 2025, dt_month = 7, dt_day = 1, dt_hour = 12, dt_minute = 30, dt_second = 0,
       dt_microsecond = 0\<rparr>\<rparr>)) \<and>
   timestamp exact (current_time \<lparr>remaining_budget_gt = 130, annual_rate_gt = (422, 1),
     reference_date = \<lparr>dt_year = 2025, dt_month = 1, dt_day = 1, dt_hour = 0, dt_minute = 0, dt_second = 0,
       dt_microsecond = 0\<rparr>, current_time = \<lparr>dt_year = 2025, dt_month = 1, dt_day = 1, dt_hour = 0, dt_minute = 0, dt_second = 0,
       dt_microsecond = 0\<rparr>\<rparr>) = Inr 1735689600 \<and>
   timestamp exact \<lparr>dt_year = 2025, dt_month = 7, dt_day = 1, dt_hour = 12, dt_minute = 30, dt_second = 0,
       dt_microsecond = 0\<rparr> = Inr 1751373000 \<and>
   current_budget_tonnes (budget_spec (\<lparr>remaining_budget_gt = 130, annual_rate_gt = (422, 1),
     reference_date = \<lparr>dt_year = 2025, dt_month = 1, dt_day = 1, dt_hour = 0, dt_minute = 0, dt_second = 0,
       dt_microsecond = 0\<rparr>, current_time = \<lparr>dt_year = 2025, dt_month = 1, dt_day = 1, dt_hour = 0, dt_minute = 0, dt_second = 0,
       dt_microsecond = 0\<rparr>\<rparr>\<lparr>current_time := \<lparr>dt_year = 2025, dt_month = 7, dt_day = 1, dt_hour = 12, dt_minute = 30, dt_second = 0,
       dt_microsecond = 0\<rparr>\<rparr>)) =
     current_budget_tonnes (budget_spec \<lparr>remaining_budget_gt = 130, annual_rate_gt = (422, 1),
     reference_date = \<lparr>dt_year = 2025, dt_month = 1, dt_day = 1, dt_hour = 0, dt_minute = 0, dt_second = 0,
       dt_microsecond = 0\<rparr>, current_time = \<lparr>dt_year = 2025, dt_month = 1, dt_day = 1, dt_hour = 0, dt_minute = 0, dt_second = 0,
       dt_microsecond = 0\<rparr>\<rparr>) -
     rate_tonnes_per_sec (budget_spec \<lparr>remaining_budget_gt = 130, annual_rate_gt = (422, 1),
     reference_date = \<lparr>dt_year = 2025, dt_month = 1, dt_day = 1, dt_hour = 0, dt_minute = 0, dt_second = 0,
       dt_microsecond = 0\<rparr>, current_time = \<lparr>dt_year = 2025, dt_month = 1, dt_day = 1, dt_hour = 0, dt_minute = 0, dt_second = 0,
       dt_microsecond = 0\<rparr>\<rparr>) * (1751373000 - 1735689600)"
proof -
  have h: "config_ok \<lparr>remaining_budget_gt = 130, annual_rate_gt = (422, 1),
     reference_date = \<lparr>dt_year = 2025, dt_month = 1, dt_day = 1, dt_hour = 0, dt_minute = 0, dt_second = 0,
       dt_microsecond = 0\<rparr>, current_time = \<lparr>dt_year = 2025, dt_month = 1, dt_day = 1, dt_hour = 0, dt_minute = 0, dt_second = 0,
       dt_microsecond = 0\<rparr>\<rparr>" "valid_datetime \<lparr>dt_year = 2025, dt_month = 7, dt_day = 1, dt_hour = 12, dt_minute = 30, dt_second = 0,
       dt_microsecond = 0\<rparr>"
    "calculate exact \<lparr>remaining_budget_gt = 130, annual_rate_gt = (422, 1),
     reference_date = \<lparr>dt_year = 2025, dt_month = 1, dt_day = 1, dt_hour = 0, dt_minute = 0, dt_second = 0,
       dt_microsecond = 0\<rparr>, current_time = \<lparr>dt_year = 2025, dt_month = 1, dt_day = 1, dt_hour = 0, dt_minute = 0, dt_second = 0,
       dt_microsecond = 0\<rparr>\<rparr> = Inr (budget_spec \<lparr>remaining_budget_gt = 130, annual_rate_gt = (422, 1),
     reference_date = \<lparr>dt_year = 2025, dt_month = 1, dt_day = 1, dt_hour = 0, dt_minute = 0, dt_second = 0,
       dt_microsecond = 0\<rparr>, current_time = \<lparr>dt_year = 2025, dt_month = 1, dt_day = 1, dt_hour = 0, dt_minute = 0, dt_second = 0,
       dt_microsecond = 0\<rparr>\<rparr>)"
    "calculate exact (\<lparr>remaining_budget_gt = 130, annual_rate_gt = (422, 1),
     reference_date = \<lparr>dt_year = 2025, dt_month = 1, dt_day = 1, dt_hour = 0, dt_minute = 0, dt_second = 0,
       dt_microsecond = 0\<rparr>, current_time = \<lparr>dt_year = 2025, dt_month = 1, dt_day = 1, dt_hour = 0, dt_minute = 0, dt_second = 0,
       dt_microsecond = 0\<rparr>\<rparr>\<lparr>current_time := \<lparr>dt_year = 2025, dt_month = 7, dt_day = 1, dt_hour = 12, dt_minute = 30, dt_second = 0,
       dt_microsecond = 0\<rparr>\<rparr>) = Inr (budget_spec (\<lparr>remaining_budget_gt = 130, annual_rate_gt = (422, 1),
     reference_date = \<lparr>dt_year = 2025, dt_month = 1, dt_day = 1, dt_hour = 0, dt_minute = 0, dt_second = 0,
       dt_microsecond = 0\<rparr>, current_time = \<lparr>dt_year = 2025, dt_month = 1, dt_day = 1, dt_hour = 0, dt_minute = 0, dt_second = 0,
       dt_microsecond = 0\<rparr>\<rparr>\<lparr>current_time := \<lparr>dt_year = 2025, dt_month = 7, dt_day = 1, dt_hour = 12, dt_minute = 30, dt_second = 0,
       dt_microsecond = 0\<rparr>\<rparr>))"
    "timestamp exact (current_time \<lparr>remaining_budget_gt = 130, annual_rate_gt = (422, 1),
     reference_date = \<lparr>dt_year = 2025, dt_month = 1, dt_day = 1, dt_hour = 0, dt_minute = 0, dt_second = 0,
       dt_microsecond = 0\<rparr>, current_time = \<lparr>dt_year = 2025, dt_month = 1, dt_day = 1, dt_hour = 0, dt_minute = 0, dt_second = 0,
       dt_microsecond = 0\<rparr>\<rparr>) = Inr 1735689600"
    "timestamp exact \<lparr>dt_year = 2025, dt_month = 7, dt_day = 1, dt_hour = 12, dt_minute = 30, dt_second = 0,
       dt_microsecond = 0\<rparr> = Inr 1751373000"
    by (simp_all add: model_defs)
  show ?thesis using h current_budget_linear [OF h] by simp
qed

theorem current_budget_at_reference_witness:
  "config_ok \<lparr>remaining_budget_gt = 130, annual_rate_gt = (422, 1),
     reference_date = \<lparr>dt_year = 2025, dt_month = 1, dt_day = 1, dt_hour = 0, dt_minute = 0, dt_second = 0,
       dt_microsecond = 0\<rparr>, current_time = \<lparr>dt_year = 2025, dt_month = 1, dt_day = 1, dt_hour = 0, dt_minute = 0, dt_second = 0,
       dt_microsecond = 0\<rparr>\<rparr> \<and> current_time \<lparr>remaining_budget_gt = 130, annual_rate_gt = (422, 1),
     reference_date = \<lparr>dt_year = 2025, dt_month = 1, dt_day = 1, dt_hour = 0, dt_minute = 0, dt_second = 0,
       dt_microsecond = 0\<rparr>, current_time = \<lparr>dt_year = 2025, dt_month = 1, dt_day = 1, dt_hour = 0, dt_minute = 0, dt_second = 0,
       dt_microsecond = 0\<rparr>\<rparr> = reference_date \<lparr>remaining_budget_gt = 130, annual_rate_gt = (422, 1),
     reference_date = \<lparr>dt_year = 2025, dt_month = 1, dt_day = 1, dt_hour = 0, dt_minute = 0, dt_second = 0,
       dt_microsecond = 0\<rparr>, current_time = \<lparr>dt_year = 2025, dt_month = 1, dt_day = 1, dt_hour = 0, dt_minute = 0, dt_second = 0,
       dt_microsecond = 0\<rparr>\<rparr> \<and> exact 0 = 0 \<and>
   (\<forall>x. exact (exact x) = exact x) \<and> calculate exact \<lparr>remaining_budget_gt = 130, annual_rate_gt = (422, 1),
     reference_date = \<lparr>dt_year = 2025, dt_month = 1, dt_day = 1, dt_hour = 0, dt_minute = 0, dt_second = 0,
       dt_microsecond = 0\<rparr>, current_time = \<lparr>dt_year = 2025, dt_month = 1, dt_day = 1, dt_hour = 0, dt_minute = 0, dt_second = 0,
       dt_microsecond = 0\<rparr>\<rparr> = Inr (budget_spec \<lparr>remaining_budget_gt = 130, annual_rate_gt = (422, 1),
     reference_date = \<lparr>dt_year = 2025, dt_month = 1, dt_day = 1, dt_hour = 0, dt_minute = 0, dt_second = 0,
       dt_microsecond = 0\<rparr>, current_time = \<lparr>dt_year = 2025, dt_month = 1, dt_day = 1, dt_hour = 0, dt_minute = 0, dt_second = 0,
       dt_microsecond = 0\<rparr>\<rparr>) \<and>
   current_budget_tonnes (budget_spec \<lparr>remaining_budget_gt = 130, annual_rate_gt = (422, 1),
     reference_date = \<lparr>dt_year = 2025, dt_month = 1, dt_day = 1, dt_hour = 0, dt_minute = 0, dt_second = 0,
       dt_microsecond = 0\<rparr>, current_time = \<lparr>dt_year = 2025, dt_month = 1, dt_day = 1, dt_hour = 0, dt_minute = 0, dt_second = 0,
       dt_microsecond = 0\<rparr>\<rparr>) = 130000000000"
proof -
  have h: "config_ok \<lparr>remaining_budget_gt = 130, annual_rate_gt = (422, 1),
     reference_date = \<lparr>dt_year = 2025, dt_month = 1, dt_day = 1, dt_hour = 0, dt_minute = 0, dt_second = 0,
       dt_microsecond = 0\<rparr>, current_time = \<lparr>dt_year = 2025, dt_month = 1, dt_day = 1, dt_hour = 0, dt_minute = 0, dt_second = 0,
       dt_microsecond = 0\<rparr>\<rparr>" "current_time \<lparr>remaining_budget_gt = 130, annual_rate_gt = (422, 1),
     reference_date = \<lparr>dt_year = 2025, dt_month = 1, dt_day = 1, dt_hour = 0, dt_minute = 0, dt_second = 0,
       dt_microsecond = 0\<rparr>, current_time = \<lparr>dt_year = 2025, dt_month = 1, dt_day = 1, dt_hour = 0, dt_minute = 0, dt_second = 0,
       dt_microsecond = 0\<rparr>\<rparr> = reference_date \<lparr>remaining_budget_gt = 130, annual_rate_gt = (422, 1),
     reference_date = \<lparr>dt_year = 2025, dt_month = 1, dt_day = 1, dt_hour = 0, dt_minute = 0, dt_second = 0,
       dt_microsecond = 0\<rparr>, current_time = \<lparr>dt_year = 2025, dt_month = 1, dt_day = 1, dt_hour = 0, dt_minute = 0, dt_second = 0,
       dt_microsecond = 0\<rparr>\<rparr>" "exact 0 = 0"
    "\<And>x. exact (exact x) = exact x" "calculate exact \<lparr>remaining_budget_gt = 130, annual_rate_gt = (422, 1),
     reference_date = \<lparr>dt_year = 2025, dt_month = 1, dt_day = 1, dt_hour = 0, dt_minute = 0, dt_second = 0,
       dt_microsecond = 0\<rparr>, current_time = \<lparr>dt_year = 2025, dt_month = 1, dt_day = 1, dt_hour = 0, dt_minute = 0, dt_second = 0,
       dt_microsecond = 0\<rparr>\<rparr> = Inr (budget_spec \<lparr>remaining_budget_gt = 130, annual_rate_gt = (422, 1),
     reference_date = \<lparr>dt_year = 2025, dt_month = 1, dt_day = 1, dt_hour = 0, dt_minute = 0, dt_second = 0,
       dt_microsecond = 0\<rparr>, current_time = \<lparr>dt_year = 2025, dt_month = 1, dt_day = 1, dt_hour = 0, dt_minute = 0, dt_second = 0,
       dt_microsecond = 0\<rparr>\<rparr>)"
    by (simp_all add: model_defs)
  show ?thesis using h current_budget_at_reference [where rnd = exact, OF h] by simp
qed

text \<open>The specification's scenario (130 Gt, 42.2 Gt/yr, clock at the reference date 2025-01-01):
  rate 52750000/39447 (about 1337.237 t/s), 97215355.45 seconds remaining, deadline timestamp
  386742945600/211 (2028-01-31 04:15:55 UTC).\<close>

lemma scenario_reference_instant:
  "rbind (script_config \<lparr>dt_year = 2025, dt_month = 1, dt_day = 1, dt_hour = 0, dt_minute = 0, dt_second = 0,
       dt_microsecond = 0\<rparr>) (calculate exact) =
     Inr \<lparr>time_elapsed_seconds = 0, seconds_per_year = 31557600,
          rate_tonnes_per_sec = 52750000 / 39447, budget_depleted_since_ref = 0,
          current_budget_tonnes = 130000000000, time_remaining_seconds = 20512440000 / 211,
          deadline_timestamp = 386742945600 / 211\<rparr>"
  by (simp add: model_defs)

end
