(* ===== verification/Format.thy ===== *)
theory Format
  imports PyFloat
begin

text \<open>
  The text the script prints is built by Python's formatting: \<open>str\<close> of an int
  (\<open>{REMAINING_BUDGET_GIGA_TONNES}\<close>), \<open>repr\<close> of a float written as a decimal literal
  (\<open>{ANNUAL_EMISSION_RATE_GIGA_TONNES}\<close>), the format specifications \<open>,.0f\<close>,
  \<open>,.3f\<close>, \<open>.0f\<close> and \<open>.3f\<close> (fixed point, correctly rounded half to even, with
  or without thousands separators), and the zero-padded fields of \<open>strftime\<close>. The
  results: decimal digit strings read back to the number they print, the thousands grouping
  only inserts commas (so the human-readable and the JavaScript renderings of one number agree
  digit for digit), and the fixed-point rendering reads back to the correctly rounded value.
\<close>

section \<open>Decimal digits\<close>

definition digit_char :: "nat \<Rightarrow> char" where
  "digit_char d =
     (if d = 0 then CHR ''0'' else if d = 1 then CHR ''1'' else if d = 2 then CHR ''2''
      else if d = 3 then CHR ''3'' else if d = 4 then CHR ''4'' else if d = 5 then CHR ''5''
      else if d = 6 then CHR ''6'' else if d = 7 then CHR ''7'' else if d = 8 then CHR ''8''
      else CHR ''9'')"

text \<open>\<open>str(n)\<close> of a non-negative int: its decimal digits, most significant first.\<close>

fun str_nat :: "nat \<Rightarrow> string" where
  "str_nat n = (if n < 10 then [digit_char n] else str_nat (n div 10) @ [digit_char (n mod 10)])"

declare str_nat.simps [simp del]

definition str_int :: "int \<Rightarrow> string" where
  "str_int i = (if i < 0 then CHR ''-'' # str_nat (nat (- i)) else str_nat (nat i))"

text \<open>Left padding with zeros to a minimum width (\<open>%02d\<close>, the fraction digits).\<close>

definition zero_pad :: "nat \<Rightarrow> string \<Rightarrow> string" where
  "zero_pad w s = replicate (w - length s) (CHR ''0'') @ s"

section \<open>Thousands grouping\<close>

text \<open>
  The \<open>,\<close> option inserts a comma between every group of three digits of the integer
  part, counted from the right.
\<close>

function group_thousands :: "string \<Rightarrow> string" where
  "group_thousands ds =
     (if length ds \<le> 3 then ds
      else group_thousands (take (length ds - 3) ds) @ CHR '','' # drop (length ds - 3) ds)"
  by pat_completeness auto
termination
  by (relation "measure length") auto

declare group_thousands.simps [simp del]

section \<open>Fixed-point formatting\<close>

text \<open>
  \<open>format(x, '[,].Nf')\<close> for a float \<open>x\<close>: the exact value scaled by \<open>10^N\<close> and rounded
  half to even, the integer part (grouped with \<open>,\<close> when asked), a point and \<open>N\<close>
  fraction digits when \<open>N > 0\<close>. A negative value keeps its minus sign even when it
  rounds to zero (\<open>format(-0.2, '.0f')\<close> is \<open>'-0'\<close>).
\<close>

definition format_fixed :: "bool \<Rightarrow> nat \<Rightarrow> pyfloat \<Rightarrow> string" where
  "format_fixed grouping prec x =
     (let n = nat (round_half_even (\<bar>x\<bar> * 10 ^ prec));
          ip = str_nat (n div 10 ^ prec);
          fp = zero_pad prec (str_nat (n mod 10 ^ prec))
      in (if x < 0 then ''-'' else []) @ (if grouping then group_thousands ip else ip) @
         (if prec = 0 then [] else CHR ''.'' # fp))"

section \<open>repr of a decimal float literal\<close>

text \<open>
  \<open>repr\<close> of a float is the shortest decimal string that reads back to the same float.
  For a literal of at most 15 significant digits with magnitude in \<open>[10^-4, 10^16)\<close>
  (the script's \<open>42.2\<close> is one) that string is the literal itself without trailing
  fraction zeros, keeping at least one fraction digit: \<open>42.2\<close>, \<open>42.0\<close>.
\<close>

fun strip_dec_zeros :: "int \<Rightarrow> nat \<Rightarrow> int \<times> nat" where
  "strip_dec_zeros m e =
     (if 0 < e \<and> m mod 10 = 0 then strip_dec_zeros (m div 10) (e - 1) else (m, e))"

declare strip_dec_zeros.simps [simp del]

definition repr_decimal :: "int \<times> nat \<Rightarrow> string" where
  "repr_decimal lit =
     (case lit of (m0, e0) \<Rightarrow>
       (case strip_dec_zeros m0 e0 of (m, e) \<Rightarrow>
         (if m < 0 then ''-'' else []) @ str_nat (nat \<bar>m\<bar> div 10 ^ e) @ ''.'' @
         (if e = 0 then ''0'' else zero_pad e (str_nat (nat \<bar>m\<bar> mod 10 ^ e)))))"

section \<open>Reading digits back\<close>

text \<open>The value of a string of decimal digits, and the string with its commas removed.\<close>

definition digit_value :: "char \<Rightarrow> nat" where
  "digit_value c = of_char c - 48"

definition is_digit :: "char \<Rightarrow> bool" where
  "is_digit c \<longleftrightarrow> c \<in> set ''0123456789''"

definition digits_value :: "string \<Rightarrow> nat" where
  "digits_value s = foldl (\<lambda>acc c. 10 * acc + digit_value c) 0 s"

definition strip_commas :: "string \<Rightarrow> string" where
  "strip_commas s = filter (\<lambda>c. c \<noteq> CHR '','') s"

text \<open>
  The specification of \<open>,\<close> grouping (Python's format mini-language, PEP 378): a comma
  between every group of three digits, counted from the right. Stated on the reversed
  string, where the groups are counted from the left.
\<close>

function comma_every_three :: "string \<Rightarrow> string" where
  "comma_every_three xs =
     (if length xs \<le> 3 then xs else take 3 xs @ CHR '','' # comma_every_three (drop 3 xs))"
  by pat_completeness auto
termination
  by (relation "measure length") auto

declare comma_every_three.simps [simp del]

lemmas format_defs [model_defs] =
  digit_char_def str_nat.simps str_int_def zero_pad_def group_thousands.simps
  format_fixed_def strip_dec_zeros.simps repr_decimal_def

section \<open>Properties of the formatting\<close>

lemma digit_char_cases:
  "(d::nat) < 10 \<Longrightarrow> d = 0 \<or> d = 1 \<or> d = 2 \<or> d = 3 \<or> d = 4 \<or> d = 5 \<or> d = 6 \<or> d = 7 \<or> d = 8 \<or> d = 9"
  by arith

lemma digit_char_props:
  assumes "d < 10"
  shows "digit_value (digit_char d) = d \<and> is_digit (digit_char d)"
  using digit_char_cases [OF assms]
  by (elim disjE) (simp_all add: digit_char_def digit_value_def is_digit_def)

lemma str_nat_digits: "\<forall>c \<in> set (str_nat n). is_digit c"
proof (induction n rule: str_nat.induct)
  case (1 n)
  then show ?case
    by (subst str_nat.simps) (auto simp: digit_char_props)
qed

lemma digits_value_append:
  "digits_value (xs @ ys) = digits_value xs * 10 ^ length ys + digits_value ys"
proof (induction ys rule: rev_induct)
  case Nil
  then show ?case by (simp add: digits_value_def)
next
  case (snoc y ys)
  then show ?case by (simp add: digits_value_def algebra_simps)
qed

lemma digits_value_single [simp]: "digits_value [c] = digit_value c"
  by (simp add: digits_value_def)

lemma digits_value_str_nat: "digits_value (str_nat n) = n"
proof (induction n rule: str_nat.induct)
  case (1 n)
  show ?case
  proof (cases "n < 10")
    case True
    then show ?thesis
      by (subst str_nat.simps) (simp add: digits_value_def digit_char_props)
  next
    case False
    then have "digits_value (str_nat (n div 10)) = n div 10" using "1.IH" by simp
    then show ?thesis
      using False by (subst str_nat.simps) (simp add: digits_value_append digit_char_props)
  qed
qed

lemma length_str_nat_le: "n < 10 ^ k \<Longrightarrow> 0 < k \<Longrightarrow> length (str_nat n) \<le> k"
proof (induction n arbitrary: k rule: str_nat.induct)
  case (1 n)
  show ?case
  proof (cases "n < 10")
    case True
    then show ?thesis using "1.prems" by (subst str_nat.simps) simp
  next
    case False
    then obtain k' where k: "k = Suc k'" using "1.prems" by (cases k) auto
    with False "1.prems" have "n div 10 < 10 ^ k'" "0 < k'"
      by (auto simp: div_less_iff_less_mult mult.commute intro: Nat.gr0I)
    then have "length (str_nat (n div 10)) \<le> k'" using "1.IH" False by simp
    then show ?thesis using False k by (subst str_nat.simps) simp
  qed
qed

lemma length_str_nat_eq: "10 ^ k \<le> n \<Longrightarrow> n < 10 ^ (k + 1) \<Longrightarrow> length (str_nat n) = k + 1"
proof (induction k arbitrary: n)
  case 0
  then show ?case by (subst str_nat.simps) simp
next
  case (Suc k)
  have "10 ^ k \<le> n div 10" "n div 10 < 10 ^ (k + 1)"
    using Suc.prems by (simp_all add: less_eq_div_iff_mult_less_eq div_less_iff_less_mult)
  then have "length (str_nat (n div 10)) = k + 1" by (rule Suc.IH)
  moreover have "(10::nat) \<le> 10 ^ Suc k" by simp
  then have "\<not> n < 10" using Suc.prems(1) by linarith
  ultimately show ?case by (subst str_nat.simps) simp
qed

lemma digits_value_zero_pad: "digits_value (zero_pad w s) = digits_value s"
proof -
  have "digits_value (replicate k (CHR ''0'')) = 0" for k
    by (induction k) (simp_all add: digits_value_def digit_value_def)
  then show ?thesis by (simp add: zero_pad_def digits_value_append)
qed

lemma group_thousands_filter:
  "\<not> P (CHR '','') \<Longrightarrow> filter P (group_thousands ds) = filter P ds"
proof (induction ds rule: group_thousands.induct)
  case (1 ds)
  show ?case
  proof (cases "length ds \<le> 3")
    case True
    then show ?thesis by (subst group_thousands.simps) simp
  next
    case False
    have "filter P (group_thousands (take (length ds - 3) ds)) = filter P (take (length ds - 3) ds)"
      using "1.IH" "1.prems" False by simp
    then have "filter P (group_thousands ds) =
        filter P (take (length ds - 3) ds) @ filter P (drop (length ds - 3) ds)"
      using False "1.prems" by (subst group_thousands.simps) simp
    also have "\<dots> = filter P ds"
      by (simp flip: filter_append)
    finally show ?thesis .
  qed
qed

lemma length_group_thousands:
  "ds \<noteq> [] \<Longrightarrow> length (group_thousands ds) = length ds + (length ds - 1) div 3"
proof (induction ds rule: group_thousands.induct)
  case (1 ds)
  show ?case
  proof (cases "length ds \<le> 3")
    case True
    then show ?thesis by (subst group_thousands.simps) simp
  next
    case False
    then have "length (group_thousands (take (length ds - 3) ds)) =
        (length ds - 3) + (length ds - 4) div 3"
      using "1.IH" "1.prems" by simp
    moreover have "(length ds - 4) div 3 + 1 = (length ds - 1) div 3"
      using False by simp
    ultimately show ?thesis
      using False by (subst group_thousands.simps) simp
  qed
qed

text \<open>C14: The grouping of the report's \<open>,\<close> format specs (lines 52--54) puts a comma
  between every group of three digits counted from the right, as the format specification
  prescribes: it is the left-to-right chunking of the reversed digit string, reversed.\<close>

theorem group_thousands_from_right: "group_thousands ds = rev (comma_every_three (rev ds))"
proof (induction ds rule: group_thousands.induct)
  case (1 ds)
  show ?case
  proof (cases "length ds \<le> 3")
    case True
    then show ?thesis by (simp add: group_thousands.simps comma_every_three.simps)
  next
    case False
    have d: "drop 3 (rev ds) = rev (take (length ds - 3) ds)" "take 3 (rev ds) = rev (drop (length ds - 3) ds)"
      using False by (simp_all add: rev_take rev_drop)
    have "group_thousands ds = rev (comma_every_three (drop 3 (rev ds))) @ CHR '','' # drop (length ds - 3) ds"
      using "1.IH" False d(1) by (subst group_thousands.simps) simp
    also have "\<dots> = rev (comma_every_three (rev ds))"
      using False d(2) by (subst (2) comma_every_three.simps) simp
    finally show ?thesis .
  qed
qed

lemma is_digit_not_sep: "\<not> is_digit (CHR '','')" "\<not> is_digit (CHR ''-'')" "\<not> is_digit (CHR ''.'')"
  "is_digit (CHR ''0'')"
  by (simp_all add: is_digit_def)

lemma filter_is_digit_str_nat: "filter is_digit (str_nat n) = str_nat n"
  using str_nat_digits [of n] by (simp add: filter_id_conv)

lemma filter_is_digit_zero_pad: "filter is_digit (zero_pad w (str_nat n)) = zero_pad w (str_nat n)"
  by (simp add: zero_pad_def filter_is_digit_str_nat is_digit_not_sep)

lemma str_nat_no_comma: "CHR '','' \<notin> set (str_nat n)"
  using str_nat_digits [of n] is_digit_not_sep(1) by blast

lemma filter_not_comma: "CHR '','' \<notin> set s \<Longrightarrow> filter (\<lambda>c. c \<noteq> CHR '','') s = s"
  by (induction s) auto

text \<open>The thousands-grouped rendering (\<open>,.Nf\<close>, the report's lines 52--54) with its commas
  removed is exactly the ungrouped rendering (\<open>.Nf\<close>, the JavaScript export of lines 58--59).\<close>

lemma format_fixed_strip_commas:
  "strip_commas (format_fixed True prec x) = format_fixed False prec x"
proof -
  have z: "CHR '','' \<notin> set (zero_pad w (str_nat k))" for w k
    using str_nat_no_comma [of k] by (auto simp: zero_pad_def)
  show ?thesis
    by (simp add: format_fixed_def strip_commas_def Let_def group_thousands_filter
        filter_not_comma str_nat_no_comma z)
qed

text \<open>C13: The digits a fixed-point rendering prints, read as one decimal number, are the argument's
  magnitude scaled by \<open>10^N\<close> and rounded half to even: the text denotes the correctly rounded
  value, for every precision, with or without grouping.\<close>

theorem format_fixed_digits:
  "digits_value (filter is_digit (format_fixed grouping prec x)) =
     nat (round_half_even (\<bar>x\<bar> * 10 ^ prec))"
proof -
  define n where "n = nat (round_half_even (\<bar>x\<bar> * 10 ^ prec))"
  have ff: "format_fixed grouping prec x =
      (if x < 0 then ''-'' else []) @
      (if grouping then group_thousands (str_nat (n div 10 ^ prec)) else str_nat (n div 10 ^ prec)) @
      (if prec = 0 then [] else CHR ''.'' # zero_pad prec (str_nat (n mod 10 ^ prec)))"
    unfolding format_fixed_def n_def Let_def ..
  have ip: "filter is_digit (if grouping then group_thousands (str_nat (n div 10 ^ prec))
                               else str_nat (n div 10 ^ prec)) = str_nat (n div 10 ^ prec)"
    by (simp add: group_thousands_filter is_digit_not_sep filter_is_digit_str_nat)
  have sg: "filter is_digit (if x < 0 then ''-'' else []) = []"
    by (simp add: is_digit_not_sep)
  show ?thesis
    unfolding n_def [symmetric] ff
  proof (cases "prec = 0")
    case True
    then show "digits_value (filter is_digit ((if x < 0 then ''-'' else []) @
      (if grouping then group_thousands (str_nat (n div 10 ^ prec)) else str_nat (n div 10 ^ prec)) @
      (if prec = 0 then [] else CHR ''.'' # zero_pad prec (str_nat (n mod 10 ^ prec))))) = n"
      using ip sg by (simp add: digits_value_str_nat)
  next
    case False
    have "length (str_nat (n mod 10 ^ prec)) \<le> prec"
      using False by (intro length_str_nat_le) simp_all
    then have len: "length (zero_pad prec (str_nat (n mod 10 ^ prec))) = prec"
      by (simp add: zero_pad_def)
    have "digits_value (str_nat (n div 10 ^ prec) @ zero_pad prec (str_nat (n mod 10 ^ prec))) = n"
      by (simp add: digits_value_append len digits_value_zero_pad digits_value_str_nat
          div_mult_mod_eq)
    then show "digits_value (filter is_digit ((if x < 0 then ''-'' else []) @
      (if grouping then group_thousands (str_nat (n div 10 ^ prec)) else str_nat (n div 10 ^ prec)) @
      (if prec = 0 then [] else CHR ''.'' # zero_pad prec (str_nat (n mod 10 ^ prec))))) = n"
      using ip sg False by (simp add: is_digit_not_sep filter_is_digit_zero_pad)
  qed
qed

end
