(* ===== verification/Offtime.thy ===== *)
theory Offtime
  imports Calendar "HOL-Library.While_Combinator"
begin

text \<open>
  glibc's \<open>gmtime_r\<close>, which \<open>datetime.fromtimestamp(..., tz=timezone.utc)\<close>
  (line 62) calls through CPython's \<open>_PyTime_gmtime\<close>: \<open>__offtime (t, 0, tp)\<close> of
  time/offtime.c, with its two loops that move whole days out of the seconds, its year loop
  (guess the year from 365-day years, correct by the leap days skipped, repeat), its month
  search over \<open>__mon_yday\<close> and its \<open>EOVERFLOW\<close> when the year does not fit
  \<open>tm_year\<close>. The main results: the year loop stops (as a \<open>while\<close> loop) and its
  result is characterised exactly by the Gregorian day count; \<open>gmtime\<close> of the seconds
  of a valid date and clock time returns that date and time.
\<close>

section \<open>glibc \<open>__offtime\<close>\<close>

definition SECS_PER_HOUR :: int where "SECS_PER_HOUR = 60 * 60"
definition SECS_PER_DAY :: int where "SECS_PER_DAY = SECS_PER_HOUR * 24"

text \<open>The macros \<open>DIV\<close> (flooring division written with C's truncating one),
  \<open>LEAPS_THRU_END_OF\<close> and \<open>__isleap\<close>, on \<open>__time64_t\<close> values.\<close>

definition c_DIV :: "int \<Rightarrow> int \<Rightarrow> int" where
  "c_DIV a b = a sdiv b - (if a smod b < 0 then 1 else 0)"

definition leaps_thru_end_of :: "int \<Rightarrow> int" where
  "leaps_thru_end_of y = c_DIV y 4 - c_DIV y 100 + c_DIV y 400"

definition glibc_isleap :: "int \<Rightarrow> bool" where
  "glibc_isleap y \<longleftrightarrow> y smod 4 = 0 \<and> (y smod 100 \<noteq> 0 \<or> y smod 400 = 0)"

definition year_length :: "int \<Rightarrow> int" where
  "year_length y = (if glibc_isleap y then 366 else 365)"

text \<open>The two loops that bring \<open>rem\<close> into \<open>[0, SECS_PER_DAY)\<close>, moving whole days
  into \<open>days\<close>.\<close>

function rem_up :: "int \<Rightarrow> int \<Rightarrow> int \<times> int" where
  "rem_up rem days = (if rem < 0 then rem_up (rem + SECS_PER_DAY) (days - 1) else (rem, days))"
  by pat_completeness auto
termination
  by (relation "measure (\<lambda>(rem, days). nat (- rem))") (auto simp: SECS_PER_DAY_def SECS_PER_HOUR_def)

function rem_down :: "int \<Rightarrow> int \<Rightarrow> int \<times> int" where
  "rem_down rem days =
     (if rem \<ge> SECS_PER_DAY then rem_down (rem - SECS_PER_DAY) (days + 1) else (rem, days))"
  by pat_completeness auto
termination
  by (relation "measure (\<lambda>(rem, days). nat rem)") (auto simp: SECS_PER_DAY_def SECS_PER_HOUR_def)

text \<open>
  The year loop: guess the year assuming 365-day years, correct \<open>days\<close> by the days of
  the years skipped, and repeat until \<open>days\<close> lies inside year \<open>y\<close>. Its termination
  is the measure of the \<open>termination\<close> proof below: a negative \<open>days\<close> becomes
  non-negative in one step, and a non-negative one strictly decreases.
\<close>

function offtime_year :: "int \<Rightarrow> int \<Rightarrow> int \<times> int" where
  "offtime_year days y =
     (if days < 0 \<or> days \<ge> year_length y
      then (let yg = y + days sdiv 365 - (if days smod 365 < 0 then 1 else 0)
            in offtime_year
                 (days - ((yg - y) * 365 + leaps_thru_end_of (yg - 1) - leaps_thru_end_of (y - 1)))
                 yg)
      else (days, y))"
  by pat_completeness auto
termination
proof (relation "measure (\<lambda>(days, y). nat (if days < 0 then 400 - 2 * days else days))")
  show "wf (measure (\<lambda>(days, y). nat (if days < 0 then 400 - 2 * days else days)))" by simp
next
  fix days y yg
  assume guard: "days < 0 \<or> days \<ge> year_length y"
    and yg: "yg = y + days sdiv 365 - (if days smod 365 < 0 then 1 else 0)"
  have lte: "leaps_thru_end_of x = x div 4 - x div 100 + x div 400" for x
    using sdiv_smod_floor [of 4 x] sdiv_smod_floor [of 100 x] sdiv_smod_floor [of 400 x]
    by (simp add: leaps_thru_end_of_def c_DIV_def)
  have leap: "glibc_isleap y \<longleftrightarrow> greg_leap y"
    by (simp add: glibc_isleap_def greg_leap_def smod_eq_0_iff)
  define q where "q = days div 365"
  define r where "r = days mod 365"
  have yq: "yg = y + q" using yg sdiv_smod_floor [of 365 days] by (simp add: q_def)
  have dqr: "days = 365 * q + r" and r: "0 \<le> r" "r < 365"
    by (simp_all add: q_def r_def)
  define L where "L = leaps_thru_end_of (yg - 1) - leaps_thru_end_of (y - 1)"
  have nd: "days - ((yg - y) * 365 + leaps_thru_end_of (yg - 1) - leaps_thru_end_of (y - 1)) =
             r - L"
    by (simp add: L_def yq dqr)
  have q4: "4 * (q div 4) \<le> q" "4 * ((- q) div 4) \<le> - q"
    using pos_mod_sign [of 4 q] pos_mod_sign [of 4 "- q"]
      mult_div_mod_eq [of 4 q] mult_div_mod_eq [of 4 "- q"] by linarith+
  have key: "nat (if r - L < 0 then 400 - 2 * (r - L) else r - L) <
              nat (if days < 0 then 400 - 2 * days else days)"
  proof (cases "days < 0")
    case False
    then have q0: "0 \<le> q" using dqr r by linarith
    have Lb: "0 \<le> L \<and> L \<le> q div 4 + 1"
      using leap_count_bounds [OF q0, of "y - 1"] yq by (simp add: L_def lte algebra_simps)
    have "365 \<le> year_length y" by (simp add: year_length_def)
    then have "1 \<le> q" using guard False dqr r by linarith
    show ?thesis
    proof (cases "q = 1")
      case True
      have "L = (if greg_leap y then 1 else 0)"
        using leap_count_one [of y] True yq by (simp add: L_def lte)
      then have "L \<le> days - 365" using guard False leap dqr True
        by (auto simp: year_length_def split: if_splits)
      then show ?thesis using True dqr r False Lb by simp
    next
      case False
      then show ?thesis using dqr r Lb q4 \<open>1 \<le> q\<close> \<open>\<not> days < 0\<close>
        by simp
    qed
  next
    case True
    then have qn: "q < 0" using dqr r by linarith
    have Lb: "0 \<le> - L \<and> - L \<le> (- q) div 4 + 1"
      using leap_count_bounds [of "- q" "yg - 1"] qn yq by (simp add: L_def lte algebra_simps)
    show ?thesis using dqr r Lb q4 qn True
      by simp
  qed
  then show "((days - ((yg - y) * 365 + leaps_thru_end_of (yg - 1) - leaps_thru_end_of (y - 1)), yg),
          (days, y)) \<in> measure (\<lambda>(days, y). nat (if days < 0 then 400 - 2 * days else days))"
    unfolding nd by simp
qed

text \<open>One pass of the body of the year loop, as a step on the pair \<open>(days, y)\<close>.\<close>

definition offtime_year_body :: "int \<times> int \<Rightarrow> int \<times> int" where
  "offtime_year_body s = (case s of (days, y) \<Rightarrow>
     let yg = y + days sdiv 365 - (if days smod 365 < 0 then 1 else 0)
     in (days - ((yg - y) * 365 + leaps_thru_end_of (yg - 1) - leaps_thru_end_of (y - 1)), yg))"

declare rem_up.simps [simp del] rem_down.simps [simp del] offtime_year.simps [simp del]

text \<open>\<open>__mon_yday\<close>: the days before each month, for common and leap years, with
  the year length last.\<close>

definition mon_yday :: "int list list" where
  "mon_yday =
     [[0, 31, 59, 90, 120, 151, 181, 212, 243, 273, 304, 334, 365],
      [0, 31, 60, 91, 121, 152, 182, 213, 244, 274, 305, 335, 366]]"

text \<open>\<open>for (y = 11; days < (long int) ip[y]; --y) continue;\<close> The loop stops at
  index 0 at the latest, since \<open>ip[0] = 0 \<le> days\<close> after the year loop.\<close>

primrec month_search :: "int list \<Rightarrow> int \<Rightarrow> nat \<Rightarrow> nat" where
  "month_search ip days 0 = 0"
| "month_search ip days (Suc m) =
     (if days < ip ! Suc m then month_search ip days m else Suc m)"

text \<open>\<open>struct tm\<close>, the fields \<open>__offtime\<close> sets.\<close>

record tm =
  tm_sec :: int
  tm_min :: int
  tm_hour :: int
  tm_mday :: int
  tm_mon :: int
  tm_year :: int
  tm_wday :: int
  tm_yday :: int

text \<open>
  \<open>__offtime (t, offset, tp)\<close>: \<open>None\<close> is the return value 0 with \<open>errno = EOVERFLOW\<close>,
  when the year minus 1900 does not fit the C \<open>int\<close> field \<open>tm_year\<close>.
\<close>

definition offtime :: "int \<Rightarrow> int \<Rightarrow> tm option" where
  "offtime t offset =
     (let days = t sdiv SECS_PER_DAY;
          rem = t smod SECS_PER_DAY + offset;
          (rem, days) = rem_up rem days;
          (rem, days) = rem_down rem days;
          hour = rem sdiv SECS_PER_HOUR;
          rem = rem smod SECS_PER_HOUR;
          min = rem sdiv 60;
          sec = rem smod 60;
          wday = (4 + days) smod 7;
          wday = (if wday < 0 then wday + 7 else wday);
          (days, y) = offtime_year days 1970
      in if \<not> fits_int32 (y - 1900) then None
         else
           (let ip = mon_yday ! (if glibc_isleap y then 1 else 0);
                m = month_search ip days 11
            in Some \<lparr>tm_sec = sec, tm_min = min, tm_hour = hour, tm_mday = days - ip ! m + 1,
                     tm_mon = int m, tm_year = y - 1900, tm_wday = wday, tm_yday = days\<rparr>))"

text \<open>\<open>gmtime_r\<close> without a leap-second time zone file: \<open>__offtime (t, 0, tp)\<close>.\<close>

definition gmtime :: "int \<Rightarrow> tm option" where
  "gmtime t = offtime t 0"

section \<open>The Gregorian day count\<close>

text \<open>The days from 0001-01-01 to the first day of year \<open>y\<close> of the proleptic Gregorian
  calendar, for every integer \<open>y\<close> (flooring division).\<close>

definition greg_days_before_year :: "int \<Rightarrow> int" where
  "greg_days_before_year y = (y - 1) * 365 + (y - 1) div 4 - (y - 1) div 100 + (y - 1) div 400"

lemmas offtime_defs [model_defs] =
  SECS_PER_HOUR_def SECS_PER_DAY_def c_DIV_def leaps_thru_end_of_def glibc_isleap_def
  year_length_def offtime_year_body_def mon_yday_def offtime_def gmtime_def

section \<open>Lemmas on the year loop\<close>

lemma leaps_thru_end_of_eq: "leaps_thru_end_of x = x div 4 - x div 100 + x div 400"
  using sdiv_smod_floor [of 4 x] sdiv_smod_floor [of 100 x] sdiv_smod_floor [of 400 x]
  by (simp add: leaps_thru_end_of_def c_DIV_def)

lemma glibc_isleap_iff: "glibc_isleap y \<longleftrightarrow> greg_leap y"
  by (simp add: glibc_isleap_def greg_leap_def smod_eq_0_iff)

lemma year_length_eq: "year_length y = year_days y"
  by (simp add: year_length_def year_days_def glibc_isleap_iff)

lemma greg_days_before_year_succ:
  "greg_days_before_year (y + 1) = greg_days_before_year y + year_days y"
  using leap_count_one [of y]
  by (simp add: greg_days_before_year_def year_days_def split: if_splits)

lemma greg_days_before_year_less:
  assumes "y < y'"
  shows "greg_days_before_year y + year_days y \<le> greg_days_before_year y'"
  using assms
proof (induction y' rule: int_gr_induct)
  case base
  then show ?case by (simp add: greg_days_before_year_succ)
next
  case (step i)
  then show ?case
    using greg_days_before_year_succ [of i] by (simp add: year_days_def split: if_splits)
qed

lemma year_of_day_unique:
  assumes "0 \<le> d" "d < year_days y" "0 \<le> d'" "d' < year_days y'"
    and "greg_days_before_year y + d = greg_days_before_year y' + d'"
  shows "y = y' \<and> d = d'"
proof -
  have "\<not> y < y'" using greg_days_before_year_less [of y y'] assms by linarith
  moreover have "\<not> y' < y" using greg_days_before_year_less [of y' y] assms by linarith
  ultimately show ?thesis using assms by simp
qed

lemma days_before_year_eq_greg: "1 \<le> y \<Longrightarrow> days_before_year y = greg_days_before_year y"
  by (simp add: days_before_year_def greg_days_before_year_def Let_def)

lemma offtime_year_inv:
  "offtime_year days y = (d', y') \<Longrightarrow>
     0 \<le> d' \<and> d' < year_days y' \<and>
     greg_days_before_year y' + d' = greg_days_before_year y + days"
proof (induction days y rule: offtime_year.induct)
  case (1 days y)
  show ?case
  proof (cases "days < 0 \<or> days \<ge> year_length y")
    case True
    define yg where "yg = y + days sdiv 365 - (if days smod 365 < 0 then 1 else 0)"
    have r: "offtime_year days y =
      offtime_year (days - ((yg - y) * 365 + leaps_thru_end_of (yg - 1) - leaps_thru_end_of (y - 1))) yg"
      using True by (subst offtime_year.simps) (simp add: yg_def Let_def)
    have "greg_days_before_year yg + (days - ((yg - y) * 365 + leaps_thru_end_of (yg - 1) -
            leaps_thru_end_of (y - 1))) = greg_days_before_year y + days"
      by (simp add: greg_days_before_year_def leaps_thru_end_of_eq algebra_simps)
    then show ?thesis using 1(1) [OF True yg_def] 1(2) r by simp
  next
    case False
    then have "offtime_year days y = (days, y)" by (subst offtime_year.simps) simp
    then show ?thesis using 1(2) False by (auto simp: year_length_eq)
  qed
qed

lemma offtime_year_result:
  assumes "0 \<le> d" "d < year_days Y"
    and "greg_days_before_year Y + d = greg_days_before_year y + days"
  shows "offtime_year days y = (d, Y)"
proof -
  obtain d' y' where e: "offtime_year days y = (d', y')" by fastforce
  from offtime_year_inv [OF e] assms year_of_day_unique [of d Y d' y'] show ?thesis
    using e by auto
qed

section \<open>Lemmas on days, seconds and months\<close>

lemma rem_up_step: "- SECS_PER_DAY \<le> rem \<Longrightarrow>
  rem_up rem days = (if rem < 0 then (rem + SECS_PER_DAY, days - 1) else (rem, days))"
  by (subst rem_up.simps, subst rem_up.simps) simp

lemma rem_down_step: "rem < 2 * SECS_PER_DAY \<Longrightarrow>
  rem_down rem days = (if rem \<ge> SECS_PER_DAY then (rem - SECS_PER_DAY, days + 1) else (rem, days))"
  by (subst rem_down.simps, subst rem_down.simps) simp

lemma offtime_days_rem:
  "rem_down (fst (rem_up (t smod SECS_PER_DAY + 0) (t sdiv SECS_PER_DAY)))
            (snd (rem_up (t smod SECS_PER_DAY + 0) (t sdiv SECS_PER_DAY))) =
   (t mod SECS_PER_DAY, t div SECS_PER_DAY)"
proof -
  have p: "0 < SECS_PER_DAY" by (simp add: SECS_PER_DAY_def SECS_PER_HOUR_def)
  have b: "- SECS_PER_DAY < t smod SECS_PER_DAY" "t smod SECS_PER_DAY < SECS_PER_DAY"
    using smod_bounds [OF p] by auto
  show ?thesis
    using b sdiv_smod_floor [OF p, of t] smod_floor [OF p, of t] p
    by (simp add: rem_up_step rem_down_step split: if_splits)
qed

text \<open>The month search evaluates on a numeral bound, as the C loop counts down from 11.\<close>

lemma month_search_numeral [simp]:
  "month_search ip days (numeral k) =
     (if days < ip ! numeral k then month_search ip days (pred_numeral k) else numeral k)"
  by (simp add: numeral_eq_Suc)

lemma month_search_eq:
  "k \<le> m \<Longrightarrow> ip ! k \<le> d \<Longrightarrow> (\<forall>j. k < j \<and> j \<le> m \<longrightarrow> d < ip ! j) \<Longrightarrow>
   month_search ip d m = k"
proof (induction m)
  case 0
  then show ?case by simp
next
  case (Suc m)
  show ?case
  proof (cases "k = Suc m")
    case True
    then show ?thesis using Suc.prems by simp
  next
    case False
    then show ?thesis using Suc by simp
  qed
qed

lemma mon_yday_nth:
  assumes "1 \<le> m" "m \<le> 12"
  shows "mon_yday ! (if is_leap y then 1 else 0) ! nat (m - 1) = days_before_month y m \<and>
         mon_yday ! (if is_leap y then 1 else 0) ! nat m = days_before_month y m + days_in_month y m"
  using month_cases [OF assms] by (cases "is_leap y"; elim disjE)
    (simp_all add: mon_yday_def days_before_month_def days_in_month_def
      days_before_month_tbl_def days_in_month_tbl_def)

lemma mon_yday_sorted: "sorted (mon_yday ! (if b then 1 else 0)) \<and> length (mon_yday ! (if b then 1 else 0)) = 13"
  by (simp add: mon_yday_def)

lemma month_search_mon_yday:
  assumes "1 \<le> m" "m \<le> 12" "1 \<le> d" "d \<le> days_in_month y m"
  shows "month_search (mon_yday ! (if is_leap y then 1 else 0)) (days_before_month y m + d - 1) 11
         = nat (m - 1)"
proof (rule month_search_eq)
  let ?ip = "mon_yday ! (if is_leap y then 1 else 0)"
  have t: "?ip ! nat (m - 1) = days_before_month y m"
    "?ip ! nat m = days_before_month y m + days_in_month y m"
    using mon_yday_nth [OF assms(1,2)] by simp_all
  show "nat (m - 1) \<le> 11" using assms by simp
  show "?ip ! nat (m - 1) \<le> days_before_month y m + d - 1" using t assms by simp
  show "\<forall>j. nat (m - 1) < j \<and> j \<le> 11 \<longrightarrow> days_before_month y m + d - 1 < ?ip ! j"
  proof (intro allI impI)
    fix j assume j: "nat (m - 1) < j \<and> j \<le> 11"
    then have "?ip ! nat m \<le> ?ip ! j"
      using mon_yday_sorted [of "is_leap y"] assms by (intro sorted_nth_mono) auto
    then show "days_before_month y m + d - 1 < ?ip ! j" using t assms by simp
  qed
qed

lemma day_clock_split:
  assumes "0 \<le> h" "h < 24" "0 \<le> mi" "mi < 60" "0 \<le> s" "s < 60"
  shows "(N * SECS_PER_DAY + (h * 3600 + mi * 60 + s)) div SECS_PER_DAY = N \<and>
         (N * SECS_PER_DAY + (h * 3600 + mi * 60 + s)) mod SECS_PER_DAY = h * 3600 + mi * 60 + s \<and>
         (h * 3600 + mi * 60 + s) div SECS_PER_HOUR = h \<and>
         (h * 3600 + mi * 60 + s) mod SECS_PER_HOUR = mi * 60 + s \<and>
         (mi * 60 + s) div 60 = mi \<and> (mi * 60 + s) mod 60 = s"
proof -
  have r: "0 \<le> h * 3600 + mi * 60 + s" "h * 3600 + mi * 60 + s < 86400"
    "0 \<le> mi * 60 + s" "mi * 60 + s < 3600"
    using assms by linarith+
  have e: "h * 3600 + mi * 60 + s = h * 3600 + (mi * 60 + s)" by simp
  show ?thesis
    using div_mod_split [OF r(1,2), of N] div_mod_split [OF r(3,4), of h]
      div_mod_split [of s 60 mi] assms
    unfolding SECS_PER_DAY_def SECS_PER_HOUR_def e by simp
qed

lemma gmtime_ymd:
  assumes v: "valid_date Y M D" and c: "0 \<le> h" "h < 24" "0 \<le> mi" "mi < 60" "0 \<le> s" "s < 60"
    and t: "t = (ymd_to_ord Y M D - ymd_to_ord 1970 1 1) * SECS_PER_DAY + (h * 3600 + mi * 60 + s)"
  shows "gmtime t = Some \<lparr>tm_sec = s, tm_min = mi, tm_hour = h, tm_mday = D, tm_mon = M - 1,
           tm_year = Y - 1900, tm_wday = (4 + (ymd_to_ord Y M D - ymd_to_ord 1970 1 1)) mod 7,
           tm_yday = days_before_month Y M + D - 1\<rparr>"
proof -
  define N where "N = ymd_to_ord Y M D - ymd_to_ord 1970 1 1"
  define R where "R = h * 3600 + mi * 60 + s"
  have vd: "1 \<le> Y" "Y \<le> 9999" "1 \<le> M" "M \<le> 12" "1 \<le> D" "D \<le> days_in_month Y M"
    using v by (auto simp: valid_date_def MINYEAR_def MAXYEAR_def)
  have sp: "0 < SECS_PER_DAY" "0 < (7::int)" by (simp_all add: SECS_PER_DAY_def SECS_PER_HOUR_def)
  have split: "t div SECS_PER_DAY = N" "t mod SECS_PER_DAY = R" "R div SECS_PER_HOUR = h"
    "R mod SECS_PER_HOUR = mi * 60 + s" "(mi * 60 + s) div 60 = mi" "(mi * 60 + s) mod 60 = s"
    using day_clock_split [OF c, of N] unfolding t N_def [symmetric] R_def [symmetric] by simp_all
  have R0: "0 \<le> R" "0 \<le> mi * 60 + s" using c by (simp_all add: R_def)
  obtain r1 d1 where ru: "rem_up (t smod SECS_PER_DAY) (t sdiv SECS_PER_DAY) = (r1, d1)"
    by fastforce
  have rd: "rem_down r1 d1 = (R, N)"
    using offtime_days_rem [of t] ru split by simp
  have oy: "offtime_year N 1970 = (days_before_month Y M + D - 1, Y)"
  proof (rule offtime_year_result)
    show "0 \<le> days_before_month Y M + D - 1" using days_month_bounds [of M Y] vd by simp
    show "days_before_month Y M + D - 1 < year_days Y"
      using days_before_month_end [of M Y] vd by simp
    show "greg_days_before_year Y + (days_before_month Y M + D - 1) =
          greg_days_before_year 1970 + N"
      using vd by (simp add: N_def ymd_to_ord_def days_before_year_eq_greg
          days_before_month_def days_before_month_tbl_def greg_days_before_year_def)
  qed
  have leap: "glibc_isleap Y = is_leap Y"
    using vd by (simp add: glibc_isleap_iff is_leap_iff_greg_leap)
  have ms: "month_search (mon_yday ! (if is_leap Y then 1 else 0)) (days_before_month Y M + D - 1) 11
            = nat (M - 1)"
    using month_search_mon_yday [of M D Y] vd by simp
  have tb: "mon_yday ! (if is_leap Y then 1 else 0) ! nat (M - 1) = days_before_month Y M"
    using mon_yday_nth [of M Y] vd by simp
  have fits: "fits_int32 (Y - 1900)" using vd by (simp add: fits_int32_iff)
  have wd: "(4 + N) smod 7 < 0 \<Longrightarrow> (4 + N) smod 7 + 7 = (4 + N) mod 7"
    "\<not> (4 + N) smod 7 < 0 \<Longrightarrow> (4 + N) smod 7 = (4 + N) mod 7"
    using smod_floor [of 7 "4 + N"] by simp_all
  have hp: "0 < SECS_PER_HOUR" by (simp add: SECS_PER_HOUR_def)
  have sm: "R sdiv SECS_PER_HOUR = h" "R smod SECS_PER_HOUR = mi * 60 + s"
    "(mi * 60 + s) sdiv 60 = mi" "(mi * 60 + s) smod 60 = s"
    using split R0 hp by simp_all
  show ?thesis
    unfolding gmtime_def offtime_def Let_def N_def [symmetric]
    using ru rd oy leap ms tb fits vd wd sm
    by (simp add: split_def)
qed

lemma offtime_year_step:
  "offtime_year days y =
     (if days < 0 \<or> year_length y \<le> days
      then (case offtime_year_body (days, y) of (d', y') \<Rightarrow> offtime_year d' y') else (days, y))"
  by (subst offtime_year.simps) (simp add: offtime_year_body_def Let_def)

lemma gmtime_Some:
  assumes "gmtime t = Some tm"
  shows "greg_days_before_year (tm_year tm + 1900) + tm_yday tm =
           greg_days_before_year 1970 + t div SECS_PER_DAY \<and>
         0 \<le> tm_yday tm \<and> tm_yday tm < year_days (tm_year tm + 1900) \<and> fits_int32 (tm_year tm)"
proof -
  obtain r1 d1 where ru: "rem_up (t smod SECS_PER_DAY) (t sdiv SECS_PER_DAY) = (r1, d1)"
    by fastforce
  have rd: "rem_down r1 d1 = (t mod SECS_PER_DAY, t div SECS_PER_DAY)"
    using offtime_days_rem [of t] ru by simp
  obtain dy Y where oy: "offtime_year (t div SECS_PER_DAY) 1970 = (dy, Y)" by fastforce
  have fits: "fits_int32 (Y - 1900)" and tm: "tm_year tm = Y - 1900" "tm_yday tm = dy"
    using assms ru rd oy by (auto simp: gmtime_def offtime_def Let_def split: if_splits)
  show ?thesis using offtime_year_inv [OF oy] fits tm by simp
qed

text \<open>The closed form of \<open>gmtime\<close> and the fields it gives on the years 1..9999.\<close>

lemma gmtime_eq:
  "gmtime t =
     (case offtime_year (t div SECS_PER_DAY) 1970 of (dy, Y) \<Rightarrow>
        if \<not> fits_int32 (Y - 1900) then None
        else
          (let ip = mon_yday ! (if glibc_isleap Y then 1 else 0);
               m = month_search ip dy 11;
               R = t mod SECS_PER_DAY
           in Some \<lparr>tm_sec = R mod SECS_PER_HOUR mod 60, tm_min = R mod SECS_PER_HOUR div 60,
                    tm_hour = R div SECS_PER_HOUR, tm_mday = dy - ip ! m + 1, tm_mon = int m,
                    tm_year = Y - 1900, tm_wday = (4 + t div SECS_PER_DAY) mod 7,
                    tm_yday = dy\<rparr>))"
proof -
  obtain r1 d1 where ru: "rem_up (t smod SECS_PER_DAY) (t sdiv SECS_PER_DAY) = (r1, d1)"
    by fastforce
  have rd: "rem_down r1 d1 = (t mod SECS_PER_DAY, t div SECS_PER_DAY)"
    using offtime_days_rem [of t] ru by simp
  have p: "0 < SECS_PER_DAY" "0 < SECS_PER_HOUR"
    by (simp_all add: SECS_PER_DAY_def SECS_PER_HOUR_def)
  define R where "R = t mod SECS_PER_DAY"
  have R0: "0 \<le> R" "0 \<le> R mod SECS_PER_HOUR" using p by (simp_all add: R_def)
  have sm: "R sdiv SECS_PER_HOUR = R div SECS_PER_HOUR" "R smod SECS_PER_HOUR = R mod SECS_PER_HOUR"
    "R mod SECS_PER_HOUR sdiv 60 = R mod SECS_PER_HOUR div 60"
    "R mod SECS_PER_HOUR smod 60 = R mod SECS_PER_HOUR mod 60"
    using R0 p by simp_all
  have wd: "(4 + t div SECS_PER_DAY) smod 7 < 0 \<Longrightarrow>
              (4 + t div SECS_PER_DAY) smod 7 + 7 = (4 + t div SECS_PER_DAY) mod 7"
    "\<not> (4 + t div SECS_PER_DAY) smod 7 < 0 \<Longrightarrow>
              (4 + t div SECS_PER_DAY) smod 7 = (4 + t div SECS_PER_DAY) mod 7"
    using smod_floor [of 7 "4 + t div SECS_PER_DAY"] by simp_all
  show ?thesis
    unfolding gmtime_def offtime_def Let_def
    using ru rd sm wd by (simp add: R_def [symmetric] split: prod.splits)
qed


lemma month_search_bounds:
  assumes "ip ! 0 \<le> d"
  shows "month_search ip d m \<le> m \<and> ip ! month_search ip d m \<le> d \<and>
         (month_search ip d m < m \<longrightarrow> d < ip ! Suc (month_search ip d m))"
  using assms by (induction m) (auto simp: less_Suc_eq)

lemma mon_yday_last: "mon_yday ! (if is_leap y then 1 else 0) ! 12 = 365 + (if is_leap y then 1 else 0)"
  by (simp add: mon_yday_def)

lemma gmtime_fields:
  assumes g: "gmtime t = Some tm" and y: "1 \<le> tm_year tm + 1900" "tm_year tm + 1900 \<le> 9999"
  shows "valid_date (tm_year tm + 1900) (tm_mon tm + 1) (tm_mday tm) \<and>
         0 \<le> tm_hour tm \<and> tm_hour tm < 24 \<and> 0 \<le> tm_min tm \<and> tm_min tm < 60 \<and>
         0 \<le> tm_sec tm \<and> tm_sec tm < 60 \<and>
         (ymd_to_ord (tm_year tm + 1900) (tm_mon tm + 1) (tm_mday tm) - ymd_to_ord 1970 1 1)
           * SECS_PER_DAY + (tm_hour tm * 3600 + tm_min tm * 60 + tm_sec tm) = t"
proof -
  obtain dy Y where oy: "offtime_year (t div SECS_PER_DAY) 1970 = (dy, Y)" by fastforce
  define ip where "ip = mon_yday ! (if is_leap Y then 1 else 0)"
  define k where "k = month_search ip dy 11"
  define R where "R = t mod SECS_PER_DAY"
  have fits: "fits_int32 (Y - 1900)" using g oy by (simp add: gmtime_eq split: if_splits)
  have inv: "0 \<le> dy" "dy < year_days Y"
    "greg_days_before_year Y + dy = greg_days_before_year 1970 + t div SECS_PER_DAY"
    using offtime_year_inv [OF oy] by simp_all
  define ipg where "ipg = mon_yday ! (if glibc_isleap Y then 1 else 0)"
  have tm0: "gmtime t = Some \<lparr>tm_sec = R mod SECS_PER_HOUR mod 60, tm_min = R mod SECS_PER_HOUR div 60,
                    tm_hour = R div SECS_PER_HOUR, tm_mday = dy - ipg ! month_search ipg dy 11 + 1,
                    tm_mon = int (month_search ipg dy 11),
                    tm_year = Y - 1900, tm_wday = (4 + t div SECS_PER_DAY) mod 7, tm_yday = dy\<rparr>"
    using oy fits unfolding gmtime_eq by (simp add: ipg_def R_def Let_def del: month_search_numeral)
  have tmg: "tm = \<lparr>tm_sec = R mod SECS_PER_HOUR mod 60, tm_min = R mod SECS_PER_HOUR div 60,
                    tm_hour = R div SECS_PER_HOUR, tm_mday = dy - ipg ! month_search ipg dy 11 + 1,
                    tm_mon = int (month_search ipg dy 11),
                    tm_year = Y - 1900, tm_wday = (4 + t div SECS_PER_DAY) mod 7, tm_yday = dy\<rparr>"
    using g tm0 by (metis option.inject)
  have vd: "1 \<le> Y" "Y \<le> 9999" using y tmg by simp_all
  have leap: "glibc_isleap Y = is_leap Y"
    using vd by (simp add: glibc_isleap_iff is_leap_iff_greg_leap)
  have tm: "tm = \<lparr>tm_sec = R mod SECS_PER_HOUR mod 60, tm_min = R mod SECS_PER_HOUR div 60,
                    tm_hour = R div SECS_PER_HOUR, tm_mday = dy - ip ! k + 1, tm_mon = int k,
                    tm_year = Y - 1900, tm_wday = (4 + t div SECS_PER_DAY) mod 7, tm_yday = dy\<rparr>"
    using tmg leap unfolding ipg_def ip_def k_def by simp
  have ms: "k \<le> 11" "ip ! k \<le> dy" "k < 11 \<Longrightarrow> dy < ip ! Suc k"
    using month_search_bounds [of ip dy 11] inv(1) unfolding k_def [symmetric]
    by (simp_all add: ip_def mon_yday_def)
  have last: "ip ! 12 = year_days Y"
    using mon_yday_last [of Y] vd by (simp add: ip_def year_days_def is_leap_iff_greg_leap)
  have up: "dy < ip ! Suc k" using ms inv(2) last by (cases "k < 11") auto
  define M where "M = int k + 1"
  have M: "1 \<le> M" "M \<le> 12" "nat (M - 1) = k" "nat M = Suc k" using ms by (simp_all add: M_def)
  have tb: "ip ! k = days_before_month Y M" "ip ! Suc k = days_before_month Y M + days_in_month Y M"
    using mon_yday_nth [OF M(1,2), of Y] M(3,4) by (simp_all add: ip_def)
  have val: "valid_date Y M (dy - ip ! k + 1)"
    using vd M ms up tb by (simp add: valid_date_def MINYEAR_def MAXYEAR_def)
  have ord: "ymd_to_ord Y M (dy - ip ! k + 1) - ymd_to_ord 1970 1 1 = t div SECS_PER_DAY"
    using inv(3) vd tb
    by (simp add: ymd_to_ord_def days_before_year_eq_greg days_before_month_def
        days_before_month_tbl_def greg_days_before_year_def)
  have hp: "0 < SECS_PER_HOUR" "0 < SECS_PER_DAY" by (simp_all add: SECS_PER_HOUR_def SECS_PER_DAY_def)
  have R: "0 \<le> R" "R < SECS_PER_DAY" using hp by (simp_all add: R_def)
  have clk: "R div SECS_PER_HOUR * 3600 + (R mod SECS_PER_HOUR div 60 * 60 + R mod SECS_PER_HOUR mod 60) = R"
    by (simp add: SECS_PER_HOUR_def)
  have t: "t div SECS_PER_DAY * SECS_PER_DAY + R = t" by (simp add: R_def)
  have hb: "R div SECS_PER_HOUR < 24"
    using R by (simp add: SECS_PER_DAY_def SECS_PER_HOUR_def)
  have mb: "R mod SECS_PER_HOUR div 60 < 60"
    using pos_mod_bound [OF hp(1), of R] by (simp add: SECS_PER_HOUR_def)
  show ?thesis
    unfolding tm using val ord clk t hb mb R hp M_def
    by (simp add: pos_imp_zdiv_nonneg_iff algebra_simps)
qed


text \<open>C17: The year loop of \<open>__offtime\<close>, run as the C \<open>while\<close> loop it is (test,
  then one pass of the body), stops for every starting day count and year, and stops at the
  value of the recursive model.\<close>

theorem offtime_year_loop_terminates:
  "while_option (\<lambda>(d, y). d < 0 \<or> year_length y \<le> d) offtime_year_body (days, y) =
     Some (offtime_year days y)"
proof (induction days y rule: offtime_year.induct)
  case (1 days y)
  show ?case
  proof (cases "days < 0 \<or> year_length y \<le> days")
    case True
    define yg where "yg = y + days sdiv 365 - (if days smod 365 < 0 then 1 else 0)"
    define d' where "d' = days - ((yg - y) * 365 + leaps_thru_end_of (yg - 1) - leaps_thru_end_of (y - 1))"
    have bd: "offtime_year_body (days, y) = (d', yg)"
      by (simp add: offtime_year_body_def yg_def d'_def Let_def)
    have r: "offtime_year days y = offtime_year d' yg"
      using True by (subst offtime_year.simps) (simp add: yg_def d'_def Let_def)
    have "while_option (\<lambda>(d, y). d < 0 \<or> year_length y \<le> d) offtime_year_body (days, y) =
          while_option (\<lambda>(d, y). d < 0 \<or> year_length y \<le> d) offtime_year_body (d', yg)"
      using True bd by (subst while_option_unfold) simp
    also have "\<dots> = Some (offtime_year d' yg)"
      using 1 [OF True yg_def] by (simp add: d'_def)
    finally show ?thesis by (simp add: r)
  next
    case False
    then show ?thesis
      by (simp add: while_option_unfold [of _ _ "(days, y)"] offtime_year_step)
  qed
qed

text \<open>C18: The year loop returns \<open>(d', y')\<close> exactly when \<open>d'\<close> is a day inside year
  \<open>y'\<close> and the absolute Gregorian day number is kept: the year and day-of-year of the
  loop are the calendar's, for every (also negative) day count.\<close>

theorem offtime_year_spec:
  "offtime_year days y = (d', y') \<longleftrightarrow>
     0 \<le> d' \<and> d' < year_days y' \<and>
     greg_days_before_year y' + d' = greg_days_before_year y + days"
  using offtime_year_inv [of days y d' y'] offtime_year_result [of d' y' y days] by blast

theorem offtime_year_spec_witness:
  "offtime_year 21214 1970 = (30, 2028)"
proof -
  have "0 \<le> (30::int) \<and> 30 < year_days 2028 \<and>
     greg_days_before_year 2028 + 30 = greg_days_before_year 1970 + 21214"
    by (simp add: year_days_def greg_leap_def greg_days_before_year_def)
  then show ?thesis using offtime_year_spec [of 21214 1970 30 2028] by blast
qed

end
