(* ===== verification/FromTimestamp.thy ===== *)
theory FromTimestamp
  imports Offtime
begin

text \<open>
  What \<open>datetime.datetime.fromtimestamp(deadline_timestamp, tz=datetime.timezone.utc)\<close>
  (line 62) does around glibc's \<open>gmtime_r\<close>: CPython's split of the float timestamp into
  whole seconds and microseconds (\<open>_PyTime_ObjectToTimeval\<close> with
  \<open>_PyTime_ROUND_HALF_EVEN\<close>, Python/pytime.c) with its \<open>time_t\<close> range check,
  the \<open>OSError\<close> of a failing \<open>gmtime_r\<close>, and the constructor checks of
  \<open>datetime_from_timet_and_us\<close> (Modules/_datetimemodule.c). The main results:
  \<open>fromtimestamp\<close> inverts \<open>timestamp\<close> on every valid datetime; a timestamp beyond
  year 9999 raises \<open>ValueError\<close> or \<open>OSError\<close>, one beyond \<open>time_t\<close> raises
  \<open>OverflowError\<close>.
\<close>

section \<open>CPython's conversion of a float timestamp\<close>

text \<open>
  \<open>pytime_double_to_denominator (d, &sec, &numerator, 10**6, _PyTime_ROUND_HALF_EVEN)\<close>:
  split \<open>d\<close> with \<open>modf\<close>, scale and round the fraction, carry a fraction that rounded
  to \<open>10**6\<close> or below zero into the integral part, and check that the integral part is in
  the range of \<open>time_t\<close>: \<open>(double)PY_TIME_T_MIN <= intpart && intpart <
  -(double)PY_TIME_T_MIN\<close>, so \<open>2**63\<close> itself is rejected. The casts to \<open>time_t\<close> and
  \<open>long\<close> truncate.
\<close>

definition pytime_double_to_denominator ::
  "rounding \<Rightarrow> pyfloat \<Rightarrow> int \<Rightarrow> (int \<times> int) pyresult" where
  "pytime_double_to_denominator rnd d idenominator =
     (let denominator = int_to_float rnd idenominator;
          (floatpart, intpart) = c_modf d;
          floatpart = fmul rnd floatpart denominator;
          floatpart = pytime_round_half_even floatpart;
          (floatpart, intpart) =
            (if floatpart \<ge> denominator
             then (fsub rnd floatpart denominator, fadd rnd intpart 1)
             else if floatpart < 0
             then (fadd rnd floatpart denominator, fsub rnd intpart 1)
             else (floatpart, intpart))
      in if \<not> (int_to_float rnd (- (2 ^ 63)) \<le> intpart \<and> intpart < - int_to_float rnd (- (2 ^ 63)))
         then Inl (OverflowError ''timestamp out of range for platform time_t'')
         else Inr (c_trunc intpart, c_trunc floatpart))"

text \<open>\<open>_PyTime_ObjectToTimeval\<close> on a float: seconds and microseconds.\<close>

definition pytime_object_to_timeval :: "rounding \<Rightarrow> pyfloat \<Rightarrow> (int \<times> int) pyresult" where
  "pytime_object_to_timeval rnd d = pytime_double_to_denominator rnd d 1000000"

text \<open>
  \<open>_PyTime_gmtime\<close>: a failing \<open>gmtime_r\<close> raises \<open>OSError\<close> from \<open>errno\<close>
  (\<open>EOVERFLOW\<close>).
\<close>

definition py_gmtime :: "int \<Rightarrow> tm pyresult" where
  "py_gmtime t =
     (case gmtime t of
        None \<Rightarrow> Inl (OSError ''[Errno 75] Value too large for defined data type'')
      | Some tm \<Rightarrow> Inr tm)"

text \<open>
  \<open>datetime_from_timet_and_us\<close>: the \<open>struct tm\<close> fields become datetime fields
  (\<open>tm_year + 1900\<close> in C \<open>int\<close> arithmetic, a leap second clamped to 59) and pass the
  constructor checks of \<open>new_datetime_ex2\<close>.
\<close>

definition datetime_from_timet_and_us :: "int \<Rightarrow> int \<Rightarrow> datetime pyresult" where
  "datetime_from_timet_and_us timet us =
     rbind (py_gmtime timet) (\<lambda>tm.
       let year = sint (word_of_int (tm_year tm + 1900) :: 32 word);
           month = tm_mon tm + 1;
           day = tm_mday tm;
           hour = tm_hour tm;
           minute = tm_min tm;
           second = min 59 (tm_sec tm)
       in rbind (check_date_args year month day) (\<lambda>_.
          rbind (check_time_args hour minute second us) (\<lambda>_.
          Inr \<lparr>dt_year = year, dt_month = month, dt_day = day, dt_hour = hour,
               dt_minute = minute, dt_second = second, dt_microsecond = us\<rparr>)))"

text \<open>
  \<open>datetime.fromtimestamp(ts, tz=timezone.utc)\<close> (\<open>datetime_from_timestamp\<close> with
  \<open>_PyTime_gmtime\<close>). The final \<open>timezone.utc.fromutc\<close> adds a zero offset and
  returns the same fields, so it is the identity here.
\<close>

definition utc_fromtimestamp :: "rounding \<Rightarrow> pyfloat \<Rightarrow> datetime pyresult" where
  "utc_fromtimestamp rnd ts =
     rbind (pytime_object_to_timeval rnd ts) (\<lambda>(timet, us). datetime_from_timet_and_us timet us)"

lemmas fromtimestamp_defs [model_defs] =
  pytime_double_to_denominator_def pytime_object_to_timeval_def py_gmtime_def
  datetime_from_timet_and_us_def utc_fromtimestamp_def

section \<open>Lemmas\<close>

lemma pytime_timeval_exact:
  "pytime_object_to_timeval exact (of_int T / 1000000) =
     (if fits_int64 (T div 1000000) then Inr (T div 1000000, T mod 1000000)
      else Inl (OverflowError ''timestamp out of range for platform time_t''))"
proof -
  define q where "q = T sdiv 1000000"
  define r where "r = T smod 1000000"
  have tr: "c_trunc (of_int T / 1000000) = q"
    using c_trunc_int_div [of 1000000 T] by (simp add: q_def)
  have fr: "fmul exact (of_int T / 1000000 - of_int q) 1000000 = (of_int r :: rat)"
    using mult_sdiv_smod_eq [of 1000000 T] by (simp add: fmul_def r_def q_def algebra_simps)
  have rb: "- 1000000 < r" "r < 1000000" using smod_bounds [of 1000000 T] by (simp_all add: r_def)
  have fl: "q - (if r < 0 then 1 else 0) = T div 1000000"
    "r + (if r < 0 then 1000000 else 0) = T mod 1000000"
    using sdiv_smod_floor [of 1000000 T] smod_floor [of 1000000 T] by (simp_all add: q_def r_def)
  have cm: "c_modf (of_int T / 1000000) = (of_int T / 1000000 - of_int q, of_int q)"
    by (simp add: c_modf_def tr)
  have i: "int_to_float exact 1000000 = 1000000" by (simp add: int_to_float_def)
  have cr: "(if 1000000 \<le> (of_int r :: rat) then (of_int r - 1000000, of_int q + 1)
             else if of_int r < (0 :: rat) then (of_int r + 1000000, of_int q - 1)
             else (of_int r, of_int q)) =
            (of_int (T mod 1000000) :: rat, of_int (T div 1000000) :: rat)"
    using rb fl [symmetric] by (auto split: if_splits)
  show ?thesis
    unfolding pytime_object_to_timeval_def pytime_double_to_denominator_def Let_def cm
      prod.case i fr pytime_round_half_even_of_int fadd_def fsub_def id_apply cr
    by (simp add: c_trunc_of_int int_to_float_def fits_int64_iff)
qed

lemma fromtimestamp_microseconds:
  assumes v: "valid_datetime dt"
  shows "utc_fromtimestamp exact (of_int (dt_microseconds dt - dt_microseconds EPOCH) / 1000000)
         = Inr dt"
proof -
  obtain Y M D h mi s us where dt: "dt = \<lparr>dt_year = Y, dt_month = M, dt_day = D, dt_hour = h,
      dt_minute = mi, dt_second = s, dt_microsecond = us\<rparr>"
    by (cases dt) simp
  have vd: "valid_date Y M D" using v valid_datetime_date [OF v] by (simp add: dt)
  have c: "0 \<le> h" "h < 24" "0 \<le> mi" "mi < 60" "0 \<le> s" "s < 60" "0 \<le> us" "us < 1000000"
    using v by (simp_all add: dt valid_datetime_def)
  have yr: "1 \<le> Y" "Y \<le> 9999" using vd by (simp_all add: valid_date_def MINYEAR_def MAXYEAR_def)
  define N where "N = ymd_to_ord Y M D - ymd_to_ord 1970 1 1"
  define t where "t = N * SECS_PER_DAY + (h * 3600 + mi * 60 + s)"
  have o: "1 \<le> ymd_to_ord Y M D \<and> ymd_to_ord Y M D \<le> 3652059" by (rule ymd_to_ord_range [OF vd])
  have e: "ymd_to_ord 1970 1 1 = 719163"
    by (simp add: ymd_to_ord_def days_before_year_def days_before_month_def
        days_before_month_tbl_def)
  have T: "dt_microseconds dt - dt_microseconds EPOCH = t * 1000000 + us"
    by (simp add: dt dt_microseconds_def EPOCH_def t_def N_def SECS_PER_DAY_def SECS_PER_HOUR_def
        algebra_simps)
  have dm: "(t * 1000000 + us) div 1000000 = t" "(t * 1000000 + us) mod 1000000 = us"
    using div_mod_split [of us 1000000 t] c by simp_all
  have fits: "fits_int64 t"
    using o c e by (simp add: fits_int64_iff t_def N_def SECS_PER_DAY_def SECS_PER_HOUR_def)
  have g: "gmtime t = Some \<lparr>tm_sec = s, tm_min = mi, tm_hour = h, tm_mday = D, tm_mon = M - 1,
           tm_year = Y - 1900, tm_wday = (4 + N) mod 7, tm_yday = days_before_month Y M + D - 1\<rparr>"
    using gmtime_ymd [OF vd c(1-6)] by (simp add: t_def N_def)
  have y: "sint (word_of_int (Y - 1900 + 1900) :: 32 word) = Y"
    using yr by (simp add: sint_word_of_int_eq_iff)
  have ck: "check_date_args Y M D = Inr ()" "check_time_args h mi s us = Inr ()"
    using vd c by (simp_all add: check_date_args_iff check_time_args_iff)
  have p: "pytime_object_to_timeval exact (of_int (t * 1000000 + us) / 1000000) = Inr (t, us)"
    using pytime_timeval_exact [of "t * 1000000 + us"] dm fits by simp
  show ?thesis
    unfolding T utc_fromtimestamp_def p rbind.simps prod.case datetime_from_timet_and_us_def
      py_gmtime_def g option.case
    using c ck y by (simp add: dt)
qed

lemma round_half_even_nonneg_bounds:
  assumes "0 \<le> x" "x < 1000000"
  shows "0 \<le> round_half_even x \<and> round_half_even x \<le> 1000000"
proof -
  have "0 \<le> \<lfloor>x\<rfloor>" "\<lfloor>x\<rfloor> < 1000000" using assms by (simp_all add: floor_less_iff)
  then show ?thesis using round_half_even_cases [of x] by auto
qed

lemma pytime_nonneg_parts:
  fixes d :: rat
  assumes "0 \<le> d"
  defines "f \<equiv> d - of_int \<lfloor>d\<rfloor>"
  shows "c_modf d = (f, of_int \<lfloor>d\<rfloor>) \<and>
         pytime_round_half_even (fmul exact f 1000000) = of_int (round_half_even (f * 1000000)) \<and>
         0 \<le> round_half_even (f * 1000000) \<and> round_half_even (f * 1000000) \<le> 1000000"
proof -
  have f: "0 \<le> f" "f < 1" using floor_less_plus_one [of d] by (simp_all add: f_def)
  show ?thesis
    using assms f round_half_even_nonneg_bounds [of "f * 1000000"]
      pytime_round_half_even_nonneg [of "f * 1000000"]
    by (simp add: c_modf_def c_trunc_def f_def fmul_def)
qed

lemma pytime_timeval_exact_nonneg:
  assumes d: "0 \<le> d" "d < 2 ^ 63 - 1"
  shows "\<exists>us. pytime_object_to_timeval exact d = Inr (\<lfloor>d\<rfloor>, us) \<or>
              pytime_object_to_timeval exact d = Inr (\<lfloor>d\<rfloor> + 1, us)"
proof -
  define f where "f = d - of_int \<lfloor>d\<rfloor>"
  define n where "n = round_half_even (f * 1000000)"
  have cm: "c_modf d = (f, of_int \<lfloor>d\<rfloor>)"
    and fp: "pytime_round_half_even (fmul exact f 1000000) = of_int n" and n: "0 \<le> n" "n \<le> 1000000"
    using pytime_nonneg_parts [OF d(1)] by (simp_all add: f_def n_def)
  have i: "int_to_float exact 1000000 = 1000000" by (simp add: int_to_float_def)
  have fl: "0 \<le> \<lfloor>d\<rfloor>" "\<lfloor>d\<rfloor> < 2 ^ 63 - 1" using d by (simp_all add: floor_less_iff)
  have c1: "c_trunc (of_int \<lfloor>d\<rfloor> + 1) = \<lfloor>d\<rfloor> + 1"
    using c_trunc_of_int [of "\<lfloor>d\<rfloor> + 1"] by simp
  have flr0: "(0::rat) \<le> of_int \<lfloor>d\<rfloor>" using fl by simp
  have flr: "- (2 ^ 63) \<le> (of_int \<lfloor>d\<rfloor> :: rat)" "(of_int \<lfloor>d\<rfloor> :: rat) < 2 ^ 63 - 1"
    using flr0 d of_int_floor_le [of d] by linarith+
  show ?thesis
    unfolding pytime_object_to_timeval_def pytime_double_to_denominator_def Let_def cm
      prod.case i fp
    using n fl flr c1 by (auto simp: fadd_def fsub_def int_to_float_def c_trunc_of_int)
qed

lemma year_wrap:
  assumes "10000 \<le> Y" "fits_int32 (Y - 1900)"
  shows "sint (word_of_int Y :: 32 word) < 1 \<or> 9999 < sint (word_of_int Y :: 32 word)"
proof (cases "Y < 2 ^ 31")
  case True
  then have "sint (word_of_int Y :: 32 word) = Y" using assms by (simp add: sint_word_of_int_eq_iff)
  then show ?thesis using assms by simp
next
  case False
  have w: "(word_of_int Y :: 32 word) = word_of_int (Y - 2 ^ 32)" by simp
  have "sint (word_of_int (Y - 2 ^ 32) :: 32 word) = Y - 2 ^ 32"
    by (subst sint_word_of_int_eq_iff) (use False assms in \<open>simp add: fits_int32_iff\<close>)
  then show ?thesis unfolding w using assms by (simp add: fits_int32_iff)
qed

lemma check_date_args_year:
  "year < 1 \<or> 9999 < year \<Longrightarrow> check_date_args year month day = Inl (ValueError ''year is out of range'')"
  by (auto simp: check_date_args_def MINYEAR_def MAXYEAR_def)

lemma gmtime_year_from_days:
  assumes "gmtime t = Some tm" "2932897 \<le> t div SECS_PER_DAY"
  shows "10000 \<le> tm_year tm + 1900"
proof (rule ccontr)
  assume "\<not> 10000 \<le> tm_year tm + 1900"
  then have "greg_days_before_year (tm_year tm + 1900) + year_days (tm_year tm + 1900) \<le>
             greg_days_before_year 10000"
    by (intro greg_days_before_year_less) simp
  moreover have "greg_days_before_year 10000 = greg_days_before_year 1970 + 2932897"
    by (simp add: greg_days_before_year_def)
  ultimately show False using gmtime_Some [OF assms(1)] assms(2) by linarith
qed

text \<open>The converse direction: every \<open>time_t\<close> in the years 1..9999 and every
  microsecond count convert to a valid datetime denoting that instant.\<close>

lemma offtime_year_range:
  assumes oy: "offtime_year N 1970 = (dy, Y)" and N: "- 719162 \<le> N" "N \<le> 2932896"
  shows "1 \<le> Y \<and> Y \<le> 9999"
proof -
  have inv: "0 \<le> dy" "dy < year_days Y"
    "greg_days_before_year Y + dy = greg_days_before_year 1970 + N"
    using offtime_year_inv [OF oy] by simp_all
  have g: "greg_days_before_year 1970 = 719162" "greg_days_before_year 1 = 0"
    "greg_days_before_year 10000 = 3652059"
    by (simp_all add: greg_days_before_year_def)
  have "\<not> Y < 1" using greg_days_before_year_less [of Y 1] inv g N by linarith
  moreover have "10000 < Y \<Longrightarrow> 3652059 + 365 \<le> greg_days_before_year Y"
    using greg_days_before_year_less [of 10000 Y] g by (simp add: year_days_def split: if_splits)
  then have "\<not> 10000 < Y" using inv g N by linarith
  moreover have "Y \<noteq> 10000" using inv g N by auto
  ultimately show ?thesis by simp
qed

lemma gmtime_in_range:
  assumes t: "- 62135596800 \<le> t" "t \<le> 253402300799"
  shows "\<exists>tm. gmtime t = Some tm \<and> 1 \<le> tm_year tm + 1900 \<and> tm_year tm + 1900 \<le> 9999"
proof -
  obtain dy Y where oy: "offtime_year (t div SECS_PER_DAY) 1970 = (dy, Y)" by fastforce
  have N: "- 719162 \<le> t div SECS_PER_DAY" "t div SECS_PER_DAY \<le> 2932896"
    using t by (simp_all add: SECS_PER_DAY_def SECS_PER_HOUR_def)
  have Y: "1 \<le> Y" "Y \<le> 9999" using offtime_year_range [OF oy N] by simp_all
  then have "fits_int32 (Y - 1900)" by (simp add: fits_int32_iff)
  then show ?thesis using Y oy by (simp add: gmtime_eq Let_def del: month_search_numeral)
qed

lemma datetime_from_timet_and_us_valid:
  assumes t: "- 62135596800 \<le> t" "t \<le> 253402300799" and us: "0 \<le> us" "us < 1000000"
  shows "\<exists>dt. datetime_from_timet_and_us t us = Inr dt \<and> valid_datetime dt \<and>
              dt_microseconds dt - dt_microseconds EPOCH = t * 1000000 + us"
proof -
  obtain tm where g: "gmtime t = Some tm" and y: "1 \<le> tm_year tm + 1900" "tm_year tm + 1900 \<le> 9999"
    using gmtime_in_range [OF t] by blast
  define Y where "Y = tm_year tm + 1900"
  have f: "valid_date Y (tm_mon tm + 1) (tm_mday tm)" "0 \<le> tm_hour tm" "tm_hour tm < 24"
    "0 \<le> tm_min tm" "tm_min tm < 60" "0 \<le> tm_sec tm" "tm_sec tm < 60"
    "(ymd_to_ord Y (tm_mon tm + 1) (tm_mday tm) - ymd_to_ord 1970 1 1) * SECS_PER_DAY +
       (tm_hour tm * 3600 + tm_min tm * 60 + tm_sec tm) = t"
    using gmtime_fields [OF g y] unfolding Y_def by simp_all
  have yb: "1 \<le> Y" "Y \<le> 9999" using y by (simp_all add: Y_def)
  have yw: "sint (word_of_int Y :: 32 word) = Y" using yb by (simp add: sint_word_of_int_eq_iff)
  have ck: "check_date_args Y (tm_mon tm + 1) (tm_mday tm) = Inr ()"
    "check_time_args (tm_hour tm) (tm_min tm) (tm_sec tm) us = Inr ()"
    using f us by (simp_all add: check_date_args_iff check_time_args_iff)
  have e: "ymd_to_ord 1970 1 1 = 719163"
    by (simp add: ymd_to_ord_def days_before_year_def days_before_month_def days_before_month_tbl_def)
  define dt where "dt = \<lparr>dt_year = Y, dt_month = tm_mon tm + 1, dt_day = tm_mday tm,
    dt_hour = tm_hour tm, dt_minute = tm_min tm, dt_second = tm_sec tm, dt_microsecond = us\<rparr>"
  have r: "datetime_from_timet_and_us t us = Inr dt"
    unfolding datetime_from_timet_and_us_def py_gmtime_def g option.case rbind.simps Let_def
      Y_def [symmetric] yw
    using ck f(7) by (simp add: dt_def)
  have v: "valid_datetime dt" using f us by (simp add: dt_def valid_datetime_def valid_date_def)
  have m: "dt_microseconds dt - dt_microseconds EPOCH = t * 1000000 + us"
    using f(8) e by (simp add: dt_def dt_microseconds_def EPOCH_def SECS_PER_DAY_def
        SECS_PER_HOUR_def algebra_simps)
  show ?thesis using r v m by blast
qed

lemma pytime_timeval_overflow_exact:
  assumes d: "2 ^ 63 \<le> d"
  shows "pytime_object_to_timeval exact d = Inl (OverflowError ''timestamp out of range for platform time_t'')"
proof -
  define f where "f = d - of_int \<lfloor>d\<rfloor>"
  define n where "n = round_half_even (f * 1000000)"
  have d0: "0 \<le> d" using d by (rule order_trans [rotated]) simp
  have cm: "c_modf d = (f, of_int \<lfloor>d\<rfloor>)"
    and fp: "pytime_round_half_even (fmul exact f 1000000) = of_int n" and n: "0 \<le> n" "n \<le> 1000000"
    using pytime_nonneg_parts [OF d0] by (simp_all add: f_def n_def)
  have i: "int_to_float exact 1000000 = 1000000" by (simp add: int_to_float_def)
  have "2 ^ 63 \<le> \<lfloor>d\<rfloor>" using d by (simp add: le_floor_iff)
  then have fl: "2 ^ 63 \<le> (of_int \<lfloor>d\<rfloor> :: rat)" by (metis of_int_le_iff of_int_numeral of_int_power)
  show ?thesis
    unfolding pytime_object_to_timeval_def pytime_double_to_denominator_def
      Let_def cm prod.case i fp
    using n fl by (auto simp: fadd_def fsub_def int_to_float_def)
qed

text \<open>C16: \<open>datetime.fromtimestamp(dt.timestamp(), tz=timezone.utc)\<close> gives back
  \<open>dt\<close> for every valid aware UTC datetime \<open>dt\<close> (exact arithmetic): CPython's
  microsecond split, glibc's \<open>gmtime_r\<close> and the constructor checks invert the
  timestamp.\<close>

theorem fromtimestamp_timestamp:
  "valid_datetime dt \<Longrightarrow> rbind (timestamp exact dt) (utc_fromtimestamp exact) = Inr dt"
  using timestamp_exact [of dt] fromtimestamp_microseconds [of dt] by simp

theorem fromtimestamp_timestamp_witness:
  "valid_datetime \<lparr>dt_year = 2025, dt_month = 1, dt_day = 1, dt_hour = 0, dt_minute = 0,
                   dt_second = 0, dt_microsecond = 0\<rparr> \<and>
   rbind (timestamp exact \<lparr>dt_year = 2025, dt_month = 1, dt_day = 1, dt_hour = 0, dt_minute = 0,
                   dt_second = 0, dt_microsecond = 0\<rparr>) (utc_fromtimestamp exact) =
   Inr \<lparr>dt_year = 2025, dt_month = 1, dt_day = 1, dt_hour = 0, dt_minute = 0,
        dt_second = 0, dt_microsecond = 0\<rparr>"
proof -
  have v: "valid_datetime \<lparr>dt_year = 2025, dt_month = 1, dt_day = 1, dt_hour = 0, dt_minute = 0,
                   dt_second = 0, dt_microsecond = 0\<rparr>"
    by (simp add: valid_datetime_def MINYEAR_def MAXYEAR_def days_in_month_def days_in_month_tbl_def
        is_leap_def)
  show ?thesis using v fromtimestamp_timestamp [OF v] by simp
qed

text \<open>C19: A timestamp at or beyond \<open>2**63\<close> seconds does not fit \<open>time_t\<close>:
  \<open>fromtimestamp\<close> raises \<open>OverflowError\<close> before calling \<open>gmtime\<close>.\<close>

theorem fromtimestamp_overflow:
  assumes d: "2 ^ 63 \<le> d"
  shows "utc_fromtimestamp exact d = Inl (OverflowError ''timestamp out of range for platform time_t'')"
  using pytime_timeval_overflow_exact [OF d] by (simp add: utc_fromtimestamp_def)

theorem fromtimestamp_overflow_witness:
  "2 ^ 63 \<le> (2 ^ 63 :: rat) \<and>
   utc_fromtimestamp exact (2 ^ 63) = Inl (OverflowError ''timestamp out of range for platform time_t'')"
  using fromtimestamp_overflow [of "2 ^ 63"] by simp

text \<open>C20: A timestamp from 10000-01-01 00:00 UTC on (and within \<open>time_t\<close>) makes
  \<open>fromtimestamp\<close> raise: \<open>ValueError('year is out of range')\<close> from the
  constructor check, or \<open>OSError\<close> when glibc's year does not fit \<open>tm_year\<close>; this
  includes the wrap of \<open>tm_year + 1900\<close> in C \<open>int\<close>.\<close>

theorem fromtimestamp_year_out_of_range:
  assumes "253402300800 \<le> ts" "ts < 2 ^ 63 - 1"
  shows "utc_fromtimestamp exact ts = Inl (ValueError ''year is out of range'') \<or>
         utc_fromtimestamp exact ts = Inl (OSError ''[Errno 75] Value too large for defined data type'')"
proof -
  obtain us timet where p: "pytime_object_to_timeval exact ts = Inr (timet, us)"
    and tl: "\<lfloor>ts\<rfloor> \<le> timet"
    using pytime_timeval_exact_nonneg [of ts] assms by force
  have "253402300800 \<le> \<lfloor>ts\<rfloor>" using assms by (simp add: le_floor_iff)
  then have "253402300800 \<le> timet" using tl by linarith
  then have big: "2932897 \<le> timet div SECS_PER_DAY"
    using zdiv_mono1 [of 253402300800 timet 86400] by (simp add: SECS_PER_DAY_def SECS_PER_HOUR_def)
  show ?thesis
  proof (cases "gmtime timet")
    case None
    then show ?thesis by (simp add: utc_fromtimestamp_def p datetime_from_timet_and_us_def py_gmtime_def)
  next
    case (Some tm)
    have "10000 \<le> tm_year tm + 1900" by (rule gmtime_year_from_days [OF Some big])
    moreover have "fits_int32 (tm_year tm + 1900 - 1900)" using gmtime_Some [OF Some] by simp
    ultimately have "sint (word_of_int (tm_year tm + 1900) :: 32 word) < 1 \<or>
                     9999 < sint (word_of_int (tm_year tm + 1900) :: 32 word)"
      by (rule year_wrap)
    then show ?thesis
      by (simp add: utc_fromtimestamp_def p datetime_from_timet_and_us_def py_gmtime_def Some
          Let_def check_date_args_year)
  qed
qed

theorem fromtimestamp_year_out_of_range_witness:
  "253402300800 \<le> (253402300800 :: rat) \<and> (253402300800 :: rat) < 2 ^ 63 - 1 \<and>
   (utc_fromtimestamp exact 253402300800 = Inl (ValueError ''year is out of range'') \<or>
    utc_fromtimestamp exact 253402300800 =
      Inl (OSError ''[Errno 75] Value too large for defined data type''))"
  using fromtimestamp_year_out_of_range [of 253402300800] by simp

end
