(* ===== verification/Report.thy ===== *)
theory Report
  imports Budget Format FromTimestamp
begin

text \<open>
  The output section of the script (lines 46--63) and the script as a whole: the report
  lines it prints with \<open>strftime\<close>, \<open>str\<close>, \<open>repr\<close> and the fixed-point format specs,
  the deadline line after \<open>datetime.fromtimestamp\<close>, and the order in which the
  calculation, the printing and the two places that can raise interleave. Standard output
  is a string; an uncaught exception ends the run with the text printed so far.
\<close>

section \<open>strftime\<close>

text \<open>Two-digit zero-padded decimal (\<open>%m\<close>, \<open>%d\<close>, \<open>%H\<close>, \<open>%M\<close>, \<open>%S\<close>).\<close>

definition pad2 :: "int \<Rightarrow> string" where
  "pad2 n = zero_pad 2 (str_nat (nat n))"

text \<open>
  One conversion of glibc's \<open>strftime\<close> on the fields CPython passes from the datetime.
  \<open>%Y\<close> is the year in decimal without padding (glibc); other conversions are not used
  by the script and are copied unchanged.
\<close>

definition strftime_conv :: "char \<Rightarrow> datetime \<Rightarrow> string" where
  "strftime_conv c dt =
     (if c = CHR ''Y'' then str_int (dt_year dt)
      else if c = CHR ''m'' then pad2 (dt_month dt)
      else if c = CHR ''d'' then pad2 (dt_day dt)
      else if c = CHR ''H'' then pad2 (dt_hour dt)
      else if c = CHR ''M'' then pad2 (dt_minute dt)
      else if c = CHR ''S'' then pad2 (dt_second dt)
      else [CHR ''%'', c])"

text \<open>\<open>datetime.strftime(format)\<close>: ordinary characters are copied, \<open>%c\<close> is converted.\<close>

fun strftime :: "string \<Rightarrow> datetime \<Rightarrow> string" where
  "strftime [] dt = []"
| "strftime (c # d # cs) dt =
     (if c = CHR ''%'' then strftime_conv d dt @ strftime cs dt else c # strftime (d # cs) dt)"
| "strftime [c] dt = [c]"

section \<open>Printing\<close>

definition NL :: char where "NL = CHR 0x0A"

text \<open>\<open>print(s)\<close>: the text and a newline.\<close>

definition py_print :: "string \<Rightarrow> string" where
  "py_print s = s @ [NL]"

text \<open>The arguments of the ten \<open>print\<close> calls of lines 47--59, in order.\<close>

definition report_lines :: "config \<Rightarrow> estimate \<Rightarrow> string list" where
  "report_lines cfg e =
     [''--- Climate Clock Data Model Output ---'',
      ''Current Date: '' @ strftime ''%Y-%m-%d %H:%M:%S UTC'' (current_time cfg),
      ''Reference Budget (GtCO2): '' @ str_int (remaining_budget_gt cfg) @ '' as of '' @
        strftime ''%Y-%m-%d'' (reference_date cfg),
      ''Annual Emission Rate (GtCO2/yr): '' @ repr_decimal (annual_rate_gt cfg) @ [NL],
      ''1. Total Remaining Budget (Tonnes): '' @ format_fixed True 0 (current_budget_tonnes e) @
        '' tonnes'',
      ''2. Depletion Rate (Tonnes/sec): '' @ format_fixed True 3 (rate_tonnes_per_sec e) @
        '' tonnes/sec'',
      ''3. Time Remaining (Total Seconds): '' @ format_fixed True 0 (time_remaining_seconds e) @
        '' seconds'',
      [NL] @ ''--- JavaScript Widget Export Variables ---'',
      ''const REMAINING_SECONDS = '' @ format_fixed False 0 (time_remaining_seconds e) @ '';'',
      ''const BUDGET_RATE_PER_SEC = '' @ format_fixed False 3 (rate_tonnes_per_sec e) @ '';'']"

text \<open>The argument of the last \<open>print\<close> (line 63).\<close>

definition deadline_line :: "datetime \<Rightarrow> string" where
  "deadline_line d = [NL] @ ''Estimated Deadline: '' @ strftime ''%Y-%m-%d %H:%M:%S UTC'' d"

section \<open>The script\<close>

text \<open>
  A run on given inputs: the calculation (lines 24--43) raises before anything is printed;
  otherwise lines 47--59 print, then \<open>fromtimestamp\<close> (line 62) may raise, and line 63
  prints the deadline. The result is the text written to standard output and the exception
  that ended the run, if any.
\<close>

definition run_script :: "rounding \<Rightarrow> config \<Rightarrow> string \<times> py_error option" where
  "run_script rnd cfg =
     (case calculate rnd cfg of
        Inl err \<Rightarrow> ([], Some err)
      | Inr e \<Rightarrow>
          (let out = concat (map py_print (report_lines cfg e))
           in case utc_fromtimestamp rnd (deadline_timestamp e) of
                Inl err \<Rightarrow> (out, Some err)
              | Inr d \<Rightarrow> (out @ py_print (deadline_line d), None)))"

text \<open>The script itself: its constants (line 19 may raise) and the clock reading \<open>now\<close>.\<close>

definition live_counter :: "rounding \<Rightarrow> datetime \<Rightarrow> string \<times> py_error option" where
  "live_counter rnd now =
     (case script_config now of Inl err \<Rightarrow> ([], Some err) | Inr cfg \<Rightarrow> run_script rnd cfg)"

lemmas report_defs [model_defs] =
  pad2_def strftime_conv_def NL_def py_print_def report_lines_def deadline_line_def
  run_script_def live_counter_def

section \<open>Properties of the report\<close>

lemma pad2_props:
  assumes "0 \<le> n" "n < 100"
  shows "length (pad2 n) = 2 \<and> digits_value (pad2 n) = nat n"
proof -
  have "length (str_nat (nat n)) \<le> 2" using assms by (intro length_str_nat_le) simp_all
  then show ?thesis
    by (simp add: pad2_def zero_pad_def digits_value_zero_pad [unfolded zero_pad_def]
        digits_value_str_nat)
qed

lemma strftime_datetime_format:
  "strftime ''%Y-%m-%d %H:%M:%S UTC'' dt =
     str_int (dt_year dt) @ ''-'' @ pad2 (dt_month dt) @ ''-'' @ pad2 (dt_day dt) @ '' '' @
     pad2 (dt_hour dt) @ '':'' @ pad2 (dt_minute dt) @ '':'' @ pad2 (dt_second dt) @ '' UTC''"
  by (simp add: strftime_conv_def)

lemma reference_deadline_date: "utc_fromtimestamp exact (386742945600 / 211) =
  Inr \<lparr>dt_year = 2028, dt_month = 1, dt_day = 31, dt_hour = 4, dt_minute = 15, dt_second = 55,
       dt_microsecond = 450237\<rparr>"
  by (simp add: model_defs offtime_year.simps rem_up.simps rem_down.simps c_trunc_def c_modf_def
      pytime_round_half_even_def c_round_def Let_def fits_int32_iff)

lemma budget_spec_deadline:
  assumes "decimal_value (annual_rate_gt cfg) \<noteq> 0"
  shows "deadline_timestamp (budget_spec cfg) =
    of_int (dt_microseconds (reference_date cfg) - dt_microseconds EPOCH) / 1000000 +
    of_int (remaining_budget_gt cfg) * 1000000000 /
      (decimal_value (annual_rate_gt cfg) * 1000000000 / (1461 / 4 * 86400))"
  using assms by (simp add: budget_spec_def Let_def field_simps)

lemma live_counter_output:
  assumes v: "valid_datetime now"
  shows "live_counter exact now =
    (concat (map py_print (report_lines \<lparr>remaining_budget_gt = 130, annual_rate_gt = (422, 1),
       reference_date = \<lparr>dt_year = 2025, dt_month = 1, dt_day = 1, dt_hour = 0, dt_minute = 0,
         dt_second = 0, dt_microsecond = 0\<rparr>, current_time = now\<rparr>
       (budget_spec \<lparr>remaining_budget_gt = 130, annual_rate_gt = (422, 1),
       reference_date = \<lparr>dt_year = 2025, dt_month = 1, dt_day = 1, dt_hour = 0, dt_minute = 0,
         dt_second = 0, dt_microsecond = 0\<rparr>, current_time = now\<rparr>))) @
     py_print ([NL] @ ''Estimated Deadline: 2028-01-31 04:15:55 UTC''), None)"
proof -
  define ref where "ref = \<lparr>dt_year = 2025, dt_month = 1, dt_day = 1, dt_hour = 0, dt_minute = 0,
         dt_second = 0, dt_microsecond = 0\<rparr>"
  define cfg where "cfg = \<lparr>remaining_budget_gt = 130, annual_rate_gt = (422, 1),
         reference_date = ref, current_time = now\<rparr>"
  have c: "script_config now = Inr cfg"
    by (simp add: script_config_def REFERENCE_DATE_def cfg_def ref_def REMAINING_BUDGET_GIGA_TONNES_def
        ANNUAL_EMISSION_RATE_GIGA_TONNES_def datetime_defs MINYEAR_def MAXYEAR_def calendar_defs)
  have ok: "config_ok cfg" using v by (simp add: config_ok_def cfg_def ref_def valid_datetime_def
        valid_date_def MINYEAR_def MAXYEAR_def calendar_defs)
  have e: "calculate exact cfg = Inr (budget_spec cfg)"
    using calculate_exact_eq [OF ok] by (simp add: cfg_def decimal_value_def)
  have d: "deadline_timestamp (budget_spec cfg) = 386742945600 / 211"
    using budget_spec_deadline [of cfg]
    by (simp add: cfg_def ref_def decimal_value_def dt_microseconds_def EPOCH_def calendar_defs)
  show ?thesis
    unfolding live_counter_def c sum.case run_script_def e Let_def d reference_deadline_date
      ref_def [symmetric] cfg_def [symmetric]
    by (simp add: deadline_line_def strftime_conv_def pad2_def zero_pad_def str_int_def
        str_nat.simps digit_char_def)
qed

text \<open>C6: For every clock reading \<open>now\<close> (any valid datetime) the script, with exact
  arithmetic, prints exactly the ten lines of lines 47--59 filled with the specification's
  figures (\<open>budget_spec\<close>: the current budget, the rate and the seconds remaining at
  \<open>now\<close>), then the deadline line 2028-01-31 04:15:55 UTC, and ends without an exception.\<close>

theorem live_counter_spec_output:
  assumes "valid_datetime now"
  shows "live_counter exact now =
    (concat (map py_print (report_lines \<lparr>remaining_budget_gt = 130, annual_rate_gt = (422, 1),
       reference_date = \<lparr>dt_year = 2025, dt_month = 1, dt_day = 1, dt_hour = 0, dt_minute = 0,
         dt_second = 0, dt_microsecond = 0\<rparr>, current_time = now\<rparr>
       (budget_spec \<lparr>remaining_budget_gt = 130, annual_rate_gt = (422, 1),
       reference_date = \<lparr>dt_year = 2025, dt_month = 1, dt_day = 1, dt_hour = 0, dt_minute = 0,
         dt_second = 0, dt_microsecond = 0\<rparr>, current_time = now\<rparr>))) @
     py_print ([NL] @ ''Estimated Deadline: 2028-01-31 04:15:55 UTC''), None)"
  using live_counter_output [OF assms] .

theorem live_counter_spec_output_witness:
  "valid_datetime \<lparr>dt_year = 2026, dt_month = 11, dt_day = 9, dt_hour = 12, dt_minute = 0,
       dt_second = 0, dt_microsecond = 0\<rparr> \<and>
   live_counter exact \<lparr>dt_year = 2026, dt_month = 11, dt_day = 9, dt_hour = 12, dt_minute = 0,
       dt_second = 0, dt_microsecond = 0\<rparr> =
    (concat (map py_print (report_lines \<lparr>remaining_budget_gt = 130, annual_rate_gt = (422, 1),
       reference_date = \<lparr>dt_year = 2025, dt_month = 1, dt_day = 1, dt_hour = 0, dt_minute = 0,
         dt_second = 0, dt_microsecond = 0\<rparr>, current_time = \<lparr>dt_year = 2026, dt_month = 11, dt_day = 9,
       dt_hour = 12, dt_minute = 0, dt_second = 0, dt_microsecond = 0\<rparr>\<rparr>
       (budget_spec \<lparr>remaining_budget_gt = 130, annual_rate_gt = (422, 1),
       reference_date = \<lparr>dt_year = 2025, dt_month = 1, dt_day = 1, dt_hour = 0, dt_minute = 0,
         dt_second = 0, dt_microsecond = 0\<rparr>, current_time = \<lparr>dt_year = 2026, dt_month = 11, dt_day = 9,
       dt_hour = 12, dt_minute = 0, dt_second = 0, dt_microsecond = 0\<rparr>\<rparr>))) @
     py_print ([NL] @ ''Estimated Deadline: 2028-01-31 04:15:55 UTC''), None)"
proof -
  have h: "valid_datetime \<lparr>dt_year = 2026, dt_month = 11, dt_day = 9, dt_hour = 12, dt_minute = 0,
       dt_second = 0, dt_microsecond = 0\<rparr>"
    by (simp add: valid_datetime_def days_in_month_def days_in_month_tbl_def MINYEAR_def MAXYEAR_def)
  show ?thesis using h live_counter_spec_output [OF h] by blast
qed

text \<open>C12: The JavaScript export (lines 58--59) prints the same two numbers as the report
  (lines 53--54), without the thousands separators: each exported value is the report's
  figure with its commas removed.\<close>

theorem report_js_export_consistent:
  "\<exists>s t. report_lines cfg e ! 6 = ''3. Time Remaining (Total Seconds): '' @ s @ '' seconds'' \<and>
         report_lines cfg e ! 8 = ''const REMAINING_SECONDS = '' @ strip_commas s @ '';'' \<and>
         report_lines cfg e ! 5 = ''2. Depletion Rate (Tonnes/sec): '' @ t @ '' tonnes/sec'' \<and>
         report_lines cfg e ! 9 = ''const BUDGET_RATE_PER_SEC = '' @ strip_commas t @ '';''"
  by (simp add: report_lines_def format_fixed_strip_commas)

text \<open>C21: With a zero emission rate the run raises \<open>ZeroDivisionError\<close> at line 42
  before line 47 prints anything, for every valid pair of dates and every rounding that maps
  0 to 0: the output is empty.\<close>

theorem run_script_zero_rate:
  assumes ok: "config_ok cfg" and zero: "decimal_value (annual_rate_gt cfg) = 0"
    and r0: "rnd 0 = 0"
  shows "run_script rnd cfg = ([], Some ZeroDivisionError)"
proof -
  have v: "valid_datetime (current_time cfg)" "valid_datetime (reference_date cfg)"
    using ok by (simp_all add: config_ok_def)
  obtain td where td: "datetime_sub (current_time cfg) (reference_date cfg) = Inr td"
    using datetime_sub_correct [OF v] by blast
  have "calculate rnd cfg = Inl ZeroDivisionError"
    using td zero r0 by (simp add: calculate_def total_seconds_def float_ops_defs Let_def)
  then show ?thesis by (simp add: run_script_def)
qed

theorem run_script_zero_rate_witness:
  "config_ok \<lparr>remaining_budget_gt = 130, annual_rate_gt = (0, 1),
      reference_date = EPOCH, current_time = EPOCH\<rparr> \<and>
   decimal_value (annual_rate_gt \<lparr>remaining_budget_gt = 130, annual_rate_gt = (0, 1),
      reference_date = EPOCH, current_time = EPOCH\<rparr>) = 0 \<and> exact 0 = 0 \<and>
   run_script exact \<lparr>remaining_budget_gt = 130, annual_rate_gt = (0, 1),
      reference_date = EPOCH, current_time = EPOCH\<rparr> = ([], Some ZeroDivisionError)"
proof -
  have h: "config_ok \<lparr>remaining_budget_gt = 130, annual_rate_gt = (0, 1),
      reference_date = EPOCH, current_time = EPOCH\<rparr>"
    "decimal_value (annual_rate_gt \<lparr>remaining_budget_gt = 130, annual_rate_gt = (0, 1),
      reference_date = EPOCH, current_time = EPOCH\<rparr>) = 0" "exact 0 = 0"
    by (simp_all add: config_ok_def valid_datetime_def EPOCH_def days_in_month_def
        days_in_month_tbl_def MINYEAR_def MAXYEAR_def decimal_value_def)
  show ?thesis using h run_script_zero_rate [where rnd = exact, OF h] by blast
qed

text \<open>C22: A positive but tiny emission rate (at most 4102488000 / (2^63 - 1735689600)
  Gt/yr, with the script's budget and reference date) does not fault in the calculation: the
  deadline lies beyond \<open>time_t\<close>, so the run prints the whole report of lines 47--59 with
  the specification's figures and then raises \<open>OverflowError\<close> at line 62, without the
  deadline line (exact arithmetic, any valid clock reading).\<close>

theorem run_script_tiny_rate_overflow:
  assumes v: "valid_datetime now" and a: "0 < decimal_value a"
    and small: "decimal_value a * (2 ^ 63 - 1735689600) \<le> 4102488000"
    and cfg: "cfg = \<lparr>remaining_budget_gt = 130, annual_rate_gt = a,
       reference_date = \<lparr>dt_year = 2025, dt_month = 1, dt_day = 1, dt_hour = 0, dt_minute = 0,
         dt_second = 0, dt_microsecond = 0\<rparr>, current_time = now\<rparr>"
  shows "run_script exact cfg = (concat (map py_print (report_lines cfg (budget_spec cfg))),
           Some (OverflowError ''timestamp out of range for platform time_t''))"
proof -
  have ok: "config_ok cfg" using v by (simp add: cfg config_ok_def valid_datetime_def
        valid_date_def MINYEAR_def MAXYEAR_def calendar_defs)
  have e: "calculate exact cfg = Inr (budget_spec cfg)"
    using calculate_exact_eq [OF ok] a by (simp add: cfg)
  have d: "deadline_timestamp (budget_spec cfg) = 1735689600 + 4102488000 / decimal_value a"
    using budget_spec_deadline [of cfg] a
    by (simp add: cfg dt_microseconds_def EPOCH_def calendar_defs field_simps)
  have "2 ^ 63 - 1735689600 \<le> 4102488000 / decimal_value a"
    using small a by (simp add: pos_le_divide_eq mult.commute)
  then have "2 ^ 63 \<le> deadline_timestamp (budget_spec cfg)" unfolding d by simp
  then have "utc_fromtimestamp exact (deadline_timestamp (budget_spec cfg)) =
      Inl (OverflowError ''timestamp out of range for platform time_t'')"
    using pytime_timeval_overflow_exact by (simp add: utc_fromtimestamp_def)
  then show ?thesis using e by (simp add: run_script_def)
qed

theorem run_script_tiny_rate_overflow_witness:
  "valid_datetime \<lparr>dt_year = 2025, dt_month = 1, dt_day = 1, dt_hour = 0, dt_minute = 0,
         dt_second = 0, dt_microsecond = 0\<rparr> \<and> 0 < decimal_value (1, 12) \<and>
   decimal_value (1, 12) * (2 ^ 63 - 1735689600) \<le> 4102488000 \<and>
   run_script exact \<lparr>remaining_budget_gt = 130, annual_rate_gt = (1, 12),
       reference_date = \<lparr>dt_year = 2025, dt_month = 1, dt_day = 1, dt_hour = 0, dt_minute = 0,
         dt_second = 0, dt_microsecond = 0\<rparr>, current_time = \<lparr>dt_year = 2025, dt_month = 1, dt_day = 1, dt_hour = 0, dt_minute = 0,
         dt_second = 0, dt_microsecond = 0\<rparr>\<rparr> =
     (concat (map py_print (report_lines \<lparr>remaining_budget_gt = 130, annual_rate_gt = (1, 12),
       reference_date = \<lparr>dt_year = 2025, dt_month = 1, dt_day = 1, dt_hour = 0, dt_minute = 0,
         dt_second = 0, dt_microsecond = 0\<rparr>, current_time = \<lparr>dt_year = 2025, dt_month = 1, dt_day = 1, dt_hour = 0, dt_minute = 0,
         dt_second = 0, dt_microsecond = 0\<rparr>\<rparr>
       (budget_spec \<lparr>remaining_budget_gt = 130, annual_rate_gt = (1, 12),
       reference_date = \<lparr>dt_year = 2025, dt_month = 1, dt_day = 1, dt_hour = 0, dt_minute = 0,
         dt_second = 0, dt_microsecond = 0\<rparr>, current_time = \<lparr>dt_year = 2025, dt_month = 1, dt_day = 1, dt_hour = 0, dt_minute = 0,
         dt_second = 0, dt_microsecond = 0\<rparr>\<rparr>))),
      Some (OverflowError ''timestamp out of range for platform time_t''))"
proof -
  have h: "valid_datetime \<lparr>dt_year = 2025, dt_month = 1, dt_day = 1, dt_hour = 0, dt_minute = 0,
         dt_second = 0, dt_microsecond = 0\<rparr>" "0 < decimal_value (1, 12)"
    "decimal_value (1, 12) * (2 ^ 63 - 1735689600) \<le> 4102488000"
    by (simp_all add: valid_datetime_def days_in_month_def days_in_month_tbl_def MINYEAR_def
        MAXYEAR_def decimal_value_def)
  show ?thesis using h run_script_tiny_rate_overflow [OF h refl] by blast
qed

text \<open>C23: The date text that \<open>strftime('%Y-%m-%d %H:%M:%S UTC')\<close> prints (lines 48
  and 63) has the fixed layout of 23 characters for years 1000--9999, and each field read
  back as a decimal number gives the datetime's year, month, day, hour, minute and second.\<close>

theorem strftime_roundtrip:
  assumes v: "valid_datetime dt" and y: "1000 \<le> dt_year dt"
  shows "length (strftime ''%Y-%m-%d %H:%M:%S UTC'' dt) = 23 \<and>
    map (\<lambda>(i, l). digits_value (take l (drop i (strftime ''%Y-%m-%d %H:%M:%S UTC'' dt))))
      [(0, 4), (5, 2), (8, 2), (11, 2), (14, 2), (17, 2)] =
    map nat [dt_year dt, dt_month dt, dt_day dt, dt_hour dt, dt_minute dt, dt_second dt]"
proof -
  have r: "dt_year dt \<le> 9999" "1 \<le> dt_month dt" "dt_month dt \<le> 12" "1 \<le> dt_day dt"
    "dt_day dt \<le> 31" "0 \<le> dt_hour dt" "dt_hour dt \<le> 23" "0 \<le> dt_minute dt"
    "dt_minute dt \<le> 59" "0 \<le> dt_second dt" "dt_second dt \<le> 59"
    using v days_month_bounds [of "dt_month dt" "dt_year dt"]
    by (auto simp: valid_datetime_def MAXYEAR_def)
  have yl: "length (str_int (dt_year dt)) = 4"
    using y r length_str_nat_eq [of 3 "nat (dt_year dt)"] by (simp add: str_int_def nat_le_iff)
  have yv: "digits_value (str_int (dt_year dt)) = nat (dt_year dt)"
    using y by (simp add: str_int_def digits_value_str_nat)
  note p = pad2_props [of "dt_month dt"] pad2_props [of "dt_day dt"] pad2_props [of "dt_hour dt"]
    pad2_props [of "dt_minute dt"] pad2_props [of "dt_second dt"]
  show ?thesis
    unfolding strftime_datetime_format using yl yv p r by simp
qed

theorem strftime_roundtrip_witness:
  "valid_datetime \<lparr>dt_year = 2028, dt_month = 1, dt_day = 31, dt_hour = 4, dt_minute = 15,
       dt_second = 55, dt_microsecond = 450237\<rparr> \<and>
   1000 \<le> dt_year \<lparr>dt_year = 2028, dt_month = 1, dt_day = 31, dt_hour = 4, dt_minute = 15,
       dt_second = 55, dt_microsecond = 450237\<rparr> \<and>
   length (strftime ''%Y-%m-%d %H:%M:%S UTC'' \<lparr>dt_year = 2028, dt_month = 1, dt_day = 31,
       dt_hour = 4, dt_minute = 15, dt_second = 55, dt_microsecond = 450237\<rparr>) = 23"
proof -
  have v: "valid_datetime \<lparr>dt_year = 2028, dt_month = 1, dt_day = 31, dt_hour = 4, dt_minute = 15,
       dt_second = 55, dt_microsecond = 450237\<rparr>"
    by (simp add: valid_datetime_def MINYEAR_def MAXYEAR_def days_in_month_def days_in_month_tbl_def)
  show ?thesis using v strftime_roundtrip [OF v] by simp
qed

end
