(* ===== verification/Clock.thy ===== *)
theory Clock
  imports Report
begin

text \<open>
  The clock reading of line 20, \<open>datetime.datetime.now(datetime.timezone.utc)\<close>, as
  CPython 3.12 and earlier run it (CPython 3.13 reads the clock with \<open>PyTime_Time\<close>, which
  raises \<open>OverflowError\<close> instead of saturating; that version is not modelled)
  (\<open>datetime_datetime_now_impl\<close> and \<open>datetime_best_possible\<close> in
  Modules/_datetimemodule.c, the clock arithmetic of Python/pytime.c): the system clock
  \<open>clock_gettime(CLOCK_REALTIME)\<close> gives a \<open>struct timespec\<close>, converted to nanoseconds
  in a 64-bit \<open>PyTime_t\<close> by multiplication and addition that saturate at the bounds of the
  type (\<open>_PyTime_GetSystemClock\<close> ignores the overflow, and a failing clock reads 0); the
  nanoseconds become seconds and microseconds by floor division (\<open>_PyTime_AsTimevalTime_t\<close>
  with \<open>_PyTime_ROUND_FLOOR\<close>), and these a datetime by \<open>datetime_from_timet_and_us\<close>
  with glibc's \<open>gmtime_r\<close> (FromTimestamp). The main results: the clock read returns a
  valid datetime for every clock value, exact within the range of \<open>PyTime_t\<close> and clamped
  to 2262-04-11 beyond it, and the whole script then runs to its last line.
\<close>

section \<open>The system clock\<close>

text \<open>\<open>struct timespec\<close>: seconds and nanoseconds since the Unix epoch.\<close>

record timespec =
  tv_sec :: int
  tv_nsec :: int

definition PyTime_MIN :: int where "PyTime_MIN = - (2 ^ 63)"
definition PyTime_MAX :: int where "PyTime_MAX = 2 ^ 63 - 1"
definition SEC_TO_NS :: int where "SEC_TO_NS = 1000000000"
definition SEC_TO_US :: int where "SEC_TO_US = 1000000"
definition US_TO_NS :: int where "US_TO_NS = 1000"

text \<open>
  \<open>pytime_mul_check_overflow\<close>, \<open>pytime_mul\<close> and \<open>pytime_add\<close>: the value stored in
  \<open>*t\<close> and whether the function returned 0 (no overflow); on overflow the value saturates.
\<close>

definition pytime_mul_check_overflow :: "int \<Rightarrow> int \<Rightarrow> bool" where
  "pytime_mul_check_overflow a b =
     (if b \<noteq> 0 then a < PyTime_MIN sdiv b \<or> PyTime_MAX sdiv b < a else False)"

definition pytime_mul :: "int \<Rightarrow> int \<Rightarrow> int \<times> bool" where
  "pytime_mul t k =
     (if pytime_mul_check_overflow t k
      then (if 0 \<le> t then PyTime_MAX else PyTime_MIN, False)
      else (t * k, True))"

definition pytime_add :: "int \<Rightarrow> int \<Rightarrow> int \<times> bool" where
  "pytime_add t1 t2 =
     (if 0 < t2 \<and> PyTime_MAX - t2 < t1 then (PyTime_MAX, False)
      else if t2 < 0 \<and> t1 < PyTime_MIN - t2 then (PyTime_MIN, False)
      else (t1 + t2, True))"

text \<open>\<open>pytime_fromtimespec(tp, ts, raise_exc)\<close>.\<close>

definition pytime_fromtimespec :: "timespec \<Rightarrow> bool \<Rightarrow> int pyresult" where
  "pytime_fromtimespec ts raise_exc =
     (let (t, ok1) = pytime_mul (tv_sec ts) SEC_TO_NS;
          (t, ok2) = pytime_add t (tv_nsec ts)
      in if raise_exc \<and> (\<not> ok1 \<or> \<not> ok2)
         then Inl (OverflowError ''timestamp too large to convert to C _PyTime_t'')
         else Inr t)"

text \<open>
  \<open>_PyTime_GetSystemClock()\<close>: \<open>py_get_system_clock(&t, NULL, 0)\<close> reads
  \<open>clock_gettime(CLOCK_REALTIME)\<close> (\<open>None\<close> when it fails) and converts without
  raising; a failure gives 0.
\<close>

definition get_system_clock :: "timespec option \<Rightarrow> int" where
  "get_system_clock clk =
     (case clk of
        None \<Rightarrow> 0
      | Some ts \<Rightarrow> (case pytime_fromtimespec ts False of Inl _ \<Rightarrow> 0 | Inr t \<Rightarrow> t))"

section \<open>From nanoseconds to seconds and microseconds\<close>

datatype pytime_round = ROUND_FLOOR | ROUND_CEILING | ROUND_HALF_EVEN | ROUND_UP

text \<open>\<open>pytime_divide(t, k, round)\<close> for \<open>k > 1\<close>, with C's truncating \<open>/\<close> and \<open>%\<close>.\<close>

definition pytime_divide :: "int \<Rightarrow> int \<Rightarrow> pytime_round \<Rightarrow> int" where
  "pytime_divide t k round_mode =
     (case round_mode of
        ROUND_HALF_EVEN \<Rightarrow>
          (let x = t sdiv k; r = t smod k; abs_r = \<bar>r\<bar>
           in if k sdiv 2 < abs_r \<or> (abs_r = k sdiv 2 \<and> odd \<bar>x\<bar>)
              then (if 0 \<le> t then x + 1 else x - 1) else x)
      | ROUND_CEILING \<Rightarrow>
          (if 0 \<le> t then (if t smod k \<noteq> 0 then t sdiv k + 1 else t sdiv k) else t sdiv k)
      | ROUND_FLOOR \<Rightarrow>
          (if 0 \<le> t then t sdiv k else if t smod k \<noteq> 0 then t sdiv k - 1 else t sdiv k)
      | ROUND_UP \<Rightarrow>
          (if 0 \<le> t then (if t smod k \<noteq> 0 then t sdiv k + 1 else t sdiv k)
           else if t smod k \<noteq> 0 then t sdiv k - 1 else t sdiv k))"

text \<open>\<open>pytime_divmod(t, k, &q, &r)\<close>: the quotient, the remainder and whether it returned 0.\<close>

definition pytime_divmod :: "int \<Rightarrow> int \<Rightarrow> int \<times> int \<times> bool" where
  "pytime_divmod t k =
     (let q = t sdiv k; r = t smod k
      in if r < 0 then (case pytime_add q (- 1) of (q', ok) \<Rightarrow> (q', r + k, ok))
         else (q, r, True))"

text \<open>\<open>pytime_as_timeval(t, &tv_sec, &tv_usec, round)\<close>.\<close>

definition pytime_as_timeval :: "int \<Rightarrow> pytime_round \<Rightarrow> int \<times> int \<times> bool" where
  "pytime_as_timeval t round_mode = pytime_divmod (pytime_divide t US_TO_NS round_mode) SEC_TO_US"

text \<open>
  \<open>_PyTime_AsTimevalTime_t\<close>: a failing division raises \<open>OverflowError\<close>; with a 64-bit
  \<open>time_t\<close>, \<open>_PyTime_AsTime_t\<close> is a plain copy.
\<close>

definition pytime_as_timeval_time_t :: "int \<Rightarrow> pytime_round \<Rightarrow> (int \<times> int) pyresult" where
  "pytime_as_timeval_time_t t round_mode =
     (case pytime_as_timeval t round_mode of
        (secs, us, ok) \<Rightarrow>
          if \<not> ok then Inl (OverflowError ''timestamp out of range for platform time_t'')
          else Inr (secs, us))"

text \<open>
  \<open>datetime.datetime.now(timezone.utc)\<close>: \<open>datetime_best_possible\<close> with
  \<open>_PyTime_gmtime\<close>, then \<open>timezone.utc.fromutc\<close>, the identity on the fields.
\<close>

definition datetime_now_utc :: "timespec option \<Rightarrow> datetime pyresult" where
  "datetime_now_utc clk =
     (let ts = get_system_clock clk
      in rbind (pytime_as_timeval_time_t ts ROUND_FLOOR) (\<lambda>(secs, us).
           datetime_from_timet_and_us secs us))"

text \<open>The script from its first statement: line 19, then the clock read of line 20, then the rest.\<close>

definition live_counter_run :: "rounding \<Rightarrow> timespec option \<Rightarrow> string \<times> py_error option" where
  "live_counter_run rnd clk =
     (case REFERENCE_DATE of
        Inl err \<Rightarrow> ([], Some err)
      | Inr _ \<Rightarrow>
          (case datetime_now_utc clk of
             Inl err \<Rightarrow> ([], Some err)
           | Inr now \<Rightarrow> live_counter rnd now))"

lemmas clock_defs [model_defs] =
  PyTime_MIN_def PyTime_MAX_def SEC_TO_NS_def SEC_TO_US_def US_TO_NS_def
  pytime_mul_check_overflow_def pytime_mul_def pytime_add_def pytime_fromtimespec_def
  get_system_clock_def pytime_divide_def pytime_divmod_def pytime_as_timeval_def
  pytime_as_timeval_time_t_def datetime_now_utc_def live_counter_run_def

section \<open>Lemmas on the clock arithmetic\<close>

lemma pytime_mul_sec:
  "pytime_mul t SEC_TO_NS =
     (if t * SEC_TO_NS < PyTime_MIN then (PyTime_MIN, False)
      else if PyTime_MAX < t * SEC_TO_NS then (PyTime_MAX, False)
      else (t * SEC_TO_NS, True))"
  by (auto simp: pytime_mul_def pytime_mul_check_overflow_def PyTime_MIN_def PyTime_MAX_def
      SEC_TO_NS_def)

lemma pytime_add_range:
  "PyTime_MIN \<le> t1 \<Longrightarrow> t1 \<le> PyTime_MAX \<Longrightarrow>
     PyTime_MIN \<le> fst (pytime_add t1 t2) \<and> fst (pytime_add t1 t2) \<le> PyTime_MAX"
  by (auto simp: pytime_add_def PyTime_MIN_def PyTime_MAX_def)

lemma get_system_clock_range:
  "PyTime_MIN \<le> get_system_clock clk \<and> get_system_clock clk \<le> PyTime_MAX"
proof (cases clk)
  case None
  then show ?thesis by (simp add: get_system_clock_def PyTime_MIN_def PyTime_MAX_def)
next
  case (Some ts)
  define m where "m = fst (pytime_mul (tv_sec ts) SEC_TO_NS)"
  have m: "PyTime_MIN \<le> m" "m \<le> PyTime_MAX"
    by (simp_all add: m_def pytime_mul_sec PyTime_MIN_def PyTime_MAX_def)
  have "get_system_clock clk = fst (pytime_add m (tv_nsec ts))"
    by (simp add: Some get_system_clock_def pytime_fromtimespec_def m_def split_def)
  then show ?thesis using pytime_add_range [OF m] by simp
qed

lemma get_system_clock_exact:
  assumes "PyTime_MIN \<le> tv_sec ts * SEC_TO_NS" "0 \<le> tv_nsec ts"
    and "tv_sec ts * SEC_TO_NS + tv_nsec ts \<le> PyTime_MAX"
  shows "get_system_clock (Some ts) = tv_sec ts * SEC_TO_NS + tv_nsec ts"
proof -
  have m: "pytime_mul (tv_sec ts) SEC_TO_NS = (tv_sec ts * SEC_TO_NS, True)"
    using assms by (simp add: pytime_mul_sec)
  show ?thesis
    using assms by (simp add: get_system_clock_def pytime_fromtimespec_def m pytime_add_def)
qed

lemma get_system_clock_saturates:
  assumes "0 \<le> tv_nsec ts" "tv_nsec ts < SEC_TO_NS"
    and "PyTime_MAX < tv_sec ts * SEC_TO_NS + tv_nsec ts"
  shows "get_system_clock (Some ts) = PyTime_MAX"
proof (cases "PyTime_MAX < tv_sec ts * SEC_TO_NS")
  case True
  have "\<not> tv_sec ts * SEC_TO_NS < PyTime_MIN" using True by (simp add: PyTime_MIN_def PyTime_MAX_def)
  then have m: "pytime_mul (tv_sec ts) SEC_TO_NS = (PyTime_MAX, False)"
    using True by (simp add: pytime_mul_sec)
  show ?thesis
    using assms by (simp add: get_system_clock_def pytime_fromtimespec_def m pytime_add_def PyTime_MAX_def)
next
  case False
  have "\<not> tv_sec ts * SEC_TO_NS < PyTime_MIN"
    using assms by (simp add: PyTime_MIN_def PyTime_MAX_def SEC_TO_NS_def)
  then have m: "pytime_mul (tv_sec ts) SEC_TO_NS = (tv_sec ts * SEC_TO_NS, True)"
    using False by (simp add: pytime_mul_sec)
  have "0 < tv_nsec ts" using False assms(3) by simp
  then show ?thesis
    using assms by (simp add: get_system_clock_def pytime_fromtimespec_def m pytime_add_def)
qed

lemma pytime_divide_floor:
  assumes "0 < k"
  shows "pytime_divide t k ROUND_FLOOR = t div k"
proof -
  have "t < 0 \<Longrightarrow> t smod k \<le> 0" using assms by (simp add: signed_modulo_int_def sgn_if)
  then have "t < 0 \<Longrightarrow> t smod k \<noteq> 0 \<longleftrightarrow> t smod k < 0" by auto
  then show ?thesis
    using sdiv_smod_floor [OF assms, of t] assms by (auto simp: pytime_divide_def)
qed

lemma pytime_divmod_eq:
  assumes "0 < k" "PyTime_MIN < t div k"
  shows "pytime_divmod t k = (t div k, t mod k, True)"
proof -
  have "t sdiv k - (if t smod k < 0 then 1 else 0) = t div k"
    "t smod k + (if t smod k < 0 then k else 0) = t mod k"
    using sdiv_smod_floor [OF assms(1), of t] smod_floor [OF assms(1), of t] by simp_all
  then show ?thesis
    using assms by (auto simp: pytime_divmod_def pytime_add_def Let_def split: if_splits)
qed

lemma pytime_as_timeval_floor:
  assumes "PyTime_MIN \<le> t"
  shows "pytime_as_timeval_time_t t ROUND_FLOOR = Inr (t div 1000000000, t div 1000 mod 1000000)"
proof -
  have d: "t div 1000 div 1000000 = t div 1000000000"
    by (simp add: zdiv_zmult2_eq [symmetric])
  have "PyTime_MIN < t div 1000 div 1000000"
    using assms unfolding d by (simp add: PyTime_MIN_def)
  then show ?thesis
    using pytime_divmod_eq [of 1000000 "t div 1000"] d
    by (simp add: pytime_as_timeval_time_t_def pytime_as_timeval_def pytime_divide_floor
        US_TO_NS_def SEC_TO_US_def)
qed

lemma datetime_now_utc_ok:
  "\<exists>dt. datetime_now_utc clk = Inr dt \<and> valid_datetime dt \<and>
        dt_microseconds dt - dt_microseconds EPOCH = get_system_clock clk div 1000"
proof -
  define t where "t = get_system_clock clk"
  have r: "PyTime_MIN \<le> t" "t \<le> PyTime_MAX" using get_system_clock_range [of clk] by (simp_all add: t_def)
  have d: "t div 1000 div 1000000 = t div 1000000000" by (simp add: zdiv_zmult2_eq [symmetric])
  have s: "- 62135596800 \<le> t div 1000000000" "t div 1000000000 \<le> 253402300799"
    using r by (simp_all add: PyTime_MIN_def PyTime_MAX_def)
  have u: "0 \<le> t div 1000 mod 1000000" "t div 1000 mod 1000000 < 1000000" by simp_all
  obtain dt where dt: "datetime_from_timet_and_us (t div 1000000000) (t div 1000 mod 1000000) = Inr dt"
    and v: "valid_datetime dt"
    and m: "dt_microseconds dt - dt_microseconds EPOCH =
            t div 1000000000 * 1000000 + t div 1000 mod 1000000"
    using datetime_from_timet_and_us_valid [OF s u] by blast
  have "t div 1000000000 * 1000000 + t div 1000 mod 1000000 = t div 1000"
    using d [symmetric] by simp
  then show ?thesis
    using dt v m pytime_as_timeval_floor [OF r(1)]
    by (simp add: datetime_now_utc_def t_def [symmetric])
qed

lemma gmtime_clock_max:
  "gmtime 9223372036 = Some \<lparr>tm_sec = 16, tm_min = 47, tm_hour = 23, tm_mday = 11, tm_mon = 3,
     tm_year = 362, tm_wday = 5, tm_yday = 100\<rparr>"
proof -
  have v: "valid_date 2262 4 11"
    by (simp add: valid_date_def MINYEAR_def MAXYEAR_def days_in_month_def days_in_month_tbl_def)
  have o: "ymd_to_ord 2262 4 11 - ymd_to_ord 1970 1 1 = 106751"
    by (simp add: ymd_to_ord_def days_before_year_def days_before_month_def
        days_before_month_tbl_def is_leap_def)
  show ?thesis
    using gmtime_ymd [OF v, of 23 47 16 9223372036] o
    by (simp add: SECS_PER_DAY_def SECS_PER_HOUR_def days_before_month_def
        days_before_month_tbl_def is_leap_def)
qed

text \<open>C24: Whatever the system clock reads (any \<open>timespec\<close>, or a failing clock), the
  script runs to its last line without an exception, and with exact arithmetic that line is
  always the same deadline, 2028-01-31 04:15:55 UTC: the deadline \<open>now + budget / rate\<close>
  does not depend on \<open>now\<close>.\<close>

theorem live_counter_run_completes:
  "\<exists>out. live_counter_run exact clk =
     (out @ py_print ([NL] @ ''Estimated Deadline: 2028-01-31 04:15:55 UTC''), None)"
proof -
  obtain ref where r: "REFERENCE_DATE = Inr ref"
    by (simp add: REFERENCE_DATE_def datetime_defs calendar_defs MINYEAR_def MAXYEAR_def)
  obtain now where n: "datetime_now_utc clk = Inr now" and v: "valid_datetime now"
    using datetime_now_utc_ok [of clk] by blast
  show ?thesis using live_counter_output [OF v] by (simp add: live_counter_run_def r n)
qed

text \<open>C25: Within the range of \<open>PyTime_t\<close>, the clock read of line 20 returns the valid
  datetime whose distance from the epoch is the clock's nanoseconds floored to microseconds.\<close>

theorem clock_read_exact:
  assumes "PyTime_MIN \<le> tv_sec ts * SEC_TO_NS" "0 \<le> tv_nsec ts"
    and "tv_sec ts * SEC_TO_NS + tv_nsec ts \<le> PyTime_MAX"
  shows "\<exists>dt. datetime_now_utc (Some ts) = Inr dt \<and> valid_datetime dt \<and>
           dt_microseconds dt - dt_microseconds EPOCH = (tv_sec ts * SEC_TO_NS + tv_nsec ts) div 1000"
  using datetime_now_utc_ok [of "Some ts"] get_system_clock_exact [OF assms] by simp

theorem clock_read_exact_witness:
  "PyTime_MIN \<le> tv_sec \<lparr>tv_sec = 1735689600, tv_nsec = 5000\<rparr> * SEC_TO_NS \<and>
   0 \<le> tv_nsec \<lparr>tv_sec = 1735689600, tv_nsec = 5000\<rparr> \<and>
   tv_sec \<lparr>tv_sec = 1735689600, tv_nsec = 5000\<rparr> * SEC_TO_NS +
     tv_nsec \<lparr>tv_sec = 1735689600, tv_nsec = 5000\<rparr> \<le> PyTime_MAX \<and>
   (\<exists>dt. datetime_now_utc (Some \<lparr>tv_sec = 1735689600, tv_nsec = 5000\<rparr>) = Inr dt \<and>
      valid_datetime dt \<and> dt_microseconds dt - dt_microseconds EPOCH = 1735689600000005)"
proof -
  have h: "PyTime_MIN \<le> tv_sec \<lparr>tv_sec = 1735689600, tv_nsec = 5000\<rparr> * SEC_TO_NS"
    "0 \<le> tv_nsec \<lparr>tv_sec = 1735689600, tv_nsec = 5000\<rparr>"
    "tv_sec \<lparr>tv_sec = 1735689600, tv_nsec = 5000\<rparr> * SEC_TO_NS +
       tv_nsec \<lparr>tv_sec = 1735689600, tv_nsec = 5000\<rparr> \<le> PyTime_MAX"
    by (simp_all add: PyTime_MIN_def PyTime_MAX_def SEC_TO_NS_def)
  show ?thesis using h clock_read_exact [OF h] by (simp add: SEC_TO_NS_def)
qed

text \<open>C26: A clock past the range of \<open>PyTime_t\<close> (after 2262-04-11 23:47:16.854775807 UTC)
  is clamped without an error: line 20 then reads exactly 2262-04-11 23:47:16.854775.\<close>

theorem clock_read_saturates:
  assumes "0 \<le> tv_nsec ts" "tv_nsec ts < SEC_TO_NS"
    and "PyTime_MAX < tv_sec ts * SEC_TO_NS + tv_nsec ts"
  shows "datetime_now_utc (Some ts) =
           Inr \<lparr>dt_year = 2262, dt_month = 4, dt_day = 11, dt_hour = 23, dt_minute = 47,
                dt_second = 16, dt_microsecond = 854775\<rparr>"
proof -
  have p: "pytime_as_timeval_time_t PyTime_MAX ROUND_FLOOR = Inr (9223372036, 854775)"
    using pytime_as_timeval_floor [of PyTime_MAX] by (simp add: PyTime_MIN_def PyTime_MAX_def)
  show ?thesis
    using get_system_clock_saturates [OF assms] p
    by (simp add: datetime_now_utc_def datetime_from_timet_and_us_def py_gmtime_def gmtime_clock_max
        check_date_args_def check_time_args_def MINYEAR_def MAXYEAR_def days_in_month_def
        days_in_month_tbl_def)
qed

theorem clock_read_saturates_witness:
  "0 \<le> tv_nsec \<lparr>tv_sec = 10000000000, tv_nsec = 0\<rparr> \<and>
   tv_nsec \<lparr>tv_sec = 10000000000, tv_nsec = 0\<rparr> < SEC_TO_NS \<and>
   PyTime_MAX < tv_sec \<lparr>tv_sec = 10000000000, tv_nsec = 0\<rparr> * SEC_TO_NS +
     tv_nsec \<lparr>tv_sec = 10000000000, tv_nsec = 0\<rparr> \<and>
   datetime_now_utc (Some \<lparr>tv_sec = 10000000000, tv_nsec = 0\<rparr>) =
     Inr \<lparr>dt_year = 2262, dt_month = 4, dt_day = 11, dt_hour = 23, dt_minute = 47,
          dt_second = 16, dt_microsecond = 854775\<rparr>"
proof -
  have h: "0 \<le> tv_nsec \<lparr>tv_sec = 10000000000, tv_nsec = 0\<rparr>"
    "tv_nsec \<lparr>tv_sec = 10000000000, tv_nsec = 0\<rparr> < SEC_TO_NS"
    "PyTime_MAX < tv_sec \<lparr>tv_sec = 10000000000, tv_nsec = 0\<rparr> * SEC_TO_NS +
       tv_nsec \<lparr>tv_sec = 10000000000, tv_nsec = 0\<rparr>"
    by (simp_all add: PyTime_MAX_def SEC_TO_NS_def)
  show ?thesis using h clock_read_saturates [OF h] by simp
qed

text \<open>C27: The clock read never fails and never leaves the range of \<open>PyTime_t\<close>: every
  reading gives a valid datetime between 1677-09-21 00:12:43.145224 and
  2262-04-11 23:47:16.854775 UTC.\<close>

theorem clock_read_bounds:
  "\<exists>dt. datetime_now_utc clk = Inr dt \<and> valid_datetime dt \<and>
        - 9223372036854776 \<le> dt_microseconds dt - dt_microseconds EPOCH \<and>
        dt_microseconds dt - dt_microseconds EPOCH \<le> 9223372036854775"
proof -
  have "- 9223372036854776 \<le> get_system_clock clk div 1000"
    "get_system_clock clk div 1000 \<le> 9223372036854775"
    using get_system_clock_range [of clk]
      zdiv_mono1 [of PyTime_MIN "get_system_clock clk" 1000]
      zdiv_mono1 [of "get_system_clock clk" PyTime_MAX 1000]
    by (simp_all add: PyTime_MIN_def PyTime_MAX_def)
  then show ?thesis using datetime_now_utc_ok [of clk] by auto
qed

end
