(* ===== verification/Binary64.thy ===== *)
theory Binary64
  imports PyFloat
begin

text \<open>
  A concrete rounding for the model's float operations: IEEE 754 binary64 (C \<open>double\<close>,
  CPython's \<open>float\<close>) round-to-nearest, ties-to-even, the mode CPython runs in. A finite
  double is \<open>m * 2 powi (e - 52)\<close> with \<open>|m| < 2^53\<close> and \<open>e \<ge> -1022\<close> (the
  subnormals share the exponent \<open>-1022\<close>); \<open>binary64 x\<close> rounds \<open>x\<close> to the nearest
  multiple of the unit in the last place of its binade. Results beyond the largest double
  (overflow to infinity) are not represented: the script's values stay below \<open>2^41\<close>. The
  main results: integers up to \<open>2^53\<close>, and every \<open>m * 2^k\<close> with \<open>|m| \<le> 2^53\<close>, are
  kept exactly; the relative error on the normal range is at most \<open>2^-53\<close>; the
  rounding commutes with negation.
\<close>

section \<open>The rounding function\<close>

text \<open>\<open>\<lfloor>log2 n\<rfloor>\<close> of a positive natural number, by halving.\<close>

fun nat_log2 :: "nat \<Rightarrow> nat" where
  "nat_log2 n = (if n < 2 then 0 else Suc (nat_log2 (n div 2)))"

declare nat_log2.simps [simp del]

text \<open>The binade of a positive rational: \<open>e\<close> with \<open>2 powi e \<le> x < 2 powi (e + 1)\<close>,
  from the bit lengths of its numerator and denominator.\<close>

definition rat_exponent :: "rat \<Rightarrow> int" where
  "rat_exponent x =
     (case quotient_of x of
        (p, q) \<Rightarrow>
          let e = int (nat_log2 (nat p)) - int (nat_log2 (nat q))
          in if x < 2 powi e then e - 1 else e)"

definition binary64 :: rounding where
  "binary64 x =
     (if x = 0 then 0
      else let ulp = 2 powi (max (rat_exponent \<bar>x\<bar>) (- 1022) - 52)
           in of_int (round_half_even (x / ulp)) * ulp)"

section \<open>Lemmas\<close>

lemma nat_log2_bounds: "0 < n \<Longrightarrow> 2 ^ nat_log2 n \<le> n \<and> n < 2 ^ Suc (nat_log2 n)"
proof (induction n rule: nat_log2.induct)
  case (1 n)
  show ?case
  proof (cases "n < 2")
    case True
    then show ?thesis using 1 by (simp add: nat_log2.simps)
  next
    case False
    then have "2 ^ nat_log2 (n div 2) \<le> n div 2 \<and> n div 2 < 2 ^ Suc (nat_log2 (n div 2))"
      using 1 by simp
    then show ?thesis using False by (subst (1 2) nat_log2.simps) auto
  qed
qed

lemma powi2_pos [simp]: "0 < (2::rat) powi e"
  by simp

lemma powi2_succ: "(2::rat) powi (e + 1) = 2 * 2 powi e"
  by (simp add: power_int_add_1')

lemma powi2_mono: "e \<le> e' \<Longrightarrow> (2::rat) powi e \<le> 2 powi e'"
  by (rule power_int_increasing) simp_all

lemma powi2_strict_mono: "e < e' \<Longrightarrow> (2::rat) powi e < 2 powi e'"
  by (rule power_int_strict_increasing) simp_all

lemma rat_exponent_bounds:
  assumes "0 < x"
  shows "2 powi rat_exponent x \<le> x \<and> x < 2 powi (rat_exponent x + 1)"
proof -
  obtain p q where pq: "quotient_of x = (p, q)" by fastforce
  have q: "0 < q" using quotient_of_denom_pos [OF pq] .
  have x: "x = of_int p / of_int q" using quotient_of_div [OF pq] .
  have p: "0 < p" using assms q by (simp add: x zero_less_divide_iff)
  define a where "a = nat_log2 (nat p)"
  define b where "b = nat_log2 (nat q)"
  have ap: "2 ^ a \<le> p" "p < 2 ^ Suc a"
    using nat_log2_bounds [of "nat p"] p unfolding a_def by (simp_all add: le_nat_iff nat_less_iff)
  have bq: "2 ^ b \<le> q" "q < 2 ^ Suc b"
    using nat_log2_bounds [of "nat q"] q unfolding b_def by (simp_all add: le_nat_iff nat_less_iff)
  define e where "e = int a - int b"
  have pe: "(2::rat) powi e = 2 ^ a / 2 ^ b"
    by (simp add: e_def power_int_diff power_int_of_nat)
  have i: "(of_int (2 ^ a) :: rat) \<le> of_int p" "(of_int p :: rat) < of_int (2 ^ Suc a)"
    "(of_int (2 ^ b) :: rat) \<le> of_int q" "(of_int q :: rat) < of_int (2 ^ Suc b)"
    using ap bq by (simp_all only: of_int_le_iff of_int_less_iff)
  have apr: "(2::rat) ^ a \<le> of_int p" "of_int p < (2::rat) ^ Suc a"
    using i(1,2) by simp_all
  have bqr: "(2::rat) ^ b \<le> of_int q" "of_int q < (2::rat) ^ Suc b"
    using i(3,4) by simp_all
  have lo: "2 powi e \<le> 2 * x"
  proof -
    have "(2::rat) ^ a * of_int q \<le> of_int p * (2 * 2 ^ b)"
      using mult_mono [OF apr(1) less_imp_le [OF bqr(2)]] p q by (simp add: mult.commute)
    then show ?thesis using q by (simp add: pe x field_simps)
  qed
  have hi: "x < 2 * 2 powi e"
  proof -
    have "of_int p * 2 ^ b < (2 * 2 ^ a) * (of_int q :: rat)"
      using mult_less_le_imp_less [OF apr(2) bqr(1)] p by simp
    then show ?thesis using q by (simp add: pe x field_simps)
  qed
  have r: "rat_exponent x = (if x < 2 powi e then e - 1 else e)"
    by (simp add: rat_exponent_def pq a_def b_def e_def)
  show ?thesis
  proof (cases "x < 2 powi e")
    case True
    have "2 powi (e - 1) * 2 = (2::rat) powi e" using powi2_succ [of "e - 1"] by simp
    then show ?thesis using True lo r by simp
  next
    case False
    then show ?thesis using hi r by (simp add: powi2_succ)
  qed
qed

lemma rat_exponent_unique:
  assumes "2 powi e \<le> x" "x < 2 powi (e + 1)"
  shows "rat_exponent x = e"
proof -
  have "0 < x" using assms(1) powi2_pos [of e] by linarith
  note b = rat_exponent_bounds [OF this]
  have "\<not> rat_exponent x < e"
    using b assms powi2_mono [of "rat_exponent x + 1" e] by force
  moreover have "\<not> e < rat_exponent x"
    using b assms powi2_mono [of "e + 1" "rat_exponent x"] by force
  ultimately show ?thesis by simp
qed

lemma round_half_even_of_int [simp]: "round_half_even (of_int k) = k"
  by (simp add: round_half_even_def)

lemma round_half_even_err: "\<bar>of_int (round_half_even y) - y\<bar> \<le> 1/2"
proof -
  have "of_int \<lfloor>y\<rfloor> \<le> y" "y < of_int \<lfloor>y\<rfloor> + 1" by (simp_all add: floor_less_plus_one)
  then show ?thesis by (auto simp: round_half_even_def Let_def abs_le_iff)
qed

lemma round_half_even_near:
  assumes "\<bar>y - of_int m\<bar> < 1/2"
  shows "round_half_even y = m"
proof -
  have "\<bar>of_int (round_half_even y) - of_int m\<bar> < (1::rat)"
    using round_half_even_err [of y] assms unfolding abs_less_iff abs_le_iff by linarith
  then have "(of_int \<bar>round_half_even y - m\<bar> :: rat) < of_int 1" by simp
  then have "\<bar>round_half_even y - m\<bar> < 1" by (simp only: of_int_less_iff)
  then show ?thesis by simp
qed

lemma binary64_eq:
  assumes "2 powi e \<le> \<bar>x\<bar>" "\<bar>x\<bar> < 2 powi (e + 1)" "- 1022 \<le> e"
  shows "binary64 x = of_int (round_half_even (x / 2 powi (e - 52))) * 2 powi (e - 52)"
proof -
  have "0 < \<bar>x\<bar>" using assms(1) powi2_pos [of e] by linarith
  then have "x \<noteq> 0" by simp
  then show ?thesis using rat_exponent_unique [OF assms(1,2)] assms(3)
    by (simp add: binary64_def Let_def)
qed

lemma binary64_uminus: "binary64 (- x) = - binary64 x"
  by (simp add: binary64_def Let_def round_half_even_uminus)

lemma binary64_grid:
  assumes "x \<noteq> 0" "x / 2 powi (max (rat_exponent \<bar>x\<bar>) (- 1022) - 52) = of_int n"
  shows "binary64 x = x"
proof -
  define u where "u = (2::rat) powi (max (rat_exponent \<bar>x\<bar>) (- 1022) - 52)"
  have u: "u \<noteq> 0" by (simp add: u_def)
  have "binary64 x = of_int n * u" using assms by (simp add: binary64_def Let_def u_def)
  then show ?thesis using assms(2) u unfolding u_def [symmetric] by (simp add: divide_eq_eq)
qed

lemma binary64_representable:
  assumes m: "\<bar>m\<bar> \<le> 2 ^ 53" and k: "- 1074 \<le> k"
  shows "binary64 (of_int m * 2 powi k) = of_int m * 2 powi k"
proof (cases "m = 0")
  case True
  then show ?thesis by (simp add: binary64_def)
next
  case False
  define x where "x = of_int m * (2::rat) powi k"
  define e where "e = rat_exponent \<bar>x\<bar>"
  define u where "u = max e (- 1022) - 52"
  have x0: "x \<noteq> 0" using False by (simp add: x_def)
  have ax: "\<bar>x\<bar> = of_int \<bar>m\<bar> * 2 powi k" by (simp add: x_def abs_mult)
  have b: "2 powi e \<le> \<bar>x\<bar>" "\<bar>x\<bar> < 2 powi (e + 1)"
    using rat_exponent_bounds [of "\<bar>x\<bar>"] x0 by (simp_all add: e_def)
  have p53: "(2::rat) powi (53 + k) = 2 ^ 53 * 2 powi k"
    by (simp add: power_int_add)
  have "(of_int \<bar>m\<bar> :: rat) \<le> of_int (2 ^ 53)"
    using m by (simp only: of_int_le_iff)
  then have mr: "(of_int \<bar>m\<bar> :: rat) \<le> 2 ^ 53" by simp
  have up: "\<bar>x\<bar> \<le> 2 powi (53 + k)"
    unfolding ax p53 using mr by (simp add: mult_right_mono)
  have e53: "e \<le> 53 + k"
  proof (rule ccontr)
    assume "\<not> e \<le> 53 + k"
    then have "2 powi (53 + k) < (2::rat) powi e" by (intro powi2_strict_mono) simp
    then show False using b(1) up by simp
  qed
  show ?thesis
  proof (cases "u \<le> k")
    case True
    have "x / 2 powi u = of_int (m * 2 ^ nat (k - u))"
    proof -
      have "(2::rat) powi k = 2 powi (k - u) * 2 powi u" by (simp add: power_int_add [symmetric])
      moreover have "(2::rat) powi (k - u) = 2 ^ nat (k - u)"
        using True by (simp add: power_int_of_nat [symmetric])
      ultimately show ?thesis by (simp add: x_def)
    qed
    then have g: "x / 2 powi (max (rat_exponent \<bar>x\<bar>) (- 1022) - 52) = of_int (m * 2 ^ nat (k - u))"
      unfolding u_def e_def .
    show ?thesis using binary64_grid [OF x0 g] unfolding x_def .
  next
    case False
    then have eu: "e = 53 + k" "u = k + 1" using e53 k by (simp_all add: u_def)
    then have "(2::rat) ^ 53 * 2 powi k \<le> of_int \<bar>m\<bar> * 2 powi k" using b(1) p53 ax by simp
    then have "(of_int (2 ^ 53) :: rat) \<le> of_int \<bar>m\<bar>" by simp
    then have "2 ^ 53 \<le> \<bar>m\<bar>" by (simp only: of_int_le_iff)
    then have "\<bar>m\<bar> = 2 ^ 53" using m by simp
    then have "m = 2 ^ 53 \<or> m = - (2 ^ 53)" by (auto simp: abs_if split: if_splits)
    then have ev: "m = 2 * (m div 2)" by auto
    have "x / 2 powi u = of_int (m div 2)"
    proof -
      have "(2::rat) powi (k + 1) = 2 * 2 powi k" by (rule powi2_succ)
      then show ?thesis using ev by (simp add: x_def eu(2))
    qed
    then have g: "x / 2 powi (max (rat_exponent \<bar>x\<bar>) (- 1022) - 52) = of_int (m div 2)"
      unfolding u_def e_def .
    show ?thesis using binary64_grid [OF x0 g] unfolding x_def .
  qed
qed

lemma binary64_eval:
  assumes "2 powi e \<le> \<bar>x\<bar>" "\<bar>x\<bar> < 2 powi (e + 1)" "- 1022 \<le> e"
    and "\<bar>x / 2 powi (e - 52) - of_int m\<bar> < 1/2"
  shows "binary64 x = of_int m * 2 powi (e - 52)"
  using binary64_eq [OF assms(1-3)] round_half_even_near [OF assms(4)] by simp

lemma binary64_zero [simp]: "binary64 0 = 0"
  by (simp add: binary64_def)

lemma binary64_numeral [simp]:
  "numeral k \<le> (2::int) ^ 53 \<Longrightarrow> binary64 (numeral k) = numeral k"
  using binary64_representable [of "numeral k" 0] by simp

lemma binary64_err_ulp:
  "\<bar>binary64 x - x\<bar> \<le> 2 powi (max (rat_exponent \<bar>x\<bar>) (- 1022) - 53)"
proof (cases "x = 0")
  case True
  then show ?thesis by (simp add: binary64_def)
next
  case False
  define u where "u = (2::rat) powi (max (rat_exponent \<bar>x\<bar>) (- 1022) - 52)"
  have u: "0 < u" by (simp add: u_def)
  have h: "2 powi (max (rat_exponent \<bar>x\<bar>) (- 1022) - 53) = u / 2"
    using powi2_succ [of "max (rat_exponent \<bar>x\<bar>) (- 1022) - 53"] by (simp add: u_def)
  have "binary64 x - x = (of_int (round_half_even (x / u)) - x / u) * u"
    using False u by (simp add: binary64_def Let_def u_def [symmetric] algebra_simps)
  then have "\<bar>binary64 x - x\<bar> = \<bar>of_int (round_half_even (x / u)) - x / u\<bar> * u"
    using u by (simp add: abs_mult)
  also have "\<dots> \<le> 1/2 * u" using mult_right_mono [OF round_half_even_err [of "x / u"], of u] u by simp
  finally show ?thesis using h by simp
qed

lemma binary64_on_grid:
  "\<exists>r u. binary64 x = of_int r * 2 powi u \<and> \<bar>r\<bar> \<le> 2 ^ 53 \<and> - 1074 \<le> u"
proof (cases "x = 0")
  case True
  then show ?thesis by (intro exI [of _ 0]) (simp add: binary64_def)
next
  case False
  define e where "e = rat_exponent \<bar>x\<bar>"
  define u where "u = max e (- 1022) - 52"
  define r where "r = round_half_even (x / 2 powi u)"
  have b: "\<bar>x\<bar> < 2 powi (e + 1)" using rat_exponent_bounds [of "\<bar>x\<bar>"] False by (simp add: e_def)
  have "(2::rat) powi (e + 1) \<le> 2 powi (u + 53)" by (intro powi2_mono) (simp add: u_def)
  also have "\<dots> = 2 ^ 53 * 2 powi u" by (simp add: power_int_add)
  finally have "\<bar>x / 2 powi u\<bar> < 2 ^ 53" using b by (simp add: abs_divide pos_divide_less_eq)
  then have "\<bar>(of_int r :: rat)\<bar> < 2 ^ 53 + 1"
    using round_half_even_err [of "x / 2 powi u"] unfolding r_def abs_le_iff abs_less_iff by linarith
  then have "(of_int \<bar>r\<bar> :: rat) < of_int (2 ^ 53 + 1)" by simp
  then have "\<bar>r\<bar> < 2 ^ 53 + 1" by (simp only: of_int_less_iff)
  then have "\<bar>r\<bar> \<le> 2 ^ 53" by simp
  moreover have "binary64 x = of_int r * 2 powi u"
    using False by (simp add: binary64_def Let_def r_def u_def e_def)
  moreover have "- 1074 \<le> u" by (simp add: u_def)
  ultimately show ?thesis by blast
qed

lemma round_half_even_nearest:
  "\<bar>of_int (round_half_even z) - z\<bar> \<le> \<bar>of_int n - z\<bar>"
proof -
  have f: "of_int \<lfloor>z\<rfloor> \<le> z" "z < of_int \<lfloor>z\<rfloor> + 1" by (simp_all add: floor_less_plus_one)
  have r: "\<bar>of_int (round_half_even z) - z\<bar> \<le> z - of_int \<lfloor>z\<rfloor> \<and>
           \<bar>of_int (round_half_even z) - z\<bar> \<le> of_int \<lfloor>z\<rfloor> + 1 - z"
    using f by (auto simp: round_half_even_def Let_def abs_le_iff)
  have "n \<le> \<lfloor>z\<rfloor> \<or> \<lfloor>z\<rfloor> + 1 \<le> n" by linarith
  then have "z - of_int \<lfloor>z\<rfloor> \<le> \<bar>of_int n - z\<bar> \<or> of_int \<lfloor>z\<rfloor> + 1 - z \<le> \<bar>of_int n - z\<bar>"
  proof
    assume "n \<le> \<lfloor>z\<rfloor>"
    then have "(of_int n :: rat) \<le> of_int \<lfloor>z\<rfloor>" by (simp only: of_int_le_iff)
    then show ?thesis by linarith
  next
    assume "\<lfloor>z\<rfloor> + 1 \<le> n"
    then have "(of_int (\<lfloor>z\<rfloor> + 1) :: rat) \<le> of_int n" by (simp only: of_int_le_iff)
    then show ?thesis by simp linarith
  qed
  then show ?thesis using r by linarith
qed

lemma binary64_nearest_grid:
  assumes "x \<noteq> 0"
  shows "\<bar>binary64 x - x\<bar> \<le> \<bar>of_int n * 2 powi (max (rat_exponent \<bar>x\<bar>) (- 1022) - 52) - x\<bar>"
proof -
  define U where "U = (2::rat) powi (max (rat_exponent \<bar>x\<bar>) (- 1022) - 52)"
  have U: "0 < U" by (simp add: U_def)
  have b: "binary64 x - x = (of_int (round_half_even (x / U)) - x / U) * U"
    using assms U by (simp add: binary64_def Let_def U_def [symmetric] algebra_simps)
  have n: "of_int n * U - x = (of_int n - x / U) * U" using U by (simp add: algebra_simps)
  show ?thesis
    unfolding U_def [symmetric] b n abs_mult using U round_half_even_nearest [of "x / U" n]
    by (simp add: mult_right_mono)
qed

text \<open>C28: \<open>binary64\<close> rounds to nearest: its result is a double \<open>m * 2 powi u\<close>
  (\<open>|m| \<le> 2^53\<close>, \<open>u \<ge> -1074\<close>, the subnormal exponent included; the largest exponent,
  where IEEE overflows to infinity, is not modelled) and no double is closer to \<open>x\<close>.\<close>

theorem binary64_nearest:
  "(\<exists>m u. binary64 x = of_int m * 2 powi u \<and> \<bar>m\<bar> \<le> 2 ^ 53 \<and> - 1074 \<le> u) \<and>
   (\<forall>m k. \<bar>m\<bar> \<le> 2 ^ 53 \<longrightarrow> - 1074 \<le> k \<longrightarrow>
      \<bar>binary64 x - x\<bar> \<le> \<bar>of_int m * 2 powi k - x\<bar>)"
proof (intro conjI allI impI)
  show "\<exists>m u. binary64 x = of_int m * 2 powi u \<and> \<bar>m\<bar> \<le> 2 ^ 53 \<and> - 1074 \<le> u"
    by (rule binary64_on_grid)
next
  fix m :: int and k :: int
  assume m: "\<bar>m\<bar> \<le> 2 ^ 53" and k: "- 1074 \<le> k"
  show "\<bar>binary64 x - x\<bar> \<le> \<bar>of_int m * 2 powi k - x\<bar>"
  proof (cases "x = 0")
    case True
    then show ?thesis by simp
  next
    case x0: False
    define e where "e = rat_exponent \<bar>x\<bar>"
    define u where "u = max e (- 1022) - 52"
    have ex: "2 powi e \<le> \<bar>x\<bar>" using rat_exponent_bounds [of "\<bar>x\<bar>"] x0 by (simp add: e_def)
    show ?thesis
    proof (cases "u \<le> k")
      case True
      have "(2::rat) powi k = 2 ^ nat (k - u) * 2 powi u"
        using True by (simp add: power_int_add [symmetric] power_int_of_nat [symmetric])
      then have g: "of_int m * (2::rat) powi k = of_int (m * 2 ^ nat (k - u)) * 2 powi u" by simp
      have "\<bar>binary64 x - x\<bar> \<le> \<bar>of_int (m * 2 ^ nat (k - u)) * 2 powi u - x\<bar>"
        using binary64_nearest_grid [OF x0, of "m * 2 ^ nat (k - u)"] by (simp only: u_def e_def)
      then show ?thesis unfolding g .
    next
      case False
      then have eu: "u = e - 52" "k + 1 \<le> u" using k by (simp_all add: u_def)
      have "(of_int \<bar>m\<bar> :: rat) \<le> of_int (2 ^ 53)" using m by (simp only: of_int_le_iff)
      then have mr: "(of_int \<bar>m\<bar> :: rat) \<le> 2 ^ 53" by simp
      have "(2::rat) powi (k + 53) \<le> 2 powi e" using eu by (intro powi2_mono) simp
      moreover have "(2::rat) powi (k + 53) = 2 ^ 53 * 2 powi k" by (simp add: power_int_add)
      moreover have "\<bar>of_int m * (2::rat) powi k\<bar> \<le> 2 ^ 53 * 2 powi k"
        using mr by (simp add: abs_mult mult_right_mono)
      ultimately have y: "\<bar>of_int m * (2::rat) powi k\<bar> \<le> 2 powi e" by linarith
      define n0 where "n0 = (if 0 < x then 1 else - 1) * (2::int) ^ 52"
      have "(2::rat) powi e = 2 ^ 52 * 2 powi u" by (simp add: eu(1) power_int_diff)
      then have "\<bar>of_int n0 * 2 powi u - x\<bar> = \<bar>x\<bar> - 2 powi e"
        using ex x0 by (auto simp: n0_def abs_if)
      moreover have "\<bar>x\<bar> - 2 powi e \<le> \<bar>of_int m * 2 powi k - x\<bar>" using y by linarith
      ultimately show ?thesis using binary64_nearest_grid [OF x0, of n0]
        by (simp add: u_def e_def)
    qed
  qed
qed

theorem binary64_nearest_witness:
  "\<bar>42\<bar> \<le> (2::int) ^ 53 \<and> - 1074 \<le> (0::int) \<and>
   \<bar>binary64 (211 / 5) - 211 / 5\<bar> \<le> \<bar>of_int (42::int) * 2 powi 0 - 211 / 5\<bar>"
proof -
  have h: "\<bar>42\<bar> \<le> (2::int) ^ 53" "- 1074 \<le> (0::int)" by simp_all
  have "\<forall>m k. \<bar>m\<bar> \<le> 2 ^ 53 \<longrightarrow> - 1074 \<le> k \<longrightarrow>
      \<bar>binary64 (211 / 5) - 211 / 5\<bar> \<le> \<bar>of_int m * 2 powi k - (211 / 5 :: rat)\<bar>"
    using binary64_nearest [of "211 / 5"] by blast
  then show ?thesis using h by blast
qed

text \<open>C29: The error of IEEE round-to-nearest: at most \<open>|x| / 2^53\<close> (half a unit in the
  last place of a 53-bit significand), or \<open>2^-1075\<close> (half the smallest subnormal) below
  the normal range.\<close>

theorem binary64_error: "\<bar>binary64 x - x\<bar> \<le> max (\<bar>x\<bar> / 2 ^ 53) (2 powi (- 1075))"
proof (cases "x = 0")
  case True
  then show ?thesis by (simp add: binary64_def)
next
  case False
  define e where "e = rat_exponent \<bar>x\<bar>"
  have b: "2 powi e \<le> \<bar>x\<bar>" using rat_exponent_bounds [of "\<bar>x\<bar>"] False by (simp add: e_def)
  show ?thesis
  proof (cases "- 1022 \<le> e")
    case True
    have "(2::rat) powi (e - 53) = 2 powi e / 2 ^ 53" by (simp add: power_int_diff)
    then have "(2::rat) powi (e - 53) \<le> \<bar>x\<bar> / 2 ^ 53" using b by (simp add: divide_right_mono)
    then show ?thesis using binary64_err_ulp [of x] True by (simp add: e_def)
  next
    case False
    then have m: "max (rat_exponent \<bar>x\<bar>) (- 1022) - 53 = - 1075" by (simp add: e_def)
    have "\<bar>binary64 x - x\<bar> \<le> 2 powi (- 1075)" using binary64_err_ulp [of x] unfolding m .
    then show ?thesis by (rule order_trans) (rule max.cobounded2)
  qed
qed

end
