(* ===== verification/DoubleRun.thy ===== *)
theory DoubleRun
  imports Report Binary64
begin

text \<open>
  The script on the specification's scenario under IEEE binary64 rounding: each float
  operation of the calculation (lines 25--43) and of \<open>fromtimestamp\<close> (line 62) at the
  reference instant, evaluated to its double, and the printed report, which is the same as
  with exact arithmetic. The doubles: 42.2 is 2969561004297421/2^46; the rate
  735153983385099/2^39; the seconds remaining 6524012067621611/2^26; the deadline
  timestamp 7687760586264751/2^22, split into 1832904955 seconds and 450237 microseconds;
  the bound \<open>(double) PY_TIME_T_MIN\<close> is \<open>-2^63\<close>.
\<close>

section \<open>The doubles of the scenario\<close>

lemma double_annual_rate:
  "float_lit binary64 (decimal_value ANNUAL_EMISSION_RATE_GIGA_TONNES) = 2969561004297421 / 70368744177664"
  using binary64_eval [of 5 "211 / 5" 5939122008594842]
  by (simp add: float_lit_def decimal_value_def ANNUAL_EMISSION_RATE_GIGA_TONNES_def)

lemma double_quarter: "binary64 (1461 / 4) = 1461 / 4"
  using binary64_eval [of 8 "1461 / 4" 6425545952722944] by simp

lemma double_seconds_per_year: "seconds_per_year_of binary64 = 31557600"
  by (simp add: seconds_per_year_of_def float_lit_def fmul_def int_to_float_def double_quarter)

lemma double_rate_numerator: "fmul binary64 (2969561004297421 / 70368744177664) 1000000000 = 42200000000"
  using binary64_eval [of 35 "2969561004297421 / 70368744177664 * 1000000000" 5531238400000000]
  by (simp add: fmul_def)

lemma double_rate: "fdiv binary64 42200000000 31557600 = Inr (735153983385099 / 549755813888)"
  using binary64_eval [of 10 "42200000000 / 31557600" 5881231867080792] by (simp add: fdiv_def)

lemma double_remaining: "fdiv binary64 130000000000 (735153983385099 / 549755813888) = Inr (6524012067621611 / 67108864)"
  using binary64_eval [of 26 "130000000000 / (735153983385099 / 549755813888)" 6524012067621611]
  by (simp add: fdiv_def)

lemma double_deadline: "fadd binary64 1735689600 (6524012067621611 / 67108864) = 7687760586264751 / 4194304"
  using binary64_eval [of 30 "1735689600 + 6524012067621611 / 67108864" 7687760586264751]
  by (simp add: fadd_def)

lemma double_mul_zero: "fmul binary64 x 0 = 0" by (simp add: fmul_def)

lemma double_reference_calculation: "rbind (script_config \<lparr>dt_year = 2025, dt_month = 1, dt_day = 1, dt_hour = 0, dt_minute = 0,
       dt_second = 0, dt_microsecond = 0\<rparr>) (calculate binary64) =
     Inr \<lparr>time_elapsed_seconds = 0, seconds_per_year = 31557600,
          rate_tonnes_per_sec = 735153983385099 / 549755813888, budget_depleted_since_ref = 0,
          current_budget_tonnes = 130000000000, time_remaining_seconds = 6524012067621611 / 67108864,
          deadline_timestamp = 7687760586264751 / 4194304\<rparr>"
  by (simp add: script_config_def REFERENCE_DATE_def REMAINING_BUDGET_GIGA_TONNES_def
      calendar_defs datetime_defs delta_defs calculate_def
      double_annual_rate double_seconds_per_year double_rate_numerator double_rate double_remaining double_deadline double_mul_zero int_truediv_def fsub_def
      int_to_float_def TONNES_PER_GIGA_TONNE_def MINYEAR_def MAXYEAR_def MAX_DELTA_DAYS_def Let_def)

lemma double_fraction: "fmul binary64 (1888431 / 4194304) 1000000 = 29506734375 / 65536"
  using binary64_eval [of 18 "1888431 / 4194304 * 1000000" 7735013376000000] by (simp add: fmul_def)

lemma double_time_t_min: "binary64 (- 9223372036854775808) = - 9223372036854775808"
  using binary64_eval [of 63 "9223372036854775808" 4503599627370496] by (simp add: binary64_uminus)

lemma double_deadline_timeval: "pytime_object_to_timeval binary64 (7687760586264751 / 4194304) = Inr (1832904955, 450237)"
  by (simp add: pytime_object_to_timeval_def pytime_double_to_denominator_def c_modf_def c_trunc_def
      Let_def double_fraction double_time_t_min pytime_round_half_even_def c_round_def int_to_float_def)

lemma double_deadline_date: "utc_fromtimestamp binary64 (7687760586264751 / 4194304) =
  Inr \<lparr>dt_year = 2028, dt_month = 1, dt_day = 31, dt_hour = 4, dt_minute = 15, dt_second = 55,
       dt_microsecond = 450237\<rparr>"
proof -
  have v: "valid_date 2028 1 31"
    by (simp add: valid_date_def MINYEAR_def MAXYEAR_def days_in_month_def days_in_month_tbl_def)
  have o: "ymd_to_ord 2028 1 31 - ymd_to_ord 1970 1 1 = 21214"
    by (simp add: ymd_to_ord_def days_before_year_def days_before_month_def
        days_before_month_tbl_def is_leap_def)
  have g: "gmtime 1832904955 = Some \<lparr>tm_sec = 55, tm_min = 15, tm_hour = 4, tm_mday = 31, tm_mon = 0,
     tm_year = 128, tm_wday = 1, tm_yday = 30\<rparr>"
    using gmtime_ymd [OF v, of 4 15 55 1832904955] o
    by (simp add: SECS_PER_DAY_def SECS_PER_HOUR_def days_before_month_def days_before_month_tbl_def)
  show ?thesis
    by (simp add: utc_fromtimestamp_def double_deadline_timeval datetime_from_timet_and_us_def py_gmtime_def g
        check_date_args_def check_time_args_def MINYEAR_def MAXYEAR_def days_in_month_def
        days_in_month_tbl_def)
qed

text \<open>C30: Run with IEEE binary64 arithmetic, the rounding CPython's floats use, the script on
  the specification's scenario (clock at 2025-01-01 00:00 UTC) prints exactly the report of
  the exact reading: every double rounding of lines 25--43 and of \<open>fromtimestamp\<close> stays
  below the printed precision.\<close>

theorem live_counter_binary64_reference_output:
  "live_counter binary64 \<lparr>dt_year = 2025, dt_month = 1, dt_day = 1, dt_hour = 0, dt_minute = 0,
                       dt_second = 0, dt_microsecond = 0\<rparr> =
   (concat (map py_print
     [''--- Climate Clock Data Model Output ---'',
      ''Current Date: 2025-01-01 00:00:00 UTC'',
      ''Reference Budget (GtCO2): 130 as of 2025-01-01'',
      ''Annual Emission Rate (GtCO2/yr): 42.2'' @ [NL],
      ''1. Total Remaining Budget (Tonnes): 130,000,000,000 tonnes'',
      ''2. Depletion Rate (Tonnes/sec): 1,337.237 tonnes/sec'',
      ''3. Time Remaining (Total Seconds): 97,215,355 seconds'',
      [NL] @ ''--- JavaScript Widget Export Variables ---'',
      ''const REMAINING_SECONDS = 97215355;'',
      ''const BUDGET_RATE_PER_SEC = 1337.237;'',
      [NL] @ ''Estimated Deadline: 2028-01-31 04:15:55 UTC'']), None)"
proof -
  obtain cfg where c: "script_config \<lparr>dt_year = 2025, dt_month = 1, dt_day = 1, dt_hour = 0, dt_minute = 0,
       dt_second = 0, dt_microsecond = 0\<rparr> = Inr cfg"
    by (simp add: script_config_def REFERENCE_DATE_def datetime_defs calendar_defs MINYEAR_def MAXYEAR_def)
  have e: "calculate binary64 cfg =
     Inr \<lparr>time_elapsed_seconds = 0, seconds_per_year = 31557600,
          rate_tonnes_per_sec = 735153983385099 / 549755813888, budget_depleted_since_ref = 0,
          current_budget_tonnes = 130000000000, time_remaining_seconds = 6524012067621611 / 67108864,
          deadline_timestamp = 7687760586264751 / 4194304\<rparr>"
    using double_reference_calculation c by simp
  have cf: "cfg = \<lparr>remaining_budget_gt = 130, annual_rate_gt = (422, 1),
         reference_date = \<lparr>dt_year = 2025, dt_month = 1, dt_day = 1, dt_hour = 0, dt_minute = 0,
       dt_second = 0, dt_microsecond = 0\<rparr>,
         current_time = \<lparr>dt_year = 2025, dt_month = 1, dt_day = 1, dt_hour = 0, dt_minute = 0,
       dt_second = 0, dt_microsecond = 0\<rparr>\<rparr>"
    using c by (simp add: script_config_def REFERENCE_DATE_def datetime_defs calendar_defs
        MINYEAR_def MAXYEAR_def REMAINING_BUDGET_GIGA_TONNES_def ANNUAL_EMISSION_RATE_GIGA_TONNES_def)
  show ?thesis
    unfolding live_counter_def c sum.case run_script_def e Let_def
    by (simp add: double_deadline_date cf report_lines_def deadline_line_def format_fixed_def round_half_even_def
        str_nat.simps group_thousands.simps digit_char_def zero_pad_def pad2_def strftime_conv_def
        str_int_def repr_decimal_def strip_dec_zeros.simps)
qed

end
