(* ===== verification/Spec2Isabelle.thy ===== *)
theory Spec2Isabelle
  imports Clock DoubleRun
begin

text \<open>
  \<^bold>\<open>A verification development of the live counter of mgifford/risky-weather.\<close>

  The program is one Python script, src/live-counter/live-counter.py (63 lines). It fixes
  the remaining carbon budget (130 Gt CO2 on 2025-01-01) and the annual emission rate
  (42.2 Gt/yr), reads the clock, computes the depletion rate per second, the budget left now,
  the seconds left and the deadline, and prints a report, a JavaScript export of two numbers
  and the deadline date. The parts and how they interact:
  \<^item> the clock read (line 20) converts CPython's system clock, a \<open>struct timespec\<close>,
    to 64-bit nanoseconds and then to a datetime through glibc's \<open>gmtime_r\<close>;
  \<^item> the calculation (lines 24--43) subtracts two aware datetimes, takes the seconds of the
    difference and the timestamp of the clock reading, all inside CPython's C datetime module;
  \<^item> the report (lines 47--59) formats the results with \<open>strftime\<close>, \<open>str\<close>,
    \<open>repr\<close> and the format specs \<open>,.0f\<close> \<open>,.3f\<close> \<open>.0f\<close> \<open>.3f\<close>;
  \<^item> the deadline (lines 62--63) goes back from a float timestamp to a date through
    CPython's \<open>datetime.fromtimestamp\<close>, which calls glibc's \<open>gmtime_r\<close>.

  \<^bold>\<open>Theories and correspondence.\<close>
  \<^item> Prelude: the exceptions (\<open>py_error\<close>), the result type \<open>'a pyresult = py_error + 'a\<close>
    with its bind \<open>rbind\<close>, Python floats as rationals with a rounding parameter, the C
    integer widths (\<open>fits_int32\<close>, \<open>fits_int64\<close> via \<open>32 word\<close>/\<open>64 word\<close>), C
    division (\<open>sdiv\<close>, \<open>smod\<close>) and shared lemmas.
  \<^item> PyFloat: the float operations of the script (\<open>float_lit\<close>, \<open>int_to_float\<close>,
    \<open>fadd\<close>, \<open>fsub\<close>, \<open>fmul\<close>, \<open>fdiv\<close>, \<open>int_truediv\<close>), each the exact result
    followed by the rounding function \<open>rnd\<close>; C's \<open>trunc\<close>, \<open>round\<close>, \<open>modf\<close>; the
    round-half-to-even of float formatting and CPython's \<open>pytime_round_half_even\<close>.
  \<^item> Calendar: CPython's C datetime code reached from lines 19, 25, 26 and 43: the
    constructor's argument and range checks (\<open>datetime_new\<close>), \<open>is_leap\<close> with its
    unsigned cast, \<open>days_before_year\<close>, \<open>ymd_to_ord\<close>, timedelta normalisation
    (\<open>new_delta\<close>, with the day-range \<open>OverflowError\<close>), \<open>datetime_sub\<close>,
    \<open>total_seconds\<close> and \<open>timestamp\<close> of an aware UTC datetime; and the Gregorian
    reading of these (\<open>valid_date\<close>, \<open>dt_microseconds\<close>).
  \<^item> Budget: the constants of lines 11--29 and \<open>calculate\<close>, lines 25--43 in source order,
    every float operation rounded by \<open>rnd\<close>; \<open>budget_spec\<close> is the specification's formula.
  \<^item> Format: \<open>str\<close> of an int, \<open>repr\<close> of the literal 42.2, and fixed-point formatting
    \<open>format_fixed grouping prec x\<close> with \<open>,\<close> grouping.
  \<^item> Offtime: glibc's \<open>__offtime\<close> (time/offtime.c) with offset 0, as \<open>gmtime_r\<close> runs
    it: the two loops that normalise the seconds of the day (\<open>rem_up\<close>, \<open>rem_down\<close>),
    the year loop \<open>offtime_year\<close> with its macros \<open>DIV\<close>, \<open>LEAPS_THRU_END_OF\<close>,
    \<open>__isleap\<close>, the month search over \<open>__mon_yday\<close> and \<open>EOVERFLOW\<close> as \<open>None\<close>.
  \<^item> FromTimestamp: CPython's \<open>_PyTime_ObjectToTimeval\<close> (\<open>modf\<close>, scaling, half-even
    rounding, carry, \<open>time_t\<close> range check raising \<open>OverflowError\<close>), \<open>_PyTime_gmtime\<close>
    raising \<open>OSError\<close>, and \<open>datetime_from_timet_and_us\<close> with its C \<open>int\<close> year
    arithmetic and constructor checks; \<open>utc_fromtimestamp\<close> is line 62.
  \<^item> Report: \<open>strftime\<close>, \<open>print\<close>, the ten report lines, the deadline line, and
    \<open>run_script\<close>/\<open>live_counter\<close>, the whole script: calculate, print, convert the
    deadline, print; an exception ends the run with the output printed so far.
  \<^item> Clock: \<open>datetime.datetime.now(timezone.utc)\<close> of line 20 (\<open>datetime_now_utc\<close>)
    as CPython 3.12 and earlier run it (3.13's raising \<open>PyTime_Time\<close> is not modelled):
    the \<open>clock_gettime\<close> reading (\<open>timespec\<close>, \<open>None\<close> for a failing call) turned
    into \<open>PyTime_t\<close> nanoseconds by the saturating \<open>pytime_mul\<close>/\<open>pytime_add\<close>
    (\<open>pytime_fromtimespec\<close>, \<open>_PyTime_GetSystemClock\<close>), divided by
    \<open>pytime_divide\<close> (all four rounding modes) and \<open>pytime_divmod\<close> into seconds and
    microseconds (\<open>_PyTime_AsTimevalTime_t\<close>), then \<open>datetime_from_timet_and_us\<close>;
    \<open>live_counter_run\<close> is the script from line 19 with the clock as its input.
  \<^item> Binary64: the rounding CPython's floats perform, IEEE 754 binary64 round-to-nearest-even
    (\<open>binary64\<close>, with the binade \<open>rat_exponent\<close> found from bit lengths \<open>nat_log2\<close>),
    normal and subnormal, to be passed as \<open>rnd\<close> to every operation above.
  \<^item> DoubleRun: the script on the specification's scenario with \<open>rnd = binary64\<close>, each
    double of the calculation and of \<open>fromtimestamp\<close> evaluated.

  \<^bold>\<open>What is proved.\<close> The calculation refines the specification's formula with exact
  arithmetic and raises \<open>ZeroDivisionError\<close> on a zero rate (Budget); the datetime
  constructor accepts exactly the valid datetimes and \<open>ymd_to_ord\<close> is an injective day
  count (Calendar); the formatting rounding is half-to-even, equal to CPython's timestamp
  rounding, the printed digits denote the rounded value and grouping puts a comma between
  the groups of three digits counted from the right (PyFloat, Format); glibc's year loop terminates as a \<open>while\<close> loop and computes the
  calendar's year and day (Offtime); \<open>fromtimestamp\<close> inverts \<open>timestamp\<close> on every valid
  datetime and raises the documented errors past year 9999 and past \<open>time_t\<close>
  (FromTimestamp); for every clock reading the script prints the specification's figures
  and the 2028 deadline, the JavaScript export agrees with the report, a zero rate ends the
  run before any output, a tiny positive rate prints the whole report and then raises
  \<open>OverflowError\<close> at line 62, and the printed dates read back to the datetime's fields
  (Report). Every
  \<open>time_t\<close> of the years 1..9999 converts back to a valid datetime (FromTimestamp, from
  the closed form \<open>gmtime_eq\<close> of Offtime). The clock read never fails: it is exact within
  the range of \<open>PyTime_t\<close>, clamps a later clock to 2262-04-11 23:47:16.854775, always
  lies between 1677 and 2262, and for every clock reading the script runs to its last line
  and prints the same deadline, because \<open>now + budget / rate\<close> does not depend on
  \<open>now\<close> (Clock). The binary64 rounding returns the double nearest to its argument and lies within
  \<open>max (|x| / 2^53) 2^-1075\<close> of its argument (Binary64), and with it the scenario prints
  the same report as with exact arithmetic (DoubleRun).

  \<^bold>\<open>Rounding, bounds and termination.\<close> Theorems stated for a variable \<open>rnd\<close> hold for
  every rounding function, \<open>binary64\<close> included; the others use \<open>exact\<close>, the reading the
  specification takes, or \<open>binary64\<close>, the reading CPython takes.
  No fuel is used: every loop is a terminating recursion (\<open>nat_log2\<close> halves its
  argument). The year loop's termination
  measure is \<open>days\<close> for non-negative \<open>days\<close> and \<open>400 - 2 * days\<close> for negative ones (a
  negative day count becomes non-negative after one guess); the two seconds loops decrease
  \<open>|rem|\<close>; the month search is structural on the index counting down from 11. Integer
  widths are checked where the C code has them: \<open>int\<close> arguments of the constructor,
  \<open>tm_year\<close>, \<open>tm_year + 1900\<close> (wrapping in \<open>32 word\<close>), \<open>time_t\<close> and the
  64-bit \<open>PyTime_t\<close> of the clock, whose saturation is written out. \<open>time_t\<close> is 64 bits,
  so \<open>_PyTime_AsTime_t\<close> is a copy.

  \<^bold>\<open>Not modelled.\<close> Infinities, NaN and \<open>-0.0\<close>, which the script's constants never
  produce (\<open>binary64\<close> is defined on the finite range); \<open>clock_gettime\<close> itself, whose
  reading is the input of Clock; the printing of \<open>repr\<close> for floats other than short
  decimal literals; \<open>%Y\<close> padding for years below
  1000, which CPython 3.13 changes; leap-second time zone files of glibc;
  \<open>timezone.utc.fromutc\<close>, which adds a zero offset and is the identity on the fields.
\<close>

end
